(* ===== verification/Ctx_Prelude.thy ===== *)
theory Ctx_Prelude
  imports Main
begin

text \<open>
  Shared vocabulary of the development: the fact collections the component
  theories fill and use, the reference types of the object store, the error
  value of a Python call that raises, the outcome type of such a call with
  the runs of a step function over it, and reference chains (the list of
  objects met when a nullable link field is followed to \<open>None\<close>).

  Nothing in this theory mentions spans or contexts: the lemmas are stated
  over type variables and are instantiated by the component theories.
\<close>

section \<open>Fact collections\<close>

named_theorems ctx_defs \<open>defining equations of the context operations\<close>
named_theorems heap_defs \<open>defining equations of the object-store primitives\<close>
named_theorems inv_defs \<open>defining equations of the invariants\<close>
named_theorems frame \<open>what an operation leaves unchanged\<close>

section \<open>References\<close>

text \<open>
  A Python variable holds a reference to an object, and two variables may
  hold the same one. Objects are therefore named by addresses; \<open>None\<close> is
  the \<open>None\<close> of an \<open>option\<close>. Spans and contexts live in separate stores, so
  the two address types are kept apart by name.
\<close>

type_synonym span_ref = nat
type_synonym ctx_ref = nat

section \<open>Calls that may raise\<close>

text \<open>
  The only exception the modelled code can raise is the \<open>AttributeError\<close> of
  reading an attribute of \<open>None\<close>. A call that raises may already have
  written to the store, so the error is paired with the state it leaves.
\<close>

datatype error = AttributeError

type_synonym 's result = "(error \<times> 's) + 's"

definition final :: "'s result \<Rightarrow> 's" where
  "final r = (case r of Inl (e, s) \<Rightarrow> s | Inr s \<Rightarrow> s)"

definition raised :: "'s result \<Rightarrow> error option" where
  "raised r = (case r of Inl (e, s) \<Rightarrow> Some e | Inr s \<Rightarrow> None)"

lemma final_simps [simp]:
  "final (Inl (e, s)) = s"
  "final (Inr s) = s"
  by (simp_all add: final_def)

lemma raised_simps [simp]:
  "raised (Inl (e, s)) = Some e"
  "raised (Inr s) = None"
  by (simp_all add: raised_def)

lemma raised_None_iff: "raised r = None \<longleftrightarrow> r = Inr (final r)"
  by (cases r) auto

lemma raised_Some_iff: "raised r = Some e \<longleftrightarrow> r = Inl (e, final r)"
  by (cases r) auto

subsection \<open>Runs\<close>

text \<open>
  A run applies a step function to a list of events, left to right, and stops
  at the first event that raises, as an uncaught exception stops the caller.
\<close>

fun run :: "('e \<Rightarrow> 's \<Rightarrow> 's result) \<Rightarrow> 'e list \<Rightarrow> 's \<Rightarrow> 's result" where
  "run step [] s = Inr s"
| "run step (e # es) s =
     (case step e s of Inl x \<Rightarrow> Inl x | Inr s' \<Rightarrow> run step es s')"

lemma run_append:
  "run step (es @ fs) s =
     (case run step es s of Inl x \<Rightarrow> Inl x | Inr s' \<Rightarrow> run step fs s')"
  by (induction es arbitrary: s) (auto split: sum.splits)

lemma run_append_Inr:
  "run step es s = Inr s' \<Longrightarrow> run step (es @ fs) s = run step fs s'"
  by (simp add: run_append)

lemma run_snoc_Inr:
  "run step es s = Inr s' \<Longrightarrow> run step (es @ [e]) s = step e s'"
  by (simp add: run_append split: sum.splits)

text \<open>
  A predicate that every step keeps, whether the step returns or raises,
  holds in the state a run leaves.
\<close>

lemma run_invariant:
  assumes step: "\<And>e s. I s \<Longrightarrow> I (final (step e s))"
    and init: "I s"
  shows "I (final (run step es s))"
  using init
proof (induction es arbitrary: s)
  case Nil
  then show ?case by simp
next
  case (Cons e es)
  from step [OF Cons.prems, of e] Cons.IH show ?case
    by (cases "step e s") auto
qed

text \<open>A run of steps that all return does not raise.\<close>

lemma run_returns:
  assumes "\<And>e s. e \<in> set es \<Longrightarrow> raised (step e s) = None"
  shows "raised (run step es s) = None"
  using assms
proof (induction es arbitrary: s)
  case Nil
  then show ?case by simp
next
  case (Cons e es)
  from Cons.prems [of e s] obtain s' where "step e s = Inr s'"
    by (auto simp: raised_None_iff)
  with Cons show ?case by simp
qed

section \<open>Lists\<close>

text \<open>
  Where a list with a marked element is cut in two, the cut is before the
  element or after it.
\<close>

lemma count_list_replicate_same [simp]: "count_list (replicate n x) x = n"
  by (induction n) simp_all

lemma append_Cons_eq_append_cases:
  assumes "xs @ y # ys = us @ vs"
  obtains (before) ws where "xs = us @ ws" and "vs = ws @ y # ys"
    | (after) ws where "us = xs @ y # ws" and "ys = ws @ vs"
  using assms by (auto simp: append_eq_append_conv2 Cons_eq_append_conv)

section \<open>Reference chains\<close>

text \<open>
  \<open>chain nxt x as\<close>: following the link field \<open>nxt\<close> from the nullable
  reference \<open>x\<close> visits exactly the objects \<open>as\<close>, in this order, and then
  reaches \<open>None\<close>. The predicate is computed by recursion over the list, so
  it is defined on cyclic stores too (where it is false for every list).
\<close>

primrec chain :: "('a \<Rightarrow> 'a option) \<Rightarrow> 'a option \<Rightarrow> 'a list \<Rightarrow> bool" where
  "chain nxt x [] \<longleftrightarrow> x = None"
| "chain nxt x (a # as) \<longleftrightarrow> x = Some a \<and> chain nxt (nxt a) as"

lemma chain_None [simp]: "chain nxt None as \<longleftrightarrow> as = []"
  by (cases as) auto

lemma chain_Some: "chain nxt (Some a) as \<longleftrightarrow> (\<exists>bs. as = a # bs \<and> chain nxt (nxt a) bs)"
  by (cases as) auto

lemma chain_unique: "chain nxt x as \<Longrightarrow> chain nxt x bs \<Longrightarrow> as = bs"
proof (induction as arbitrary: x bs)
  case Nil
  then show ?case by simp
next
  case (Cons a as)
  then show ?case by (cases bs) auto
qed

text \<open>A chain is cut at any of its members into a path and a shorter chain.\<close>

lemma chain_append:
  "chain nxt x (as @ b # bs) \<Longrightarrow> chain nxt (Some b) (b # bs)"
  by (induction as arbitrary: x) auto

lemma chain_member_not_in_rest:
  assumes "chain nxt (nxt a) as"
  shows "a \<notin> set as"
proof
  assume "a \<in> set as"
  then obtain ys zs where as: "as = ys @ a # zs"
    by (auto simp: in_set_conv_decomp)
  with assms have "chain nxt (Some a) (a # zs)"
    by (auto dest: chain_append)
  then have "chain nxt (nxt a) zs" by simp
  with assms have "as = zs" by (rule chain_unique)
  with as show False by simp
qed

lemma chain_distinct: "chain nxt x as \<Longrightarrow> distinct as"
  by (induction as arbitrary: x) (auto dest: chain_member_not_in_rest)

text \<open>
  A chain depends on the link field of its members only: stores that agree
  there have the same chain.
\<close>

lemma chain_cong_set:
  "(\<And>a. a \<in> set as \<Longrightarrow> nxt a = nxt' a) \<Longrightarrow> chain nxt x as = chain nxt' x as"
  by (induction as arbitrary: x) auto

text \<open>
  An attribute that every link preserves is the same on all members of a
  chain.
\<close>

lemma chain_constant:
  assumes "chain nxt (Some a) as" and "\<And>x y. nxt x = Some y \<Longrightarrow> f x = f y"
  shows "\<forall>b\<in>set as. f b = f a"
  using assms(1)
proof (induction as arbitrary: a)
  case Nil
  then show ?case by simp
next
  case (Cons c cs)
  then have a: "c = a" and rest: "chain nxt (nxt a) cs" by simp_all
  show ?case
  proof (cases "nxt a")
    case None
    with rest a show ?thesis by simp
  next
    case (Some y)
    with rest Cons.IH [of y] assms(2) [OF Some] a show ?thesis by simp
  qed
qed

lemma chain_last_no_next:
  "chain nxt x as \<Longrightarrow> as \<noteq> [] \<Longrightarrow> nxt (last as) = None"
  by (induction as arbitrary: x) (auto split: if_splits)

text \<open>
  The chain as a function: \<open>walk n nxt x\<close> follows at most \<open>n\<close> links and
  returns the objects visited, or \<open>None\<close> when the fuel does not reach the
  end. The fuel is what makes the walk total on a cyclic store.
\<close>

fun walk :: "nat \<Rightarrow> ('a \<Rightarrow> 'a option) \<Rightarrow> 'a option \<Rightarrow> 'a list option" where
  "walk n nxt None = Some []"
| "walk 0 nxt (Some a) = None"
| "walk (Suc n) nxt (Some a) = map_option ((#) a) (walk n nxt (nxt a))"

lemma walk_chain: "walk n nxt x = Some as \<Longrightarrow> chain nxt x as"
  by (induction n nxt x arbitrary: as rule: walk.induct) auto

lemma chain_walk: "chain nxt x as \<Longrightarrow> length as \<le> n \<Longrightarrow> walk n nxt x = Some as"
proof (induction as arbitrary: x n)
  case Nil
  then show ?case by simp
next
  case (Cons a as)
  then obtain m where "n = Suc m" by (cases n) auto
  with Cons show ?case by auto
qed

lemma walk_Some_iff:
  "walk n nxt x = Some as \<longleftrightarrow> chain nxt x as \<and> length as \<le> n"
proof
  assume w: "walk n nxt x = Some as"
  then have "length as \<le> n"
    by (induction n nxt x arbitrary: as rule: walk.induct) auto
  with w show "chain nxt x as \<and> length as \<le> n"
    by (simp add: walk_chain)
qed (simp add: chain_walk)

end
