(* ===== verification/Span.thy ===== *)
theory Span
  imports Ctx_Prelude
begin

text \<open>
  The span entity, as far as \<^verbatim>\<open>src/ddtrace/context.py\<close> uses it. The class itself
  (\<^verbatim>\<open>ddtrace/span.py\<close>) and the two tag keys (\<^verbatim>\<open>ddtrace/constants.py\<close>) are not
  among the sources; they are modelled from the interface the specification
  gives (section 3, "Span", and section 6): identifiers \<open>trace_id\<close> and
  \<open>span_id\<close>, a nullable \<open>_parent\<close> reference, the two tag dictionaries
  \<open>meta\<close> and \<open>metrics\<close>, and the \<open>_context\<close> back-reference.

  A span object is a record; the span store maps every span reference to the
  object it names. The context code writes three attributes of a span
  (\<open>meta[k]\<close>, \<open>metrics[k]\<close>, \<open>_context\<close>) and never the identifiers or the
  parent link; the three writes are the store primitives below.

  Python's dictionaries hold any object as a value, \<open>None\<close> included, and the
  property setters of the context do store \<open>None\<close> there. A dictionary is
  therefore a map into an \<open>option\<close>: \<open>meta k = None\<close> says the key is absent,
  \<open>meta k = Some None\<close> that it is present with the value \<open>None\<close>.
\<close>

section \<open>Span objects\<close>

record span =
  sp_trace_id :: int
  sp_span_id :: int
  sp_parent :: "span_ref option"
  sp_meta :: "string \<rightharpoonup> string option"
  sp_metrics :: "string \<rightharpoonup> int option"
  sp_context :: "ctx_ref option"

type_synonym span_store = "span_ref \<Rightarrow> span"

definition ORIGIN_KEY :: string where
  "ORIGIN_KEY = ''_dd.origin''"

definition SAMPLING_PRIORITY_KEY :: string where
  "SAMPLING_PRIORITY_KEY = ''_sampling_priority_v1''"

section \<open>Attribute writes\<close>

text \<open>\<^verbatim>\<open>span.meta[k] = v\<close>, \<^verbatim>\<open>span.metrics[k] = v\<close> and \<^verbatim>\<open>span._context = c\<close>.\<close>

definition set_meta :: "span_ref \<Rightarrow> string \<Rightarrow> string option \<Rightarrow> span_store \<Rightarrow> span_store" where
  [heap_defs]: "set_meta r k v st = st(r := (st r)\<lparr>sp_meta := (sp_meta (st r))(k \<mapsto> v)\<rparr>)"

definition set_metric :: "span_ref \<Rightarrow> string \<Rightarrow> int option \<Rightarrow> span_store \<Rightarrow> span_store" where
  [heap_defs]: "set_metric r k v st = st(r := (st r)\<lparr>sp_metrics := (sp_metrics (st r))(k \<mapsto> v)\<rparr>)"

definition set_context :: "span_ref \<Rightarrow> ctx_ref \<Rightarrow> span_store \<Rightarrow> span_store" where
  [heap_defs]: "set_context r c st = st(r := (st r)\<lparr>sp_context := Some c\<rparr>)"

section \<open>The shape of a span store\<close>

text \<open>
  The identity of a span (its two identifiers and its parent link) is what
  the context reads; two stores with the same shape are indistinguishable to
  every read the context makes of a span's identity.
\<close>

definition same_shape :: "span_store \<Rightarrow> span_store \<Rightarrow> bool" where
  "same_shape st st' \<longleftrightarrow>
     (\<forall>r. sp_trace_id (st' r) = sp_trace_id (st r) \<and>
          sp_span_id (st' r) = sp_span_id (st r) \<and>
          sp_parent (st' r) = sp_parent (st r))"

abbreviation parent_of :: "span_store \<Rightarrow> span_ref \<Rightarrow> span_ref option" where
  "parent_of st \<equiv> \<lambda>r. sp_parent (st r)"

text \<open>
  \<open>ancestry st x as\<close>: \<open>as\<close> is the span \<open>x\<close> (when there is one) followed by
  its parent, grandparent and so on up to a span with no parent.
\<close>

abbreviation ancestry :: "span_store \<Rightarrow> span_ref option \<Rightarrow> span_ref list \<Rightarrow> bool" where
  "ancestry st \<equiv> chain (parent_of st)"

lemma same_shape_refl [simp]: "same_shape st st"
  by (simp add: same_shape_def)

lemma same_shape_sym: "same_shape st st' \<Longrightarrow> same_shape st' st"
  by (simp add: same_shape_def)

lemma same_shape_trans [trans]:
  "same_shape st st' \<Longrightarrow> same_shape st' st'' \<Longrightarrow> same_shape st st''"
  by (simp add: same_shape_def)

lemma same_shapeD:
  assumes "same_shape st st'"
  shows "sp_trace_id (st' r) = sp_trace_id (st r)"
    and "sp_span_id (st' r) = sp_span_id (st r)"
    and "sp_parent (st' r) = sp_parent (st r)"
  using assms by (simp_all add: same_shape_def)

lemma same_shape_parent_of: "same_shape st st' \<Longrightarrow> parent_of st' = parent_of st"
  by (simp add: same_shape_def)

lemma same_shape_ancestry:
  "same_shape st st' \<Longrightarrow> ancestry st' x as = ancestry st x as"
  by (simp add: same_shape_parent_of)

subsection \<open>The writes keep the shape\<close>

lemma set_meta_shape [frame]: "same_shape st (set_meta r k v st)"
  by (auto simp: same_shape_def set_meta_def)

lemma set_metric_shape [frame]: "same_shape st (set_metric r k v st)"
  by (auto simp: same_shape_def set_metric_def)

lemma set_context_shape [frame]: "same_shape st (set_context r c st)"
  by (auto simp: same_shape_def set_context_def)

subsection \<open>Reading after a write\<close>

lemma set_meta_meta:
  "sp_meta (set_meta r k v st r') =
     (if r' = r then (sp_meta (st r))(k \<mapsto> v) else sp_meta (st r'))"
  by (simp add: set_meta_def)

lemma set_meta_metrics [simp]: "sp_metrics (set_meta r k v st r') = sp_metrics (st r')"
  by (simp add: set_meta_def)

lemma set_meta_context [simp]: "sp_context (set_meta r k v st r') = sp_context (st r')"
  by (simp add: set_meta_def)

lemma set_metric_metrics:
  "sp_metrics (set_metric r k v st r') =
     (if r' = r then (sp_metrics (st r))(k \<mapsto> v) else sp_metrics (st r'))"
  by (simp add: set_metric_def)

lemma set_metric_meta [simp]: "sp_meta (set_metric r k v st r') = sp_meta (st r')"
  by (simp add: set_metric_def)

lemma set_metric_context [simp]: "sp_context (set_metric r k v st r') = sp_context (st r')"
  by (simp add: set_metric_def)

lemma set_context_context:
  "sp_context (set_context r c st r') = (if r' = r then Some c else sp_context (st r'))"
  by (simp add: set_context_def)

lemma set_context_meta [simp]: "sp_meta (set_context r c st r') = sp_meta (st r')"
  by (simp add: set_context_def)

lemma set_context_metrics [simp]: "sp_metrics (set_context r c st r') = sp_metrics (st r')"
  by (simp add: set_context_def)

lemmas set_meta_shape_simps [simp] = same_shapeD [OF set_meta_shape]
lemmas set_metric_shape_simps [simp] = same_shapeD [OF set_metric_shape]
lemmas set_context_shape_simps [simp] = same_shapeD [OF set_context_shape]

lemmas span_write_simps = set_meta_meta set_metric_metrics set_context_context

end
