(* ===== verification/Trace_Context.thy ===== *)
theory Trace_Context
  imports Span
begin

text \<open>
  The class \<open>Context\<close> of \<^verbatim>\<open>src/ddtrace/context.py\<close>: its seven attributes as
  a record, the object store that holds contexts and spans side by side, and
  one definition per method, in the order of the source.

  A method takes the reference \<open>self\<close> of the context it is called on and
  the store, and returns the store it leaves (with the value it returns, if
  any). \<open>add_span\<close> and \<open>close_span\<close> read an attribute of their argument,
  which raises \<open>AttributeError\<close> when the argument is \<open>None\<close>; they return a
  \<open>result\<close>. The other methods cannot raise.

  The conditions \<^verbatim>\<open>if self._local_root_span:\<close>, \<^verbatim>\<open>if not span._parent:\<close> and
  \<^verbatim>\<open>if span:\<close> test a value that is a span or \<open>None\<close>; a span object is true
  (the class defines neither \<^verbatim>\<open>__bool__\<close> nor \<^verbatim>\<open>__len__\<close>), so each is a test
  against \<open>None\<close>. \<^verbatim>\<open>span == self._local_root_span\<close> compares object
  identities (the class defines no \<^verbatim>\<open>__eq__\<close>), that is, references.
\<close>

section \<open>The context object and the store\<close>

record Context =
  c_active_span :: "span_ref option"
  c_trace_root_span_id :: "int option"
  c_local_root_span :: "span_ref option"
  c_trace_id :: "int option"
  c_active_span_id :: "int option"
  c_sampling_priority :: "int option"
  c_dd_origin :: "string option"

record heap =
  spans :: span_store
  ctxs :: "ctx_ref \<Rightarrow> Context"
  next_ctx :: ctx_ref

text \<open>
  \<open>next_ctx\<close> is the allocation pointer: the contexts that exist are those
  below it, and creating one takes the address it holds.
\<close>

definition upd_ctx :: "ctx_ref \<Rightarrow> (Context \<Rightarrow> Context) \<Rightarrow> heap \<Rightarrow> heap" where
  [heap_defs]: "upd_ctx self f h = h\<lparr>ctxs := (ctxs h)(self := f (ctxs h self))\<rparr>"

definition upd_spans :: "(span_store \<Rightarrow> span_store) \<Rightarrow> heap \<Rightarrow> heap" where
  [heap_defs]: "upd_spans f h = h\<lparr>spans := f (spans h)\<rparr>"

definition alloc_ctx :: "Context \<Rightarrow> heap \<Rightarrow> ctx_ref \<times> heap" where
  [heap_defs]: "alloc_ctx c h =
     (next_ctx h, h\<lparr>ctxs := (ctxs h)(next_ctx h := c), next_ctx := Suc (next_ctx h)\<rparr>)"

section \<open>The methods\<close>

definition init :: "int option \<Rightarrow> int option \<Rightarrow> int option \<Rightarrow> string option \<Rightarrow> Context" where
  [ctx_defs]: "init trace_id span_id sampling_priority dd_origin =
     \<lparr>c_active_span = None,
      c_trace_root_span_id = None,
      c_local_root_span = None,
      c_trace_id = trace_id,
      c_active_span_id = span_id,
      c_sampling_priority = sampling_priority,
      c_dd_origin = dd_origin\<rparr>"

definition sampling_priority :: "ctx_ref \<Rightarrow> heap \<Rightarrow> int option" where
  [ctx_defs]: "sampling_priority self h = c_sampling_priority (ctxs h self)"

definition set_sampling_priority :: "ctx_ref \<Rightarrow> int option \<Rightarrow> heap \<Rightarrow> heap" where
  [ctx_defs]: "set_sampling_priority self v h =
     (let h1 = (case c_local_root_span (ctxs h self) of
                  Some root \<Rightarrow> upd_spans (set_metric root SAMPLING_PRIORITY_KEY v) h
                | None \<Rightarrow> h)
      in upd_ctx self (\<lambda>c. c\<lparr>c_sampling_priority := v\<rparr>) h1)"

definition dd_origin :: "ctx_ref \<Rightarrow> heap \<Rightarrow> string option" where
  [ctx_defs]: "dd_origin self h = c_dd_origin (ctxs h self)"

definition set_dd_origin :: "ctx_ref \<Rightarrow> string option \<Rightarrow> heap \<Rightarrow> heap" where
  [ctx_defs]: "set_dd_origin self v h =
     (let h1 = (case c_local_root_span (ctxs h self) of
                  Some root \<Rightarrow> upd_spans (set_meta root ORIGIN_KEY v) h
                | None \<Rightarrow> h)
      in upd_ctx self (\<lambda>c. c\<lparr>c_dd_origin := v\<rparr>) h1)"

definition trace_id :: "ctx_ref \<Rightarrow> heap \<Rightarrow> int option" where
  [ctx_defs]: "trace_id self h = c_trace_id (ctxs h self)"

definition span_id :: "ctx_ref \<Rightarrow> heap \<Rightarrow> int option" where
  [ctx_defs]: "span_id self h = c_active_span_id (ctxs h self)"

definition clone :: "ctx_ref \<Rightarrow> heap \<Rightarrow> ctx_ref \<times> heap" where
  [ctx_defs]: "clone self h =
     (let (new_ctx, h1) =
            alloc_ctx (init (c_trace_id (ctxs h self)) (c_active_span_id (ctxs h self))
                            (sampling_priority self h) (dd_origin self h)) h;
          h2 = upd_ctx new_ctx (\<lambda>c. c\<lparr>c_active_span_id := c_active_span_id (ctxs h1 self)\<rparr>) h1
      in (new_ctx, h2))"

definition get_current_root_span :: "ctx_ref \<Rightarrow> heap \<Rightarrow> span_ref option" where
  [ctx_defs]: "get_current_root_span self h = c_local_root_span (ctxs h self)"

definition get_current_span :: "ctx_ref \<Rightarrow> heap \<Rightarrow> span_ref option" where
  [ctx_defs]: "get_current_span self h = c_active_span (ctxs h self)"

definition set_current_span :: "ctx_ref \<Rightarrow> span_ref option \<Rightarrow> heap \<Rightarrow> heap" where
  [ctx_defs]: "set_current_span self span h =
     (let h1 = upd_ctx self (\<lambda>c. c\<lparr>c_active_span := span\<rparr>) h
      in case span of
           Some s \<Rightarrow>
             upd_ctx self (\<lambda>c. c\<lparr>c_active_span_id := Some (sp_span_id (spans h1 s))\<rparr>)
               (upd_ctx self (\<lambda>c. c\<lparr>c_trace_id := Some (sp_trace_id (spans h1 s))\<rparr>) h1)
         | None \<Rightarrow> upd_ctx self (\<lambda>c. c\<lparr>c_active_span_id := None\<rparr>) h1)"

definition add_span :: "ctx_ref \<Rightarrow> span_ref option \<Rightarrow> heap \<Rightarrow> heap result" where
  [ctx_defs]: "add_span self span h =
     (case span of
        None \<Rightarrow> Inl (AttributeError, h)
      | Some s \<Rightarrow>
          let h1 =
                (if sp_parent (spans h s) = None then
                   let ha = upd_ctx self (\<lambda>c. c\<lparr>c_local_root_span := Some s\<rparr>) h;
                       hb = (case dd_origin self ha of
                               Some org \<Rightarrow> upd_spans (set_meta s ORIGIN_KEY (Some org)) ha
                             | None \<Rightarrow> ha);
                       hc = (case sampling_priority self hb of
                               Some p \<Rightarrow> upd_spans (set_metric s SAMPLING_PRIORITY_KEY (Some p)) hb
                             | None \<Rightarrow> hb)
                   in hc
                 else h);
              h2 = set_current_span self (Some s) h1
          in Inr (upd_spans (set_context s self) h2))"

definition close_span :: "ctx_ref \<Rightarrow> span_ref option \<Rightarrow> heap \<Rightarrow> heap result" where
  [ctx_defs]: "close_span self span h =
     (let h1 =
            (if span = c_local_root_span (ctxs h self) then
               upd_ctx self (\<lambda>c. c\<lparr>c_trace_id := None\<rparr>)
                 (upd_ctx self (\<lambda>c. c\<lparr>c_trace_root_span_id := None\<rparr>)
                   (upd_ctx self (\<lambda>c. c\<lparr>c_local_root_span := None\<rparr>) h))
             else h)
      in case span of
           None \<Rightarrow> Inl (AttributeError, h1)
         | Some s \<Rightarrow> Inr (set_current_span self (sp_parent (spans h1 s)) h1))"

section \<open>Reading the store after a primitive\<close>

lemma upd_ctx_simps [simp]:
  "ctxs (upd_ctx self f h) c = (if c = self then f (ctxs h self) else ctxs h c)"
  "spans (upd_ctx self f h) = spans h"
  "next_ctx (upd_ctx self f h) = next_ctx h"
  by (simp_all add: upd_ctx_def)

lemma upd_spans_simps [simp]:
  "spans (upd_spans g h) = g (spans h)"
  "ctxs (upd_spans g h) = ctxs h"
  "next_ctx (upd_spans g h) = next_ctx h"
  by (simp_all add: upd_spans_def)

lemma alloc_ctx_simps [simp]:
  "fst (alloc_ctx c h) = next_ctx h"
  "ctxs (snd (alloc_ctx c h)) c' = (if c' = next_ctx h then c else ctxs h c')"
  "spans (snd (alloc_ctx c h)) = spans h"
  "next_ctx (snd (alloc_ctx c h)) = Suc (next_ctx h)"
  by (simp_all add: alloc_ctx_def)

text \<open>
  Two stores are equal when they agree on the three components; with the
  equations above this decides every equation between stores built from the
  primitives.
\<close>

lemma heap_eqI:
  "spans h = spans h' \<Longrightarrow> ctxs h = ctxs h' \<Longrightarrow> next_ctx h = next_ctx h' \<Longrightarrow> h = h'"
  for h h' :: heap
  by simp

lemma upd_ctx_id [simp]: "upd_ctx self (\<lambda>c. c) h = h"
  by (rule heap_eqI) (auto simp: fun_eq_iff)

lemma upd_ctx_upd_ctx [simp]:
  "upd_ctx self f (upd_ctx self g h) = upd_ctx self (f \<circ> g) h"
  by (rule heap_eqI) (auto simp: fun_eq_iff)

section \<open>The constructor and the read-only properties\<close>

lemma init_fields [simp]:
  "c_active_span (init t s p d) = None"
  "c_trace_root_span_id (init t s p d) = None"
  "c_local_root_span (init t s p d) = None"
  "c_trace_id (init t s p d) = t"
  "c_active_span_id (init t s p d) = s"
  "c_sampling_priority (init t s p d) = p"
  "c_dd_origin (init t s p d) = d"
  by (simp_all add: init_def)

lemmas getter_defs =
  sampling_priority_def dd_origin_def trace_id_def span_id_def
  get_current_root_span_def get_current_span_def

section \<open>What \<open>_set_current_span\<close> writes\<close>

lemma set_current_span_ctxs:
  "ctxs (set_current_span self span h) c =
     (if c = self then
        (ctxs h self)
          \<lparr>c_active_span := span,
           c_trace_id :=
             (case span of Some s \<Rightarrow> Some (sp_trace_id (spans h s)) | None \<Rightarrow> c_trace_id (ctxs h self)),
           c_active_span_id := map_option (\<lambda>s. sp_span_id (spans h s)) span\<rparr>
      else ctxs h c)"
  by (cases span) (simp_all add: set_current_span_def)

lemma set_current_span_spans [simp]: "spans (set_current_span self span h) = spans h"
  by (cases span) (simp_all add: set_current_span_def)

lemma set_current_span_next_ctx [simp]: "next_ctx (set_current_span self span h) = next_ctx h"
  by (cases span) (simp_all add: set_current_span_def)

section \<open>What \<open>add_span\<close> writes\<close>

lemma add_span_None [simp]: "add_span self None h = Inl (AttributeError, h)"
  by (simp add: add_span_def)

lemma add_span_returns [simp]: "raised (add_span self (Some s) h) = None"
  by (simp add: add_span_def Let_def)

lemma add_span_Inr: "add_span self (Some s) h = Inr (final (add_span self (Some s) h))"
  using add_span_returns [of self s h] by (simp only: raised_None_iff)

lemma add_span_ctxs:
  "ctxs (final (add_span self (Some s) h)) c =
     (if c = self then
        (ctxs h self)
          \<lparr>c_local_root_span :=
             (if sp_parent (spans h s) = None then Some s else c_local_root_span (ctxs h self)),
           c_active_span := Some s,
           c_trace_id := Some (sp_trace_id (spans h s)),
           c_active_span_id := Some (sp_span_id (spans h s))\<rparr>
      else ctxs h c)"
  by (simp add: add_span_def Let_def getter_defs set_current_span_ctxs split: option.splits)

lemma add_span_next_ctx [simp]: "next_ctx (final (add_span self span h)) = next_ctx h"
  by (cases span) (simp_all add: add_span_def Let_def getter_defs split: option.splits)

lemma add_span_shape [frame]: "same_shape (spans h) (spans (final (add_span self span h)))"
  by (cases span)
    (auto simp: add_span_def Let_def getter_defs same_shape_def split: option.splits)

lemmas add_span_shape_simps [simp] = same_shapeD [OF add_span_shape]

lemma add_span_context:
  "sp_context (spans (final (add_span self (Some s) h)) r) =
     (if r = s then Some self else sp_context (spans h r))"
  by (simp add: add_span_def Let_def getter_defs set_context_context split: option.splits)

lemma add_span_meta:
  "sp_meta (spans (final (add_span self (Some s) h)) r) =
     (if r = s \<and> sp_parent (spans h s) = None \<and> c_dd_origin (ctxs h self) \<noteq> None
      then (sp_meta (spans h s))(ORIGIN_KEY \<mapsto> c_dd_origin (ctxs h self))
      else sp_meta (spans h r))"
  by (auto simp: add_span_def Let_def getter_defs set_meta_meta split: option.splits)

lemma add_span_metrics:
  "sp_metrics (spans (final (add_span self (Some s) h)) r) =
     (if r = s \<and> sp_parent (spans h s) = None \<and> c_sampling_priority (ctxs h self) \<noteq> None
      then (sp_metrics (spans h s))(SAMPLING_PRIORITY_KEY \<mapsto> c_sampling_priority (ctxs h self))
      else sp_metrics (spans h r))"
  by (auto simp: add_span_def Let_def getter_defs set_metric_metrics split: option.splits)

section \<open>What \<open>close_span\<close> writes\<close>

lemma close_span_returns [simp]: "raised (close_span self (Some s) h) = None"
  by (simp add: close_span_def Let_def)

lemma close_span_raises [simp]: "raised (close_span self None h) = Some AttributeError"
  by (simp add: close_span_def Let_def)

lemma close_span_Inr: "close_span self (Some s) h = Inr (final (close_span self (Some s) h))"
  using close_span_returns [of self s h] by (simp only: raised_None_iff)

lemma close_span_spans [simp]: "spans (final (close_span self span h)) = spans h"
  by (cases span) (simp_all add: close_span_def Let_def)

lemma close_span_next_ctx [simp]: "next_ctx (final (close_span self span h)) = next_ctx h"
  by (cases span) (simp_all add: close_span_def Let_def)

lemma close_span_ctxs:
  "ctxs (final (close_span self (Some s) h)) c =
     (if c = self then
        (let is_root = (c_local_root_span (ctxs h self) = Some s);
             p = sp_parent (spans h s)
         in (ctxs h self)
              \<lparr>c_local_root_span := (if is_root then None else c_local_root_span (ctxs h self)),
               c_trace_root_span_id := (if is_root then None else c_trace_root_span_id (ctxs h self)),
               c_active_span := p,
               c_trace_id :=
                 (case p of
                    Some q \<Rightarrow> Some (sp_trace_id (spans h q))
                  | None \<Rightarrow> if is_root then None else c_trace_id (ctxs h self)),
               c_active_span_id := map_option (\<lambda>q. sp_span_id (spans h q)) p\<rparr>)
      else ctxs h c)"
  by (auto simp: close_span_def Let_def set_current_span_ctxs split: option.splits)

lemma close_span_None_ctxs:
  "ctxs (final (close_span self None h)) c =
     (if c = self \<and> c_local_root_span (ctxs h self) = None
      then (ctxs h self)\<lparr>c_trace_root_span_id := None, c_trace_id := None\<rparr>
      else ctxs h c)"
  by (auto simp: close_span_def Let_def)

section \<open>What the property setters write\<close>

lemma set_sampling_priority_ctxs:
  "ctxs (set_sampling_priority self v h) c =
     (if c = self then (ctxs h self)\<lparr>c_sampling_priority := v\<rparr> else ctxs h c)"
  by (simp add: set_sampling_priority_def Let_def split: option.splits)

lemma set_sampling_priority_spans:
  "spans (set_sampling_priority self v h) =
     (case c_local_root_span (ctxs h self) of
        Some root \<Rightarrow> set_metric root SAMPLING_PRIORITY_KEY v (spans h)
      | None \<Rightarrow> spans h)"
  by (simp add: set_sampling_priority_def Let_def split: option.splits)

lemma set_sampling_priority_next_ctx [simp]:
  "next_ctx (set_sampling_priority self v h) = next_ctx h"
  by (simp add: set_sampling_priority_def Let_def split: option.splits)

lemma set_sampling_priority_shape [frame]:
  "same_shape (spans h) (spans (set_sampling_priority self v h))"
  by (auto simp: set_sampling_priority_def Let_def heap_defs same_shape_def split: option.splits)

lemmas set_sampling_priority_shape_simps [simp] = same_shapeD [OF set_sampling_priority_shape]

lemma set_dd_origin_ctxs:
  "ctxs (set_dd_origin self v h) c =
     (if c = self then (ctxs h self)\<lparr>c_dd_origin := v\<rparr> else ctxs h c)"
  by (simp add: set_dd_origin_def Let_def split: option.splits)

lemma set_dd_origin_spans:
  "spans (set_dd_origin self v h) =
     (case c_local_root_span (ctxs h self) of
        Some root \<Rightarrow> set_meta root ORIGIN_KEY v (spans h)
      | None \<Rightarrow> spans h)"
  by (simp add: set_dd_origin_def Let_def split: option.splits)

lemma set_dd_origin_next_ctx [simp]: "next_ctx (set_dd_origin self v h) = next_ctx h"
  by (simp add: set_dd_origin_def Let_def split: option.splits)

lemma set_dd_origin_shape [frame]: "same_shape (spans h) (spans (set_dd_origin self v h))"
  by (auto simp: set_dd_origin_def Let_def heap_defs same_shape_def split: option.splits)

lemmas set_dd_origin_shape_simps [simp] = same_shapeD [OF set_dd_origin_shape]

section \<open>What \<open>clone\<close> writes\<close>

lemma clone_ref [simp]: "fst (clone self h) = next_ctx h"
  by (simp add: clone_def Let_def alloc_ctx_def)

lemma clone_ctxs:
  "ctxs (snd (clone self h)) c =
     (if c = next_ctx h then
        init (c_trace_id (ctxs h self)) (c_active_span_id (ctxs h self))
             (c_sampling_priority (ctxs h self)) (c_dd_origin (ctxs h self))
      else ctxs h c)"
  by (simp add: clone_def Let_def alloc_ctx_def upd_ctx_def init_def getter_defs)

lemma clone_spans [simp]: "spans (snd (clone self h)) = spans h"
  by (simp add: clone_def Let_def alloc_ctx_def upd_ctx_def)

lemma clone_next_ctx [simp]: "next_ctx (snd (clone self h)) = Suc (next_ctx h)"
  by (simp add: clone_def Let_def alloc_ctx_def upd_ctx_def)

section \<open>A concrete store\<close>

text \<open>
  The store the closed instances below are evaluated in: span \<open>0\<close> is a root
  span and span \<open>r + 1\<close> is a child of span \<open>r\<close>, all of trace 42 and with no
  tags; context \<open>0\<close> exists and is as \<open>Context()\<close> leaves it.
\<close>

definition ex_spans :: span_store where
  "ex_spans r =
     \<lparr>sp_trace_id = 42, sp_span_id = int r + 1,
      sp_parent = (if r = 0 then None else Some (r - 1)),
      sp_meta = Map.empty, sp_metrics = Map.empty, sp_context = None\<rparr>"

definition ex_heap :: heap where
  "ex_heap = \<lparr>spans = ex_spans, ctxs = (\<lambda>_. init None None None None), next_ctx = 1\<rparr>"

lemma ex_spans_simps [simp]:
  "sp_trace_id (ex_spans r) = 42"
  "sp_span_id (ex_spans r) = int r + 1"
  "sp_parent (ex_spans 0) = None"
  "sp_parent (ex_spans (Suc r)) = Some r"
  "sp_meta (ex_spans r) = Map.empty"
  "sp_metrics (ex_spans r) = Map.empty"
  "sp_context (ex_spans r) = None"
  by (simp_all add: ex_spans_def)

lemma ex_heap_simps [simp]:
  "spans ex_heap = ex_spans"
  "ctxs ex_heap c = init None None None None"
  "next_ctx ex_heap = 1"
  by (simp_all add: ex_heap_def)

section \<open>Behaviour of the methods\<close>

text \<open>
  C1. \<open>add_span\<close> called with a span returns, and leaves that span as the
  current span of the context, the span's identifier and trace identifier as
  the context's \<open>span_id\<close> and \<open>trace_id\<close>, and the context as the span's
  \<open>_context\<close>.
\<close>

theorem add_span_activates:
  "let h' = final (add_span self (Some s) h) in
     raised (add_span self (Some s) h) = None \<and>
     get_current_span self h' = Some s \<and>
     span_id self h' = Some (sp_span_id (spans h s)) \<and>
     trace_id self h' = Some (sp_trace_id (spans h s)) \<and>
     sp_context (spans h' s) = Some self"
  by (simp add: Let_def ctx_defs heap_defs split: option.splits)

text \<open>
  C2. \<open>close_span\<close> called with a span returns, and makes the span's parent
  the current span (no span when it has no parent): \<open>span_id\<close> is the
  parent's identifier or \<open>None\<close>, \<open>trace_id\<close> is the parent's trace identifier
  when there is a parent, and no span is written.
\<close>

theorem close_span_restores_parent:
  "let h' = final (close_span self (Some s) h); p = sp_parent (spans h s) in
     raised (close_span self (Some s) h) = None \<and>
     get_current_span self h' = p \<and>
     span_id self h' = map_option (\<lambda>q. sp_span_id (spans h q)) p \<and>
     (case p of Some q \<Rightarrow> trace_id self h' = Some (sp_trace_id (spans h q)) | None \<Rightarrow> True) \<and>
     spans h' = spans h"
  by (simp add: Let_def ctx_defs heap_defs split: option.splits)

text \<open>
  C3. Closing the span that is the local root span, when that span has no
  parent, ends the trace locally: the context has no root span, no trace
  identifier, no current span and no active span identifier afterwards.
\<close>

theorem close_root_ends_trace:
  assumes "get_current_root_span self h = Some s" and "sp_parent (spans h s) = None"
  shows "let h' = final (close_span self (Some s) h) in
     get_current_root_span self h' = None \<and> trace_id self h' = None \<and>
     get_current_span self h' = None \<and> span_id self h' = None"
  using assms by (simp add: Let_def ctx_defs heap_defs split: option.splits)

theorem close_root_ends_trace_witness:
  "let h = final (add_span 0 (Some 0) ex_heap); h' = final (close_span 0 (Some 0) h) in
     get_current_root_span 0 h = Some 0 \<and> sp_parent (spans h 0) = None \<and>
     get_current_root_span 0 h' = None \<and> trace_id 0 h' = None \<and>
     get_current_span 0 h' = None \<and> span_id 0 h' = None"
proof -
  let ?h = "final (add_span 0 (Some 0) ex_heap)"
  have root: "get_current_root_span 0 ?h = Some 0" and par: "sp_parent (spans ?h 0) = None"
    by (simp_all add: ctx_defs heap_defs)
  from close_root_ends_trace [OF root par] root par show ?thesis
    by (simp add: Let_def)
qed

text \<open>
  C4. The two property setters store the value in the context and, when the
  context has a local root span, on that span: \<open>sampling_priority\<close> under
  the sampling-priority key of its \<open>metrics\<close>, \<open>dd_origin\<close> under the origin
  key of its \<open>meta\<close>. Without a root span they write no span.
\<close>

theorem setters_mirror:
  "let h' = set_sampling_priority self v h; h'' = set_dd_origin self d h in
     sampling_priority self h' = v \<and>
     (case get_current_root_span self h of
        Some root \<Rightarrow> sp_metrics (spans h' root) SAMPLING_PRIORITY_KEY = Some v
      | None \<Rightarrow> spans h' = spans h) \<and>
     dd_origin self h'' = d \<and>
     (case get_current_root_span self h of
        Some root \<Rightarrow> sp_meta (spans h'' root) ORIGIN_KEY = Some d
      | None \<Rightarrow> spans h'' = spans h)"
  by (simp add: Let_def ctx_defs heap_defs split: option.splits)

text \<open>
  C10. \<open>clone\<close> creates a context at a new address that carries the trace
  identifier, active span identifier, sampling priority and origin of the
  original and has neither a current span nor a local root span; it writes no
  span.
\<close>

theorem clone_copies:
  "case clone self h of (n, h') \<Rightarrow>
     n = next_ctx h \<and> next_ctx h' = Suc n \<and>
     trace_id n h' = trace_id self h \<and> span_id n h' = span_id self h \<and>
     sampling_priority n h' = sampling_priority self h \<and> dd_origin n h' = dd_origin self h \<and>
     get_current_span n h' = None \<and> get_current_root_span n h' = None \<and>
     spans h' = spans h"
  by (simp add: split_beta ctx_defs heap_defs)

text \<open>
  C12. \<open>add_span\<close> decides by the parent of the span. A span that has no
  parent becomes the local root span and receives the origin and the sampling
  priority the context holds: each one that is set is written under its key,
  each one that is \<open>None\<close> leaves the span's dictionary as it was. A span
  that has a parent leaves the local root span of the context and the \<open>meta\<close>
  and \<open>metrics\<close> of every span as they were.
\<close>

theorem add_span_by_parent:
  "let h' = final (add_span self (Some s) h) in
     case sp_parent (spans h s) of
       None \<Rightarrow>
         get_current_root_span self h' = Some s \<and>
         (case dd_origin self h of
            Some org \<Rightarrow> sp_meta (spans h' s) = (sp_meta (spans h s))(ORIGIN_KEY \<mapsto> Some org)
          | None \<Rightarrow> sp_meta (spans h' s) = sp_meta (spans h s)) \<and>
         (case sampling_priority self h of
            Some p \<Rightarrow>
              sp_metrics (spans h' s) = (sp_metrics (spans h s))(SAMPLING_PRIORITY_KEY \<mapsto> Some p)
          | None \<Rightarrow> sp_metrics (spans h' s) = sp_metrics (spans h s))
     | Some p \<Rightarrow>
         get_current_root_span self h' = get_current_root_span self h \<and>
         (\<forall>r. sp_meta (spans h' r) = sp_meta (spans h r) \<and>
              sp_metrics (spans h' r) = sp_metrics (spans h r))"
  by (simp add: Let_def ctx_defs heap_defs split: option.splits)

theorem add_span_by_parent_witness:
  "let h = set_sampling_priority 0 (Some 2) ex_heap;
       h' = final (add_span 0 (Some 0) h); h'' = final (add_span 0 (Some 1) h') in
     sp_parent (spans h 0) = None \<and> get_current_root_span 0 h' = Some 0 \<and>
     sp_metrics (spans h' 0) SAMPLING_PRIORITY_KEY = Some (Some 2) \<and>
     sp_meta (spans h' 0) ORIGIN_KEY = None \<and>
     sp_parent (spans h' 1) = Some 0 \<and> get_current_root_span 0 h'' = Some 0 \<and>
     sp_metrics (spans h'' 1) = sp_metrics (spans h' 1)"
proof -
  let ?h = "set_sampling_priority 0 (Some 2) ex_heap"
  let ?h' = "final (add_span 0 (Some 0) ?h)"
  have par: "sp_parent (spans ?h 0) = None" "sp_parent (spans ?h' 1) = Some 0"
    by (simp_all add: ctx_defs heap_defs)
  from add_span_by_parent [of 0 0 ?h] add_span_by_parent [of 0 1 ?h'] par show ?thesis
    by (simp add: Let_def ctx_defs heap_defs)
qed

text \<open>
  C16. \<open>close_span\<close> called with \<open>None\<close> raises \<open>AttributeError\<close>, but only after
  the comparison with the local root span: on a context without a root span
  the comparison succeeds and the trace identifier is gone when the exception
  leaves the method; on a context with a root span nothing is written.
\<close>

theorem close_span_None_raises:
  "let h' = final (close_span self None h) in
     raised (close_span self None h) = Some AttributeError \<and>
     get_current_span self h' = get_current_span self h \<and>
     span_id self h' = span_id self h \<and>
     (case get_current_root_span self h of
        None \<Rightarrow> trace_id self h' = None
      | Some root \<Rightarrow> h' = h)"
  by (auto simp: Let_def ctx_defs heap_defs split: option.splits)

text \<open>
  A context created with seed values reports them: \<open>trace_id\<close>, \<open>span_id\<close>,
  \<open>sampling_priority\<close> and \<open>dd_origin\<close> are the constructor's arguments, and
  there is neither a current span nor a root span.
\<close>

lemma new_context_reports_seed:
  "case alloc_ctx (init t s p d) h of (n, h') \<Rightarrow>
     trace_id n h' = t \<and> span_id n h' = s \<and>
     sampling_priority n h' = p \<and> dd_origin n h' = d \<and>
     get_current_span n h' = None \<and> get_current_root_span n h' = None"
  by (simp add: split_beta getter_defs)

end
