(* ===== verification/Context_Invariants.thy ===== *)
theory Context_Invariants
  imports Trace_Context
begin

text \<open>
  The calls that change a context, as events, the step function that
  dispatches them, and the invariants every step of a context keeps:

  \<^item> \<open>id_linked\<close>: while a span is active, \<open>_active_span_id\<close> is its identifier;
  \<^item> \<open>root_parentless\<close>: the local root span has no parent;
  \<^item> \<open>root_owned\<close>: the local root span's \<open>_context\<close> is this context;
  \<^item> \<open>mirrored\<close>: a sampling priority or origin that is set is the value under
    the corresponding key of the local root span's \<open>metrics\<close> or \<open>meta\<close>.

  They hold after a step that raises, too. \<open>trace_linked\<close> (while a span is
  active, \<open>_trace_id\<close> is its trace identifier) is kept by the steps that
  return, and \<open>ids_agree\<close> (the active identifier is absent exactly when the
  active span is) holds from the first \<open>add_span\<close> or \<open>close_span\<close> that returns.
\<close>

section \<open>The writes of the methods, as one collection\<close>

lemmas writes =
  set_current_span_ctxs add_span_ctxs add_span_context add_span_meta add_span_metrics
  close_span_ctxs close_span_None_ctxs
  set_sampling_priority_ctxs set_sampling_priority_spans
  set_dd_origin_ctxs set_dd_origin_spans clone_ctxs

section \<open>Events and steps\<close>

datatype event =
    AddSpan "span_ref option"
  | CloseSpan "span_ref option"
  | SetSamplingPriority "int option"
  | SetOrigin "string option"

fun step :: "ctx_ref \<Rightarrow> event \<Rightarrow> heap \<Rightarrow> heap result" where
  "step self (AddSpan span) h = add_span self span h"
| "step self (CloseSpan span) h = close_span self span h"
| "step self (SetSamplingPriority v) h = Inr (set_sampling_priority self v h)"
| "step self (SetOrigin v) h = Inr (set_dd_origin self v h)"

section \<open>Invariants\<close>

definition id_linked :: "ctx_ref \<Rightarrow> heap \<Rightarrow> bool" where
  [inv_defs]: "id_linked self h =
     (case c_active_span (ctxs h self) of
        None \<Rightarrow> True
      | Some s \<Rightarrow> c_active_span_id (ctxs h self) = Some (sp_span_id (spans h s)))"

definition trace_linked :: "ctx_ref \<Rightarrow> heap \<Rightarrow> bool" where
  [inv_defs]: "trace_linked self h =
     (case c_active_span (ctxs h self) of
        None \<Rightarrow> True
      | Some s \<Rightarrow> c_trace_id (ctxs h self) = Some (sp_trace_id (spans h s)))"

definition ids_agree :: "ctx_ref \<Rightarrow> heap \<Rightarrow> bool" where
  [inv_defs]: "ids_agree self h \<longleftrightarrow>
     (c_active_span_id (ctxs h self) = None \<longleftrightarrow> c_active_span (ctxs h self) = None)"

definition root_parentless :: "ctx_ref \<Rightarrow> heap \<Rightarrow> bool" where
  [inv_defs]: "root_parentless self h =
     (case c_local_root_span (ctxs h self) of
        None \<Rightarrow> True
      | Some r \<Rightarrow> sp_parent (spans h r) = None)"

definition root_owned :: "ctx_ref \<Rightarrow> heap \<Rightarrow> bool" where
  [inv_defs]: "root_owned self h =
     (case c_local_root_span (ctxs h self) of
        None \<Rightarrow> True
      | Some r \<Rightarrow> sp_context (spans h r) = Some self)"

definition mirrored :: "ctx_ref \<Rightarrow> heap \<Rightarrow> bool" where
  [inv_defs]: "mirrored self h =
     (case c_local_root_span (ctxs h self) of
        None \<Rightarrow> True
      | Some r \<Rightarrow>
          (case c_sampling_priority (ctxs h self) of
             None \<Rightarrow> True
           | Some p \<Rightarrow> sp_metrics (spans h r) SAMPLING_PRIORITY_KEY = Some (Some p)) \<and>
          (case c_dd_origin (ctxs h self) of
             None \<Rightarrow> True
           | Some org \<Rightarrow> sp_meta (spans h r) ORIGIN_KEY = Some (Some org)))"

definition ctx_inv :: "ctx_ref \<Rightarrow> heap \<Rightarrow> bool" where
  "ctx_inv self h \<longleftrightarrow>
     id_linked self h \<and> root_parentless self h \<and> root_owned self h \<and> mirrored self h"

lemma ctx_invI:
  "id_linked self h \<Longrightarrow> root_parentless self h \<Longrightarrow> root_owned self h \<Longrightarrow> mirrored self h
   \<Longrightarrow> ctx_inv self h"
  by (simp add: ctx_inv_def)

lemma ctx_invD:
  assumes "ctx_inv self h"
  shows "id_linked self h" and "root_parentless self h"
    and "root_owned self h" and "mirrored self h"
  using assms by (simp_all add: ctx_inv_def)

section \<open>A new context satisfies them\<close>

lemma init_inv:
  assumes "ctxs h self = init t s p d"
  shows "ctx_inv self h" and "trace_linked self h"
  using assms by (simp_all add: ctx_inv_def inv_defs)

lemma init_ids_agree: "ctxs h self = init t None p d \<Longrightarrow> ids_agree self h"
  by (simp add: ids_agree_def)

section \<open>\<open>add_span\<close> keeps them\<close>

lemma add_span_id_linked: "id_linked self h \<Longrightarrow> id_linked self (final (add_span self span h))"
  by (cases span) (simp_all add: id_linked_def add_span_ctxs)

lemma add_span_trace_linked: "trace_linked self (final (add_span self (Some s) h))"
  by (simp add: trace_linked_def add_span_ctxs)

lemma add_span_ids_agree: "ids_agree self (final (add_span self (Some s) h))"
  by (simp add: ids_agree_def add_span_ctxs)

lemma add_span_root_parentless:
  "root_parentless self h \<Longrightarrow> root_parentless self (final (add_span self span h))"
  by (cases span) (auto simp: root_parentless_def add_span_ctxs split: option.splits)

lemma add_span_root_owned:
  assumes "root_parentless self h" and "root_owned self h"
  shows "root_owned self (final (add_span self span h))"
  using assms
  by (cases span)
    (auto simp: root_parentless_def root_owned_def add_span_ctxs add_span_context
      split: option.splits)

lemma add_span_mirrored:
  assumes "root_parentless self h" and "mirrored self h"
  shows "mirrored self (final (add_span self span h))"
  using assms
  by (cases span)
    (auto simp: root_parentless_def mirrored_def add_span_ctxs add_span_meta add_span_metrics
      split: option.splits)

lemma add_span_inv: "ctx_inv self h \<Longrightarrow> ctx_inv self (final (add_span self span h))"
  by (simp add: ctx_inv_def
      add_span_id_linked add_span_root_parentless add_span_root_owned add_span_mirrored)

section \<open>\<open>close_span\<close> keeps them\<close>

lemma close_span_id_linked:
  "id_linked self h \<Longrightarrow> id_linked self (final (close_span self span h))"
  by (cases span)
    (auto simp: id_linked_def close_span_ctxs close_span_None_ctxs Let_def split: option.splits)

lemma close_span_trace_linked: "trace_linked self (final (close_span self (Some s) h))"
  by (auto simp: trace_linked_def close_span_ctxs Let_def split: option.splits)

lemma close_span_ids_agree: "ids_agree self (final (close_span self (Some s) h))"
  by (simp add: ids_agree_def close_span_ctxs Let_def)

lemma close_span_root_parentless:
  "root_parentless self h \<Longrightarrow> root_parentless self (final (close_span self span h))"
  by (cases span)
    (auto simp: root_parentless_def close_span_ctxs close_span_None_ctxs Let_def
      split: option.splits)

lemma close_span_root_owned:
  "root_owned self h \<Longrightarrow> root_owned self (final (close_span self span h))"
  by (cases span)
    (auto simp: root_owned_def close_span_ctxs close_span_None_ctxs Let_def
      split: option.splits)

lemma close_span_mirrored:
  "mirrored self h \<Longrightarrow> mirrored self (final (close_span self span h))"
  by (cases span)
    (auto simp: mirrored_def close_span_ctxs close_span_None_ctxs Let_def
      split: option.splits)

lemma close_span_inv: "ctx_inv self h \<Longrightarrow> ctx_inv self (final (close_span self span h))"
  by (simp add: ctx_inv_def
      close_span_id_linked close_span_root_parentless close_span_root_owned close_span_mirrored)

section \<open>The setters keep them\<close>

lemma set_sampling_priority_inv:
  "ctx_inv self h \<Longrightarrow> ctx_inv self (set_sampling_priority self v h)"
  by (auto simp: ctx_inv_def inv_defs set_sampling_priority_ctxs set_sampling_priority_spans
      set_metric_metrics split: option.splits)

lemma set_dd_origin_inv: "ctx_inv self h \<Longrightarrow> ctx_inv self (set_dd_origin self v h)"
  by (auto simp: ctx_inv_def inv_defs set_dd_origin_ctxs set_dd_origin_spans
      set_meta_meta split: option.splits)

lemma setters_trace_linked:
  assumes "trace_linked self h"
  shows "trace_linked self (set_sampling_priority self v h)"
    and "trace_linked self (set_dd_origin self w h)"
  using assms
  by (auto simp: trace_linked_def set_sampling_priority_ctxs set_sampling_priority_spans
      set_dd_origin_ctxs set_dd_origin_spans split: option.splits)

lemma setters_ids_agree:
  assumes "ids_agree self h"
  shows "ids_agree self (set_sampling_priority self v h)"
    and "ids_agree self (set_dd_origin self w h)"
  using assms
  by (simp_all add: ids_agree_def set_sampling_priority_ctxs set_dd_origin_ctxs)

section \<open>Frame of a step\<close>

lemma step_other_ctx [frame]: "c \<noteq> self \<Longrightarrow> ctxs (final (step self e h)) c = ctxs h c"
proof (cases e)
  case (AddSpan span)
  then show "c \<noteq> self \<Longrightarrow> ctxs (final (step self e h)) c = ctxs h c"
    by (cases span) (simp_all add: add_span_ctxs)
next
  case (CloseSpan span)
  then show "c \<noteq> self \<Longrightarrow> ctxs (final (step self e h)) c = ctxs h c"
    by (cases span) (simp_all add: close_span_ctxs close_span_None_ctxs)
qed (simp_all add: set_sampling_priority_ctxs set_dd_origin_ctxs)

lemma step_next_ctx [simp]: "next_ctx (final (step self e h)) = next_ctx h"
  by (cases e) simp_all

lemma step_shape [frame]: "same_shape (spans h) (spans (final (step self e h)))"
  by (cases e) (simp_all add: frame)

lemmas step_shape_simps [simp] = same_shapeD [OF step_shape]

text \<open>
  The two invariants that read only the identity of spans are insensitive to
  what another context does.
\<close>

lemma id_linked_cong:
  "ctxs h' c = ctxs h c \<Longrightarrow> same_shape (spans h) (spans h') \<Longrightarrow> id_linked c h' = id_linked c h"
  by (simp add: id_linked_def same_shapeD split: option.splits)

lemma root_parentless_cong:
  "ctxs h' c = ctxs h c \<Longrightarrow> same_shape (spans h) (spans h')
   \<Longrightarrow> root_parentless c h' = root_parentless c h"
  by (simp add: root_parentless_def same_shapeD split: option.splits)

section \<open>Every step keeps the invariant\<close>

lemmas method_inv = add_span_inv close_span_inv set_sampling_priority_inv set_dd_origin_inv

lemma step_inv: "ctx_inv self h \<Longrightarrow> ctx_inv self (final (step self e h))"
  by (cases e) (simp_all add: method_inv)

lemma run_shape [frame]: "same_shape (spans h) (spans (final (run (step self) es h)))"
  by (rule run_invariant [where I = "\<lambda>h'. same_shape (spans h) (spans h')"])
    (auto intro: same_shape_trans step_shape)

text \<open>
  C5. Every call on a context, whether it returns or raises, keeps the
  invariant of that context: the active identifier is the active span's, the
  local root span has no parent and points back to the context, and a
  sampling priority or origin that is set is mirrored on the root span.
\<close>

theorem step_keeps_inv: "ctx_inv self h \<Longrightarrow> ctx_inv self (final (step self e h))"
  by (rule step_inv)

theorem step_keeps_inv_witness:
  "ctx_inv 0 ex_heap \<and> ctx_inv 0 (final (step 0 (AddSpan (Some 0)) ex_heap)) \<and>
   get_current_root_span 0 (final (step 0 (AddSpan (Some 0)) ex_heap)) = Some 0"
proof -
  have "ctx_inv 0 ex_heap"
    by (rule init_inv) simp
  with step_keeps_inv [of 0 ex_heap "AddSpan (Some 0)"] show ?thesis
    by (simp add: getter_defs add_span_ctxs)
qed

text \<open>
  C6. The invariant holds in the state any sequence of calls on a context
  leaves, from any state in which it holds; it holds in particular for every
  sequence of calls on a newly created context.
\<close>

theorem run_keeps_inv: "ctx_inv self h \<Longrightarrow> ctx_inv self (final (run (step self) es h))"
  by (rule run_invariant [where I = "ctx_inv self"]) (rule step_inv)

theorem run_keeps_inv_witness:
  "ctx_inv 0 ex_heap \<and>
   ctx_inv 0 (final (run (step 0)
     [SetSamplingPriority (Some 2), AddSpan (Some 0), AddSpan (Some 1), CloseSpan (Some 1)]
     ex_heap))"
proof -
  have start: "ctx_inv 0 ex_heap"
    by (rule init_inv) simp
  from start run_keeps_inv [OF start] show ?thesis
    by blast
qed

section \<open>Which runs return\<close>

fun carries_span :: "event \<Rightarrow> bool" where
  "carries_span (AddSpan None) = False"
| "carries_span (CloseSpan None) = False"
| "carries_span e = True"

lemma step_returns_iff: "raised (step self e h) = None \<longleftrightarrow> carries_span e"
  by (cases e rule: carries_span.cases) simp_all

text \<open>
  C15. A sequence of calls returns exactly when none of its \<open>add_span\<close> and
  \<open>close_span\<close> calls is given \<open>None\<close>: no other call can raise, and such a call
  always raises.
\<close>

theorem run_returns_iff: "raised (run (step self) es h) = None \<longleftrightarrow> list_all carries_span es"
proof (induction es arbitrary: h)
  case Nil
  show ?case by simp
next
  case (Cons e es)
  show ?case
  proof (cases "carries_span e")
    case True
    then have "raised (step self e h) = None"
      by (simp add: step_returns_iff)
    then obtain h' where "step self e h = Inr h'"
      by (cases "step self e h") auto
    with True Cons.IH [of h'] show ?thesis by simp
  next
    case False
    then have "raised (step self e h) \<noteq> None"
      by (simp add: step_returns_iff)
    then obtain x where "step self e h = Inl x"
      by (cases "step self e h") auto
    with False show ?thesis by (cases x) simp
  qed
qed

section \<open>Clones are isolated\<close>

text \<open>
  C11. A clone of an existing context is another object: no call on the
  original changes an attribute of the clone, no call on the clone changes an
  attribute of the original, and the setters of the clone write no span, since
  the clone has no root span.
\<close>

theorem clone_isolated:
  assumes "self < next_ctx h"
  shows "case clone self h of (n, h1) \<Rightarrow>
     n \<noteq> self \<and> ctxs h1 self = ctxs h self \<and>
     ctxs (final (step self e h1)) n = ctxs h1 n \<and>
     ctxs (final (step n e' h1)) self = ctxs h1 self \<and>
     spans (set_sampling_priority n v h1) = spans h1 \<and>
     spans (set_dd_origin n w h1) = spans h1"
  using assms
  by (simp add: split_beta step_other_ctx clone_ctxs
      set_sampling_priority_spans set_dd_origin_spans)

theorem clone_isolated_witness:
  "(0::nat) < next_ctx ex_heap \<and>
   (case clone 0 ex_heap of (n, h1) \<Rightarrow>
      n \<noteq> 0 \<and>
      sampling_priority n (final (step 0 (SetSamplingPriority (Some 1)) h1)) = None \<and>
      sampling_priority 0 (final (step 0 (SetSamplingPriority (Some 1)) h1)) = Some 1)"
proof -
  have ex: "(0::nat) < next_ctx ex_heap"
    by simp
  from clone_isolated [OF ex, of "SetSamplingPriority (Some 1)"] ex show ?thesis
    by (simp add: split_beta getter_defs clone_ctxs set_sampling_priority_ctxs)
qed

section \<open>The trace identifier of the active span\<close>

lemma step_returns_trace_linked:
  assumes "trace_linked self h" and "raised (step self e h) = None"
  shows "trace_linked self (final (step self e h))"
  using assms
  by (cases e rule: carries_span.cases)
    (simp_all add: add_span_trace_linked close_span_trace_linked setters_trace_linked)

lemma run_trace_linked:
  "trace_linked self h \<Longrightarrow> raised (run (step self) es h) = None
   \<Longrightarrow> trace_linked self (final (run (step self) es h))"
proof (induction es arbitrary: h)
  case Nil
  then show ?case by simp
next
  case (Cons e es)
  from Cons.prems(2) obtain h1 where h1: "step self e h = Inr h1"
    by (cases "step self e h") auto
  with step_returns_trace_linked [OF Cons.prems(1), of e] have "trace_linked self h1" by simp
  with Cons.IH [of h1] Cons.prems(2) h1 show ?case by simp
qed

text \<open>
  C18. A call that returns keeps the trace identifier linked: while a span is
  active afterwards, \<open>trace_id\<close> is that span's trace identifier.
\<close>

theorem step_trace_linked:
  assumes "trace_linked self h" and "raised (step self e h) = None"
  shows "trace_linked self (final (step self e h))"
  using assms by (rule step_returns_trace_linked)

theorem step_trace_linked_witness:
  "trace_linked 0 ex_heap \<and> raised (step 0 (AddSpan (Some 1)) ex_heap) = None \<and>
   trace_linked 0 (final (step 0 (AddSpan (Some 1)) ex_heap)) \<and>
   trace_id 0 (final (step 0 (AddSpan (Some 1)) ex_heap)) = Some 42"
proof -
  have a: "trace_linked 0 ex_heap" and b: "raised (step 0 (AddSpan (Some 1)) ex_heap) = None"
    by (simp_all add: trace_linked_def)
  from step_trace_linked [OF a b] a b show ?thesis
    by (simp add: getter_defs add_span_ctxs)
qed

text \<open>
  A \<open>close_span\<close> that raises can leave a span active under no trace
  identifier: on a context whose only span was added as a child (so that
  there is no root span), \<open>close_span(None)\<close> clears the trace identifier and
  keeps the active span.
\<close>

lemma raising_close_unlinks_trace:
  "let h = final (add_span 0 (Some 1) ex_heap); h' = final (close_span 0 None h) in
     trace_linked 0 h \<and> raised (close_span 0 None h) = Some AttributeError \<and>
     get_current_span 0 h' = Some 1 \<and> trace_id 0 h' = None \<and> \<not> trace_linked 0 h'"
  by (simp add: Let_def trace_linked_def getter_defs add_span_ctxs close_span_None_ctxs)

section \<open>Agreement of the active span and its identifier\<close>

lemma close_span_None_ids_agree:
  "ids_agree self h \<Longrightarrow> ids_agree self (final (close_span self None h))"
  by (simp add: ids_agree_def close_span_None_ctxs)

lemma step_ids_agree:
  assumes "ids_agree self h"
  shows "ids_agree self (final (step self e h))"
proof (cases e)
  case (AddSpan span)
  with assms show ?thesis
    by (cases span) (simp_all add: add_span_ids_agree)
next
  case (CloseSpan span)
  with assms show ?thesis
    by (cases span) (simp_all add: close_span_ids_agree close_span_None_ids_agree)
qed (use assms in \<open>simp_all add: setters_ids_agree\<close>)

text \<open>
  C19. On a context created without a span identifier, after any sequence of
  calls the active span identifier is absent exactly when the active span is.
\<close>

theorem run_ids_agree:
  "case alloc_ctx (init t None p d) h of (n, h') \<Rightarrow>
     ids_agree n (final (run (step n) es h'))"
proof -
  have start: "ids_agree (next_ctx h) (snd (alloc_ctx (init t None p d) h))"
    by (rule init_ids_agree [of _ _ t p d]) simp
  have "ids_agree (next_ctx h)
      (final (run (step (next_ctx h)) es (snd (alloc_ctx (init t None p d) h))))"
    by (rule run_invariant [where I = "ids_agree (next_ctx h)", OF _ start])
      (rule step_ids_agree)
  then show ?thesis by (simp add: split_beta)
qed

text \<open>
  C20. A context created with a trace identifier and a span identifier
  reports both and has no active span: active identifier and active span do
  not agree until the first \<open>add_span\<close> or \<open>close_span\<close> that returns.
\<close>

theorem seeded_ids_disagree:
  "case alloc_ctx (init t (Some s) p d) h of (n, h') \<Rightarrow>
     trace_id n h' = t \<and> span_id n h' = Some s \<and> get_current_span n h' = None \<and>
     get_current_root_span n h' = None \<and> \<not> ids_agree n h' \<and>
     ids_agree n (final (add_span n (Some r) h')) \<and>
     ids_agree n (final (close_span n (Some r) h'))"
  by (simp add: split_beta getter_defs ids_agree_def add_span_ctxs close_span_ctxs Let_def)

section \<open>Runs of calls that return\<close>

text \<open>
  A call with a span returns, and so do the setters: a run that starts with
  one continues from the state the call leaves.
\<close>

lemma run_AddSpan [simp]:
  "run (step self) (AddSpan (Some s) # es) h = run (step self) es (final (add_span self (Some s) h))"
proof -
  have "step self (AddSpan (Some s)) h = Inr (final (add_span self (Some s) h))"
    by (simp only: step.simps) (rule add_span_Inr)
  then show ?thesis by (simp only: run.simps sum.case)
qed

lemma run_CloseSpan [simp]:
  "run (step self) (CloseSpan (Some s) # es) h =
     run (step self) es (final (close_span self (Some s) h))"
proof -
  have "step self (CloseSpan (Some s)) h = Inr (final (close_span self (Some s) h))"
    by (simp only: step.simps) (rule close_span_Inr)
  then show ?thesis by (simp only: run.simps sum.case)
qed

lemma run_SetSamplingPriority [simp]:
  "run (step self) (SetSamplingPriority v # es) h =
     run (step self) es (set_sampling_priority self v h)"
  by simp

lemma run_SetOrigin [simp]:
  "run (step self) (SetOrigin v # es) h = run (step self) es (set_dd_origin self v h)"
  by simp

end
