(* ===== verification/Span_Stack.thy ===== *)
theory Span_Stack
  imports Context_Invariants
begin

text \<open>
  What the context promises a caller that opens and closes spans in a
  well-nested way: it behaves as a stack of open spans. The abstract machine
  below keeps that stack and accepts exactly the disciplined calls (a span is
  added as a child of the innermost open span, and the innermost open span is
  the one closed). The refinement relation \<open>stack_rel\<close> says that the stack is
  the chain of ancestors of the context's active span and that the local root
  span is its bottom. Every accepted call is simulated by the method of the
  class, so after any accepted sequence \<open>get_current_span\<close> is the top of the
  stack and \<open>get_current_root_span\<close> its bottom.

  The class checks none of this: a call the abstract machine rejects still
  runs, and what it does then is stated by the theorems of \<open>Trace_Context\<close>.
\<close>

section \<open>The abstract machine\<close>

type_synonym stack = "span_ref list"

fun top_of :: "'a list \<Rightarrow> 'a option" where
  "top_of [] = None"
| "top_of (a # as) = Some a"

fun bottom_of :: "'a list \<Rightarrow> 'a option" where
  "bottom_of [] = None"
| "bottom_of (a # as) = Some (last (a # as))"

fun astep :: "(span_ref \<Rightarrow> span_ref option) \<Rightarrow> event \<Rightarrow> stack \<Rightarrow> stack option" where
  "astep par (AddSpan (Some s)) st = (if par s = top_of st then Some (s # st) else None)"
| "astep par (CloseSpan (Some s)) st = (if top_of st = Some s then Some (tl st) else None)"
| "astep par (AddSpan None) st = None"
| "astep par (CloseSpan None) st = None"
| "astep par (SetSamplingPriority v) st = Some st"
| "astep par (SetOrigin v) st = Some st"

fun arun :: "(span_ref \<Rightarrow> span_ref option) \<Rightarrow> event list \<Rightarrow> stack \<Rightarrow> stack option" where
  "arun par [] st = Some st"
| "arun par (e # es) st = (case astep par e st of None \<Rightarrow> None | Some st' \<Rightarrow> arun par es st')"

text \<open>What an accepted \<open>add_span\<close> or \<open>close_span\<close> was given.\<close>

fun_cases astep_AddSpanE: "astep par (AddSpan span) st = Some st'"
fun_cases astep_CloseSpanE: "astep par (CloseSpan span) st = Some st'"

lemma top_eq_Some: "top_of st = Some s \<longleftrightarrow> (\<exists>rest. st = s # rest)"
  by (cases st) auto

lemma top_eq_None [simp]: "top_of st = None \<longleftrightarrow> st = []"
  by (cases st) auto

lemma bottom_eq_None [simp]: "bottom_of st = None \<longleftrightarrow> st = []"
  by (cases st) auto

lemma bottom_Cons: "bottom_of (a # as) = (if as = [] then Some a else bottom_of as)"
  by (cases as) auto

lemma chain_top: "chain nxt x as \<Longrightarrow> top_of as = x"
  by (cases as) auto

lemma arun_append:
  "arun par (es @ fs) st = (case arun par es st of None \<Rightarrow> None | Some st' \<Rightarrow> arun par fs st')"
  by (induction es arbitrary: st) (auto split: option.splits)

text \<open>The abstract machine accepts no call that raises.\<close>

lemma astep_carries_span: "astep par e st = Some st' \<Longrightarrow> carries_span e"
  by (cases e rule: carries_span.cases) simp_all

section \<open>The refinement relation\<close>

definition stack_rel :: "ctx_ref \<Rightarrow> stack \<Rightarrow> heap \<Rightarrow> bool" where
  "stack_rel self st h \<longleftrightarrow>
     ancestry (spans h) (c_active_span (ctxs h self)) st \<and>
     c_local_root_span (ctxs h self) = bottom_of st"

lemma stack_relD:
  assumes "stack_rel self st h"
  shows "ancestry (spans h) (c_active_span (ctxs h self)) st"
    and "c_active_span (ctxs h self) = top_of st"
    and "c_local_root_span (ctxs h self) = bottom_of st"
  using assms by (auto simp: stack_rel_def dest: chain_top)

text \<open>A context with no active span and no root span stands for the empty stack.\<close>

lemma stack_rel_empty:
  "c_active_span (ctxs h self) = None \<Longrightarrow> c_local_root_span (ctxs h self) = None
   \<Longrightarrow> stack_rel self [] h"
  by (simp add: stack_rel_def)

lemma stack_rel_init: "ctxs h self = init t s p d \<Longrightarrow> stack_rel self [] h"
  by (simp add: stack_rel_empty)

section \<open>Simulation of the single calls\<close>

lemma push_simulated:
  assumes rel: "stack_rel self st h" and par: "sp_parent (spans h s) = top_of st"
  shows "stack_rel self (s # st) (final (add_span self (Some s) h))"
proof -
  let ?h' = "final (add_span self (Some s) h)"
  have shape: "same_shape (spans h) (spans ?h')"
    by (rule add_span_shape)
  from par stack_relD(1,2) [OF rel] have "ancestry (spans h) (Some s) (s # st)"
    by simp
  then have anc: "ancestry (spans ?h') (c_active_span (ctxs ?h' self)) (s # st)"
    by (simp add: same_shape_ancestry [OF shape] add_span_ctxs)
  from par stack_relD(3) [OF rel] have "c_local_root_span (ctxs ?h' self) = bottom_of (s # st)"
    by (cases st) (simp_all add: add_span_ctxs)
  with anc show ?thesis by (simp add: stack_rel_def)
qed

lemma pop_simulated:
  assumes rel: "stack_rel self (s # st) h"
  shows "stack_rel self st (final (close_span self (Some s) h))"
proof -
  let ?h' = "final (close_span self (Some s) h)"
  from stack_relD(1,2) [OF rel] have anc: "ancestry (spans h) (Some s) (s # st)"
    by simp
  then have rest: "ancestry (spans h) (sp_parent (spans h s)) st" by simp
  then have active: "ancestry (spans ?h') (c_active_span (ctxs ?h' self)) st"
    by (simp add: close_span_ctxs Let_def)
  from anc have "distinct (s # st)" by (rule chain_distinct)
  then have "st \<noteq> [] \<Longrightarrow> last st \<noteq> s" by (metis distinct.simps(2) last_in_set)
  with stack_relD(3) [OF rel] have "c_local_root_span (ctxs ?h' self) = bottom_of st"
    by (cases st) (auto simp: close_span_ctxs Let_def)
  with active show ?thesis by (simp add: stack_rel_def)
qed

lemma setters_simulated:
  assumes "stack_rel self st h"
  shows "stack_rel self st (set_sampling_priority self v h)"
    and "stack_rel self st (set_dd_origin self w h)"
  using assms
  by (simp_all add: stack_rel_def set_sampling_priority_ctxs set_dd_origin_ctxs
      same_shape_ancestry [OF set_sampling_priority_shape]
      same_shape_ancestry [OF set_dd_origin_shape])

lemma astep_simulated:
  assumes rel: "stack_rel self st h"
    and acc: "astep (parent_of (spans h)) e st = Some st'"
  shows "raised (step self e h) = None \<and> stack_rel self st' (final (step self e h))"
proof (cases e)
  case (AddSpan span)
  with acc rel show ?thesis
    by (auto elim!: astep_AddSpanE simp: push_simulated split: if_splits)
next
  case (CloseSpan span)
  with acc rel show ?thesis
    by (cases st) (auto elim!: astep_CloseSpanE simp: pop_simulated split: if_splits)
qed (use rel acc in \<open>simp_all add: setters_simulated\<close>)

lemma arun_simulated:
  assumes "stack_rel self st h" and "arun (parent_of (spans h)) es st = Some st'"
  shows "raised (run (step self) es h) = None \<and>
     stack_rel self st' (final (run (step self) es h))"
  using assms
proof (induction es arbitrary: st h)
  case Nil
  then show ?case by simp
next
  case (Cons e es)
  from Cons.prems(2) obtain st1 where
    acc: "astep (parent_of (spans h)) e st = Some st1" and
    rest: "arun (parent_of (spans h)) es st1 = Some st'"
    by (auto split: option.splits)
  from astep_simulated [OF Cons.prems(1) acc] obtain h1 where
    h1: "step self e h = Inr h1" and rel1: "stack_rel self st1 h1"
    by (cases "step self e h") auto
  from h1 have "same_shape (spans h) (spans h1)"
    using step_shape [of h self e] by simp
  with rest have "arun (parent_of (spans h1)) es st1 = Some st'"
    by (simp add: same_shape_parent_of)
  from Cons.IH [OF rel1 this] h1 show ?case by simp
qed

section \<open>The context refines the stack\<close>

text \<open>
  C7. Every call the stack machine accepts is simulated by the class: the
  call returns, and the state it leaves stands for the stack the machine
  leaves (the active span and its ancestors are the stack, the local root
  span is the bottom of the stack).
\<close>

theorem step_simulates_stack:
  assumes rel: "stack_rel self st h"
    and acc: "astep (parent_of (spans h)) e st = Some st'"
  shows "raised (step self e h) = None \<and> stack_rel self st' (final (step self e h))"
  using rel acc by (rule astep_simulated)

theorem step_simulates_stack_witness:
  "stack_rel 0 [] ex_heap \<and> astep (parent_of (spans ex_heap)) (AddSpan (Some 0)) [] = Some [0] \<and>
   raised (step 0 (AddSpan (Some 0)) ex_heap) = None \<and>
   stack_rel 0 [0] (final (step 0 (AddSpan (Some 0)) ex_heap))"
proof -
  have rel: "stack_rel 0 [] ex_heap"
    by (rule stack_rel_init) simp
  have acc: "astep (parent_of (spans ex_heap)) (AddSpan (Some 0)) [] = Some [0]"
    by simp
  from step_simulates_stack [OF rel acc] rel acc show ?thesis
    by blast
qed

text \<open>
  C8. After any sequence of calls the stack machine accepts, the sequence
  has returned, \<open>get_current_span\<close> is the top of the stack the machine has
  reached and \<open>get_current_root_span\<close> is its bottom.
\<close>

theorem run_simulates_stack:
  assumes "stack_rel self st h" and "arun (parent_of (spans h)) es st = Some st'"
  shows "let r = run (step self) es h in
     raised r = None \<and> stack_rel self st' (final r) \<and>
     get_current_span self (final r) = top_of st' \<and>
     get_current_root_span self (final r) = bottom_of st'"
proof -
  from arun_simulated [OF assms]
  have ret: "raised (run (step self) es h) = None"
    and rel: "stack_rel self st' (final (run (step self) es h))"
    by simp_all
  from ret rel stack_relD(2,3) [OF rel] show ?thesis
    by (simp add: Let_def getter_defs)
qed

theorem run_simulates_stack_witness:
  "let es = [AddSpan (Some 0), SetOrigin (Some ''synthetics''), AddSpan (Some 1),
             AddSpan (Some 2), CloseSpan (Some 2), CloseSpan (Some 1)];
       r = run (step 0) es ex_heap in
     stack_rel 0 [] ex_heap \<and> arun (parent_of (spans ex_heap)) es [] = Some [0] \<and>
     raised r = None \<and> get_current_span 0 (final r) = Some 0 \<and>
     get_current_root_span 0 (final r) = Some 0"
proof -
  let ?es = "[AddSpan (Some 0), SetOrigin (Some ''synthetics''), AddSpan (Some 1),
              AddSpan (Some 2), CloseSpan (Some 2), CloseSpan (Some 1)]"
  have rel: "stack_rel 0 [] ex_heap"
    by (rule stack_rel_init) simp
  have acc: "arun (parent_of (spans ex_heap)) ?es [] = Some [0]"
    by (simp add: numeral_2_eq_2)
  from run_simulates_stack [OF rel acc] rel acc show ?thesis
    by (simp only: Let_def top_of.simps bottom_of.simps last.simps if_True simp_thms)
qed

section \<open>Opening and closing a child span\<close>

text \<open>
  C9. Adding a child of the current span and closing it again restores every
  attribute of the context, provided the context satisfied its invariant and
  its trace identifier was the current span's; the only trace of the pair of
  calls in the store is the child's \<open>_context\<close>.
\<close>

theorem add_close_roundtrip:
  assumes inv: "ctx_inv self h" and tl: "trace_linked self h"
    and cur: "get_current_span self h = Some p"
    and par: "sp_parent (spans h s) = Some p"
  shows "let h' = final (close_span self (Some s) (final (add_span self (Some s) h))) in
     ctxs h' = ctxs h \<and> spans h' = set_context s self (spans h) \<and> next_ctx h' = next_ctx h"
proof -
  let ?h1 = "final (add_span self (Some s) h)"
  let ?h2 = "final (close_span self (Some s) ?h1)"
  from inv par have not_root: "c_local_root_span (ctxs h self) \<noteq> Some s"
    by (auto simp: ctx_inv_def root_parentless_def)
  from inv cur have id: "c_active_span_id (ctxs h self) = Some (sp_span_id (spans h p))"
    by (simp add: ctx_inv_def id_linked_def getter_defs)
  from tl cur have tr: "c_trace_id (ctxs h self) = Some (sp_trace_id (spans h p))"
    by (simp add: trace_linked_def getter_defs)
  from cur have act: "c_active_span (ctxs h self) = Some p"
    by (simp add: getter_defs)
  have "ctxs ?h2 c = ctxs h c" for c
    using not_root id tr act par
    by (simp add: close_span_ctxs add_span_ctxs Let_def)
  then have ctxs: "ctxs ?h2 = ctxs h" by (rule ext)
  have "spans ?h1 = set_context s self (spans h)"
    using par by (simp add: add_span_def Let_def)
  with ctxs show ?thesis by (simp add: Let_def)
qed

theorem add_close_roundtrip_witness:
  "let h = final (add_span 0 (Some 0) ex_heap);
       h' = final (close_span 0 (Some 1) (final (add_span 0 (Some 1) h))) in
     ctx_inv 0 h \<and> trace_linked 0 h \<and> get_current_span 0 h = Some 0 \<and>
     sp_parent (spans h 1) = Some 0 \<and>
     ctxs h' = ctxs h \<and> spans h' = set_context 1 0 (spans h) \<and> next_ctx h' = next_ctx h"
proof -
  let ?h = "final (add_span 0 (Some 0) ex_heap)"
  have "ctx_inv 0 ex_heap"
    by (rule init_inv) simp
  then have inv: "ctx_inv 0 ?h"
    by (rule add_span_inv)
  have tl: "trace_linked 0 ?h"
    by (rule add_span_trace_linked)
  have cur: "get_current_span 0 ?h = Some 0" and par: "sp_parent (spans ?h 1) = Some 0"
    by (simp_all add: getter_defs add_span_ctxs)
  from add_close_roundtrip [OF inv tl cur par] inv tl cur par show ?thesis
    by (simp only: Let_def simp_thms)
qed

section \<open>The stack, computed\<close>

text \<open>
  \<open>open_spans n self h\<close> walks from the current span of the context along the
  parent links, at most \<open>n\<close> links far, and returns the spans met; it is the
  abstraction function of the refinement, where the fuel suffices.
\<close>

definition open_spans :: "nat \<Rightarrow> ctx_ref \<Rightarrow> heap \<Rightarrow> stack option" where
  "open_spans n self h = walk n (parent_of (spans h)) (get_current_span self h)"

lemma open_spans_stack_rel:
  "stack_rel self st h \<Longrightarrow> length st \<le> n \<Longrightarrow> open_spans n self h = Some st"
  by (simp add: open_spans_def getter_defs chain_walk stack_relD(1))



end
