(* ===== verification/Well_Nested.thy ===== *)
theory Well_Nested
  imports Span_Stack
begin

text \<open>
  The sequences of calls a block-structured caller makes, as a grammar
  (\<open>balanced\<close>) and as a checker that carries the spans still to be closed
  (\<open>nested\<close>), with the proof that the two agree. A balanced sequence that
  the stack machine of \<open>Span_Stack\<close> accepts leaves the context as it found
  it.
\<close>

section \<open>Well-nested sequences of calls\<close>

text \<open>
  Every span that is added is closed again, after the spans added inside it,
  and the setters may be called anywhere. This is the discipline of the
  \<open>with\<close> blocks that open a span and close it on exit.
\<close>

fun is_setter :: "event \<Rightarrow> bool" where
  "is_setter (SetSamplingPriority v) \<longleftrightarrow> True"
| "is_setter (SetOrigin v) \<longleftrightarrow> True"
| "is_setter (AddSpan span) \<longleftrightarrow> False"
| "is_setter (CloseSpan span) \<longleftrightarrow> False"

inductive balanced :: "event list \<Rightarrow> bool" where
  empty: "balanced []"
| setter: "balanced es \<Longrightarrow> is_setter e \<Longrightarrow> balanced (e # es)"
| nest: "balanced es \<Longrightarrow> balanced fs
     \<Longrightarrow> balanced (AddSpan (Some s) # es @ CloseSpan (Some s) # fs)"

text \<open>
  The checker reads the sequence from the left with the list of the spans
  that are open, innermost first; the sequence is well nested when every
  \<open>close_span\<close> names the innermost open span and none is left open.
\<close>

fun nested :: "stack \<Rightarrow> event list \<Rightarrow> bool" where
  "nested st [] \<longleftrightarrow> st = []"
| "nested st (AddSpan (Some s) # es) \<longleftrightarrow> nested (s # st) es"
| "nested st (CloseSpan (Some s) # es) \<longleftrightarrow>
     (case st of [] \<Rightarrow> False | t # st' \<Rightarrow> t = s \<and> nested st' es)"
| "nested st (AddSpan None # es) \<longleftrightarrow> False"
| "nested st (CloseSpan None # es) \<longleftrightarrow> False"
| "nested st (SetSamplingPriority v # es) \<longleftrightarrow> nested st es"
| "nested st (SetOrigin v # es) \<longleftrightarrow> nested st es"

abbreviation opens :: "stack \<Rightarrow> event list" where
  "opens st \<equiv> map (\<lambda>s. AddSpan (Some s)) (rev st)"

lemma nested_setter [simp]: "is_setter e \<Longrightarrow> nested st (e # es) = nested st es"
  by (cases e) simp_all

section \<open>The grammar and the checker agree\<close>

lemma balanced_append: "balanced es \<Longrightarrow> balanced fs \<Longrightarrow> balanced (es @ fs)"
  by (induction rule: balanced.induct) (auto intro: balanced.intros)

text \<open>A balanced sequence may be put anywhere into a balanced sequence.\<close>

lemma balanced_insert:
  assumes "balanced w" and x: "balanced x" and "w = u @ v"
  shows "balanced (u @ x @ v)"
  using assms(1,3)
proof (induction arbitrary: u v rule: balanced.induct)
  case empty
  with x show ?case by simp
next
  case (setter es e)
  show ?case
  proof (cases u)
    case Nil
    with setter.prems setter.hyps x show ?thesis
      by (auto intro: balanced_append balanced.setter)
  next
    case (Cons a u')
    with setter.prems setter.IH [of u' v] setter.hyps(2) show ?thesis
      by (auto intro: balanced.setter)
  qed
next
  case (nest es fs s)
  show ?case
  proof (cases u)
    case Nil
    with nest.prems nest.hyps x show ?thesis
      by (auto intro: balanced_append balanced.nest)
  next
    case (Cons a u')
    with nest.prems have a: "a = AddSpan (Some s)"
      and eq: "es @ CloseSpan (Some s) # fs = u' @ v" by simp_all
    from eq show ?thesis
    proof (cases rule: append_Cons_eq_append_cases)
      case (before ws)
      from nest.IH(1) [OF before(1)] nest.hyps(2)
      have "balanced (AddSpan (Some s) # (u' @ x @ ws) @ CloseSpan (Some s) # fs)"
        by (rule balanced.nest)
      with Cons a before show ?thesis by simp
    next
      case (after ws)
      from nest.hyps(1) nest.IH(2) [OF after(2)]
      have "balanced (AddSpan (Some s) # es @ CloseSpan (Some s) # ws @ x @ v)"
        by (rule balanced.nest)
      with Cons a after show ?thesis by simp
    qed
  qed
qed

lemma nested_balanced_append:
  "balanced es \<Longrightarrow> nested st (es @ fs) = nested st fs"
  by (induction arbitrary: st fs rule: balanced.induct) simp_all

lemma balanced_imp_nested: "balanced es \<Longrightarrow> nested [] es"
  using nested_balanced_append [of es "[]" "[]"] by simp

lemma nested_opens: "nested acc (opens st @ es) = nested (st @ acc) es"
  by (induction st arbitrary: es) simp_all

lemma nested_imp_balanced: "nested st es \<Longrightarrow> balanced (opens st @ es)"
proof (induction st es rule: nested.induct)
  case (1 st)
  then show ?case by (simp add: balanced.empty)
next
  case (3 st s es)
  then obtain st' where st: "st = s # st'" and "nested st' es"
    by (auto split: list.splits)
  with "3.IH" have "balanced (opens st' @ es)" by simp
  moreover have "balanced [AddSpan (Some s), CloseSpan (Some s)]"
    using balanced.nest [OF balanced.empty balanced.empty, of s] by simp
  ultimately have "balanced (opens st' @ [AddSpan (Some s), CloseSpan (Some s)] @ es)"
    by (rule balanced_insert) simp
  with st show ?case by simp
next
  case (6 st v es)
  then have "balanced (opens st @ es)" by simp
  moreover have "balanced [SetSamplingPriority v]"
    by (simp add: balanced.intros)
  ultimately have "balanced (opens st @ [SetSamplingPriority v] @ es)"
    by (rule balanced_insert) simp
  then show ?case by simp
next
  case (7 st v es)
  then have "balanced (opens st @ es)" by simp
  moreover have "balanced [SetOrigin v]"
    by (simp add: balanced.intros)
  ultimately have "balanced (opens st @ [SetOrigin v] @ es)"
    by (rule balanced_insert) simp
  then show ?case by simp
qed simp_all

text \<open>A well-nested sequence gives no call the argument \<open>None\<close>.\<close>

lemma nested_carries_span: "nested st es \<Longrightarrow> list_all carries_span es"
  by (induction st es rule: nested.induct) (auto split: list.splits)

lemma nested_run_returns: "nested st es \<Longrightarrow> raised (run (step self) es h) = None"
  by (rule run_returns) (auto dest!: nested_carries_span simp: step_returns_iff list_all_iff)



text \<open>
  What the stack machine accepts from the empty stack back to the empty
  stack is well nested; the machine checks the parent links in addition.
\<close>

lemma arun_nested: "arun par es st = Some [] \<Longrightarrow> nested st es"
proof (induction st es rule: nested.induct)
  case (3 st s es)
  then show ?case by (cases st) (auto split: if_splits)
qed (auto split: if_splits)

section \<open>A balanced sequence restores the context\<close>

lemmas balanced_block = balanced.nest [OF _ balanced.empty]

lemma arun_balanced:
  "balanced es \<Longrightarrow> arun par es st = Some st' \<Longrightarrow> st' = st"
proof (induction arbitrary: st st' rule: balanced.induct)
  case empty
  then show ?case by simp
next
  case (setter es e)
  then show ?case by (cases e) (auto split: option.splits)
next
  case (nest es fs s)
  from nest.prems obtain st1 st2 st3 where
    a: "astep par (AddSpan (Some s)) st = Some st1" and
    b: "arun par es st1 = Some st2" and
    c: "astep par (CloseSpan (Some s)) st2 = Some st3" and
    d: "arun par fs st3 = Some st'"
    by (auto simp: arun_append split: option.splits)
  from a have "st1 = s # st" by (simp split: if_splits)
  moreover from nest.IH(1) [OF b] have "st2 = st1" .
  ultimately have "st3 = st" using c by (simp split: if_splits)
  with nest.IH(2) [OF d] show ?case by simp
qed

lemma balanced_run_rel:
  assumes rel: "stack_rel self st h" and bal: "balanced es"
    and acc: "arun (parent_of (spans h)) es st = Some st'"
  shows "raised (run (step self) es h) = None"
    and "stack_rel self st (final (run (step self) es h))"
proof -
  from bal acc have "st' = st" by (rule arun_balanced)
  with arun_simulated [OF rel acc]
  show "raised (run (step self) es h) = None"
    and "stack_rel self st (final (run (step self) es h))"
    by simp_all
qed

text \<open>
  C30. A well-nested sequence of calls that the stack machine accepts returns
  and leaves the context where it found it: the same current span, the same
  local root span, standing for the same stack.
\<close>

theorem balanced_run_restores:
  assumes rel: "stack_rel self st h" and bal: "balanced es"
    and acc: "arun (parent_of (spans h)) es st = Some st'"
  shows "let r = run (step self) es h in
     raised r = None \<and> stack_rel self st (final r) \<and>
     get_current_span self (final r) = get_current_span self h \<and>
     get_current_root_span self (final r) = get_current_root_span self h"
proof -
  note after = balanced_run_rel [OF rel bal acc]
  from after stack_relD(2,3) [OF after(2)] stack_relD(2,3) [OF rel] show ?thesis
    by (simp add: Let_def getter_defs)
qed

theorem balanced_run_restores_witness:
  "let es = [AddSpan (Some 0), AddSpan (Some 1), CloseSpan (Some 1), CloseSpan (Some 0)];
       r = run (step 0) es ex_heap in
     stack_rel 0 [] ex_heap \<and> balanced es \<and>
     arun (parent_of (spans ex_heap)) es [] = Some [] \<and>
     raised r = None \<and> get_current_span 0 (final r) = None \<and>
     get_current_root_span 0 (final r) = None"
proof -
  let ?es = "[AddSpan (Some 0), AddSpan (Some 1), CloseSpan (Some 1), CloseSpan (Some 0)]"
  have rel: "stack_rel 0 [] ex_heap"
    by (rule stack_rel_init) simp
  have "balanced [AddSpan (Some 1), CloseSpan (Some 1)]"
    using balanced_block [OF balanced.empty, of 1] by simp
  then have bal: "balanced ?es"
    using balanced_block [of "[AddSpan (Some 1), CloseSpan (Some 1)]" 0] by simp
  have acc: "arun (parent_of (spans ex_heap)) ?es [] = Some []"
    by simp
  have "get_current_span 0 ex_heap = None" and "get_current_root_span 0 ex_heap = None"
    by (simp_all add: getter_defs)
  with balanced_run_restores [OF rel bal acc] rel bal acc show ?thesis
    by (simp only: Let_def simp_thms)
qed

text \<open>
  C31. Where the context satisfies its invariant, has a current span and
  reports that span's trace identifier, a well-nested sequence of calls that
  the stack machine accepts also restores the two identifiers the context
  reports, \<open>span_id\<close> and \<open>trace_id\<close>.
\<close>

theorem balanced_run_restores_ids:
  assumes rel: "stack_rel self st h" and bal: "balanced es"
    and acc: "arun (parent_of (spans h)) es st = Some st'"
    and inv: "ctx_inv self h" and tl: "trace_linked self h"
    and cur: "get_current_span self h = Some p"
  shows "let r = run (step self) es h in
     span_id self (final r) = span_id self h \<and> trace_id self (final r) = trace_id self h"
proof -
  let ?h' = "final (run (step self) es h)"
  note after = balanced_run_rel [OF rel bal acc]
  from stack_relD(2) [OF after(2)] stack_relD(2) [OF rel] cur
  have cur': "get_current_span self ?h' = Some p"
    by (simp add: getter_defs)
  have "ctx_inv self ?h'"
    by (rule run_invariant [where I = "ctx_inv self"]) (erule step_inv, rule inv)
  then have "id_linked self ?h'"
    by (simp add: ctx_inv_def)
  moreover have "trace_linked self ?h'"
    using tl after(1) by (rule run_trace_linked)
  moreover have "id_linked self h"
    using inv by (simp add: ctx_inv_def)
  ultimately show ?thesis
    using tl cur cur' same_shapeD [OF run_shape [of h self es]]
    by (simp add: Let_def id_linked_def trace_linked_def getter_defs)
qed

theorem balanced_run_restores_ids_witness:
  "let h = final (add_span 0 (Some 0) ex_heap);
       es = [AddSpan (Some 1), SetSamplingPriority (Some 2), CloseSpan (Some 1)];
       r = run (step 0) es h in
     stack_rel 0 [0] h \<and> balanced es \<and> arun (parent_of (spans h)) es [0] = Some [0] \<and>
     ctx_inv 0 h \<and> trace_linked 0 h \<and> get_current_span 0 h = Some 0 \<and>
     span_id 0 (final r) = Some 1 \<and> trace_id 0 (final r) = Some 42"
proof -
  let ?h = "final (add_span 0 (Some 0) ex_heap)"
  let ?es = "[AddSpan (Some 1), SetSamplingPriority (Some 2), CloseSpan (Some 1)]"
  have rel0: "stack_rel 0 [] ex_heap"
    by (rule stack_rel_init) simp
  have "astep (parent_of (spans ex_heap)) (AddSpan (Some 0)) [] = Some [0]"
    by simp
  from astep_simulated [OF rel0 this] have rel: "stack_rel 0 [0] ?h"
    by simp
  have "balanced [SetSamplingPriority (Some 2)]"
    by (rule balanced.setter) (simp_all add: balanced.empty)
  then have bal: "balanced ?es"
    using balanced_block [of "[SetSamplingPriority (Some 2)]" 1] by simp
  have acc: "arun (parent_of (spans ?h)) ?es [0] = Some [0]"
    by simp
  have "ctx_inv 0 ex_heap"
    by (rule init_inv) simp
  then have inv: "ctx_inv 0 ?h"
    by (rule add_span_inv)
  have tl: "trace_linked 0 ?h"
    by (rule add_span_trace_linked)
  have cur: "get_current_span 0 ?h = Some 0"
    by (simp add: getter_defs add_span_ctxs)
  have "span_id 0 ?h = Some 1" and "trace_id 0 ?h = Some 42"
    by (simp_all add: getter_defs add_span_ctxs)
  with balanced_run_restores_ids [OF rel bal acc inv tl cur] rel bal acc inv tl cur
  show ?thesis
    by (simp only: Let_def simp_thms)
qed

end
