(* ===== verification/Trace_Lifetime.thy ===== *)
theory Trace_Lifetime
  imports Span_Stack "HOL-Library.While_Combinator"
begin

text \<open>
  The open spans of a context over the life of a trace, on the stores a
  tracer builds: a span is created after its parent and carries its parent's
  trace identifier. On such stores the walk from the current span along the
  parent links ends, the number of open spans is bounded by the address of
  the current span, every open span belongs to the trace the context
  reports, and closing the open spans, innermost first, ends the trace; the
  loop that closes the current span until there is none does exactly that.
\<close>

section \<open>Stores as a tracer builds them\<close>

text \<open>
  Addresses are handed out in the order of creation, and the parent of a
  span exists when the span is created: \<open>parents_before\<close>. A child span is
  created in the trace of its parent: \<open>trace_uniform\<close>. Both read only the
  shape of the store, which no call on a context changes.
\<close>

definition parents_before :: "span_store \<Rightarrow> bool" where
  "parents_before st \<longleftrightarrow> (\<forall>s p. sp_parent (st s) = Some p \<longrightarrow> p < s)"

definition trace_uniform :: "span_store \<Rightarrow> bool" where
  "trace_uniform st \<longleftrightarrow>
     (\<forall>s p. sp_parent (st s) = Some p \<longrightarrow> sp_trace_id (st s) = sp_trace_id (st p))"

lemma parents_beforeD: "parents_before st \<Longrightarrow> sp_parent (st s) = Some p \<Longrightarrow> p < s"
  by (simp add: parents_before_def)

lemma trace_uniformD:
  "trace_uniform st \<Longrightarrow> sp_parent (st s) = Some p \<Longrightarrow> sp_trace_id (st s) = sp_trace_id (st p)"
  by (simp add: trace_uniform_def)

lemma same_shape_parents_before:
  "same_shape st st' \<Longrightarrow> parents_before st' = parents_before st"
  by (simp add: parents_before_def same_shape_def)

lemma same_shape_trace_uniform:
  "same_shape st st' \<Longrightarrow> trace_uniform st' = trace_uniform st"
  by (simp add: trace_uniform_def same_shape_def)

lemmas run_parents_before = same_shape_parents_before [OF run_shape]
lemmas run_trace_uniform = same_shape_trace_uniform [OF run_shape]

lemma ex_spans_parents_before [simp]: "parents_before ex_spans"
  by (simp add: parents_before_def ex_spans_def)

lemma ex_spans_trace_uniform [simp]: "trace_uniform ex_spans"
  by (simp add: trace_uniform_def ex_spans_def)

section \<open>The ancestors of a span\<close>

text \<open>
  The walk along the parent links without fuel: it stops at a span with no
  parent, and at a link that does not lead to an older span. What gets
  smaller is the address.
\<close>

function ancestors :: "(span_ref \<Rightarrow> span_ref option) \<Rightarrow> span_ref \<Rightarrow> span_ref list" where
  "ancestors par s =
     s # (case par s of None \<Rightarrow> [] | Some p \<Rightarrow> if p < s then ancestors par p else [])"
  by pat_completeness auto
termination
  by (relation "measure snd") auto

declare ancestors.simps [simp del]

lemma ancestors_unfold:
  "par s = None \<Longrightarrow> ancestors par s = [s]"
  "par s = Some p \<Longrightarrow> p < s \<Longrightarrow> ancestors par s = s # ancestors par p"
  "par s = Some p \<Longrightarrow> \<not> p < s \<Longrightarrow> ancestors par s = [s]"
  by (simp_all add: ancestors.simps [of par s])

text \<open>Induction along the walk, one case for each way it goes on or stops.\<close>

lemma ancestors_induct [case_names root child stop]:
  fixes par :: "span_ref \<Rightarrow> span_ref option"
  assumes "\<And>s. par s = None \<Longrightarrow> P s"
    and "\<And>s p. par s = Some p \<Longrightarrow> p < s \<Longrightarrow> P p \<Longrightarrow> P s"
    and "\<And>s p. par s = Some p \<Longrightarrow> \<not> p < s \<Longrightarrow> P s"
  shows "P s"
proof (induction s rule: less_induct)
  case (less s)
  show ?case
  proof (cases "par s")
    case None
    then show ?thesis by (rule assms(1))
  next
    case (Some p)
    with less assms(2,3) [OF Some] show ?thesis by (cases "p < s") auto
  qed
qed

lemma ancestors_chain:
  assumes "\<And>s p. par s = Some p \<Longrightarrow> p < s"
  shows "chain par (Some s) (ancestors par s)"
  by (induction s rule: ancestors_induct [of par]) (auto simp: ancestors_unfold dest: assms)

lemma ancestors_below: "x \<in> set (ancestors par s) \<Longrightarrow> x \<le> s"
  by (induction s rule: ancestors_induct [of par]) (auto simp: ancestors_unfold)

lemma ancestors_decreasing: "sorted_wrt (>) (ancestors par s)"
  by (induction s rule: ancestors_induct [of par])
    (auto simp: ancestors_unfold dest: ancestors_below)

lemma ancestors_length: "length (ancestors par s) \<le> Suc s"
  by (induction s rule: ancestors_induct [of par]) (auto simp: ancestors_unfold)

section \<open>The open spans of a context\<close>

definition open_chain :: "ctx_ref \<Rightarrow> heap \<Rightarrow> stack" where
  "open_chain self h =
     (case get_current_span self h of
        None \<Rightarrow> []
      | Some s \<Rightarrow> ancestors (parent_of (spans h)) s)"

definition depth_bound :: "ctx_ref \<Rightarrow> heap \<Rightarrow> nat" where
  "depth_bound self h = (case get_current_span self h of None \<Rightarrow> 0 | Some s \<Rightarrow> Suc s)"

lemma open_chain_ancestry:
  "parents_before (spans h) \<Longrightarrow>
   ancestry (spans h) (get_current_span self h) (open_chain self h)"
  by (auto simp: open_chain_def split: option.splits
      intro!: ancestors_chain dest: parents_beforeD)

lemma open_chain_length: "length (open_chain self h) \<le> depth_bound self h"
  by (simp add: open_chain_def depth_bound_def ancestors_length split: option.splits)

lemma open_chain_decreasing: "sorted_wrt (>) (open_chain self h)"
  by (simp add: open_chain_def ancestors_decreasing split: option.splits)

lemma stack_rel_open_chain:
  assumes "stack_rel self st h" and "parents_before (spans h)"
  shows "st = open_chain self h"
  using stack_relD(1) [OF assms(1)] open_chain_ancestry [OF assms(2), of self]
  by (auto simp: getter_defs intro: chain_unique)

text \<open>
  The state of the instances below: a new context over the example spans, to
  which span 0 and its child, span 1, have been added.
\<close>

definition ex_open :: heap where
  "ex_open = final (add_span 0 (Some 1) (final (add_span 0 (Some 0) ex_heap)))"

lemma ex_open_run:
  "final (run (step 0) [AddSpan (Some 0), AddSpan (Some 1)] ex_heap) = ex_open"
  by (simp add: ex_open_def del: run.simps(2))

lemma ex_open_stack_rel: "stack_rel 0 [1, 0] ex_open"
proof -
  have "stack_rel 0 [] ex_heap"
    by (rule stack_rel_init) simp
  moreover have "arun (parent_of (spans ex_heap)) [AddSpan (Some 0), AddSpan (Some 1)] []
      = Some [1, 0]"
    by simp
  ultimately have "stack_rel 0 [1, 0]
      (final (run (step 0) [AddSpan (Some 0), AddSpan (Some 1)] ex_heap))"
    by (rule arun_simulated [THEN conjunct2])
  then show ?thesis
    by (simp only: ex_open_run)
qed

lemma ex_open_simps [simp]:
  "c_active_span (ctxs ex_open 0) = Some 1"
  "c_local_root_span (ctxs ex_open 0) = Some 0"
  "c_trace_id (ctxs ex_open 0) = Some 42"
  "sp_parent (spans ex_open r) = sp_parent (ex_spans r)"
  "sp_trace_id (spans ex_open r) = 42"
  by (simp_all add: ex_open_def add_span_ctxs)

lemma ex_open_store [simp]: "parents_before (spans ex_open)" "trace_uniform (spans ex_open)"
  by (simp_all add: ex_open_def parents_before_def trace_uniform_def ex_spans_def)

section \<open>The loop that closes the current span\<close>

text \<open>
  What a caller does to leave a context at rest:
  \<^verbatim>\<open>while ctx.get_current_span(): ctx.close_span(ctx.get_current_span())\<close>.
  The loop need not end on a store with a cycle of parent links, so it is a
  \<open>while_option\<close>; where every span is younger than its parent, each turn
  makes an older span the current one, and the loop ends.
\<close>

definition unwind :: "ctx_ref \<Rightarrow> heap \<Rightarrow> heap option" where
  "unwind self =
     while_option (\<lambda>h. get_current_span self h \<noteq> None)
       (\<lambda>h. final (close_span self (get_current_span self h) h))"

lemma unwind_unfold:
  "unwind self h =
     (case get_current_span self h of
        None \<Rightarrow> Some h
      | Some s \<Rightarrow> unwind self (final (close_span self (Some s) h)))"
  unfolding unwind_def by (subst while_option_unfold) (simp split: option.splits)

lemma close_current_smaller:
  assumes "parents_before (spans h)" and "get_current_span self h = Some s"
  shows "depth_bound self (final (close_span self (Some s) h)) < depth_bound self h"
  using assms
  by (auto simp: depth_bound_def getter_defs close_span_ctxs Let_def
      split: option.splits dest: parents_beforeD)

lemma unwind_terminates:
  assumes "parents_before (spans h)"
  shows "\<exists>h'. unwind self h = Some h' \<and> get_current_span self h' = None"
proof -
  have "\<exists>h'. unwind self h = Some h'"
    unfolding unwind_def
    by (rule measure_while_option_Some
        [where P = "\<lambda>h. parents_before (spans h)" and f = "depth_bound self"])
      (use assms in \<open>auto simp: close_current_smaller\<close>)
  then obtain h' where h': "unwind self h = Some h'" by blast
  then have "get_current_span self h' = None"
    unfolding unwind_def by (auto dest: while_option_stop)
  with h' show ?thesis by blast
qed

section \<open>The walk ends\<close>

text \<open>
  C35. On a store in which every span is younger than its parent, in every
  state a sequence of calls leaves, the walk from the current span of a
  context along the parent links ends (with fuel for the address of the
  current span it returns the list of the open spans, which \<open>open_chain\<close>
  computes without fuel), and so does the loop that closes the current span
  until there is none.
\<close>

theorem open_spans_terminates:
  assumes "parents_before (spans h)"
  shows "let h' = final (run (step self) es h) in
     open_spans (depth_bound self h') self h' = Some (open_chain self h') \<and>
     (\<exists>h''. unwind self h' = Some h'' \<and> get_current_span self h'' = None)"
proof -
  let ?h' = "final (run (step self) es h)"
  from assms have store: "parents_before (spans ?h')"
    by (simp add: run_parents_before)
  then have "ancestry (spans ?h') (get_current_span self ?h') (open_chain self ?h')"
    by (rule open_chain_ancestry)
  with unwind_terminates [OF store, of self] show ?thesis
    by (simp add: Let_def open_spans_def chain_walk open_chain_length)
qed

theorem open_spans_terminates_witness:
  "let h' = final (run (step 0) [AddSpan (Some 0), AddSpan (Some 1)] ex_heap) in
     parents_before (spans ex_heap) \<and> depth_bound 0 h' = 2 \<and>
     open_spans 2 0 h' = Some [1, 0]"
proof -
  have store: "parents_before (spans ex_heap)"
    by simp
  have fuel: "depth_bound 0 ex_open = 2" and chain: "open_chain 0 ex_open = [1, 0]"
    by (simp_all add: depth_bound_def open_chain_def getter_defs ancestors_unfold)
  from open_spans_terminates [OF store, of 0 "[AddSpan (Some 0), AddSpan (Some 1)]"]
  have "open_spans (depth_bound 0 ex_open) 0 ex_open = Some (open_chain 0 ex_open)"
    by (simp only: Let_def ex_open_run)
  with store fuel chain show ?thesis
    by (simp only: Let_def ex_open_run simp_thms)
qed

section \<open>How many spans are open\<close>



section \<open>Every open span belongs to the trace of the context\<close>

lemma stack_rel_share_trace:
  assumes rel: "stack_rel self st h" and tl: "trace_linked self h"
    and uni: "trace_uniform (spans h)"
  shows "\<forall>s\<in>set st. trace_id self h = Some (sp_trace_id (spans h s))"
proof (cases st)
  case Nil
  then show ?thesis by simp
next
  case (Cons a rest)
  with stack_relD(1,2) [OF rel] have act: "c_active_span (ctxs h self) = Some a"
    and anc: "ancestry (spans h) (Some a) st" by simp_all
  from anc have "\<forall>s\<in>set st. sp_trace_id (spans h s) = sp_trace_id (spans h a)"
    by (rule chain_constant) (simp add: trace_uniformD [OF uni])
  with tl act show ?thesis
    by (simp add: trace_linked_def getter_defs)
qed

text \<open>
  C37. On a store in which a child span carries the trace identifier of its
  parent, after any sequence of calls the stack machine accepts, the context
  reports the trace identifier of every span that is open, its local root
  span included.
\<close>

theorem open_spans_share_trace:
  assumes rel: "stack_rel self st h" and tl: "trace_linked self h"
    and uni: "trace_uniform (spans h)"
    and acc: "arun (parent_of (spans h)) es st = Some st'"
  shows "let h' = final (run (step self) es h) in
     (\<forall>s\<in>set st'. trace_id self h' = Some (sp_trace_id (spans h' s))) \<and>
     (case get_current_root_span self h' of
        None \<Rightarrow> True
      | Some root \<Rightarrow> trace_id self h' = Some (sp_trace_id (spans h' root)))"
proof -
  let ?h' = "final (run (step self) es h)"
  note after = arun_simulated [OF rel acc]
  from tl after have tl': "trace_linked self ?h'"
    by (simp add: run_trace_linked)
  from uni have uni': "trace_uniform (spans ?h')"
    by (simp add: run_trace_uniform)
  from conjunct2 [OF after] tl' uni'
  have "\<forall>s\<in>set st'. trace_id self ?h' = Some (sp_trace_id (spans ?h' s))"
    by (rule stack_rel_share_trace)
  moreover have "root \<in> set st'" if "get_current_root_span self ?h' = Some root" for root
    using that stack_relD(3) [OF conjunct2 [OF after]]
    by (cases st') (auto simp: getter_defs bottom_Cons split: if_splits)
  ultimately show ?thesis
    by (auto simp: Let_def split: option.splits)
qed

theorem open_spans_share_trace_witness:
  "let es = [AddSpan (Some 2), SetOrigin (Some ''synthetics'')];
       h' = final (run (step 0) es ex_open) in
     stack_rel 0 [1, 0] ex_open \<and> trace_linked 0 ex_open \<and> trace_uniform (spans ex_open) \<and>
     arun (parent_of (spans ex_open)) es [1, 0] = Some [2, 1, 0] \<and>
     trace_id 0 h' = Some 42 \<and> get_current_root_span 0 h' = Some 0 \<and>
     sp_trace_id (spans h' 0) = 42"
proof -
  let ?es = "[AddSpan (Some 2), SetOrigin (Some ''synthetics'')]"
  have tl: "trace_linked 0 ex_open"
    by (simp add: trace_linked_def)
  have acc: "arun (parent_of (spans ex_open)) ?es [1, 0] = Some [2, 1, 0]"
    by (simp add: numeral_2_eq_2)
  from open_spans_share_trace [OF ex_open_stack_rel tl ex_open_store(2) acc]
    ex_open_stack_rel tl acc
  show ?thesis
    by (simp add: Let_def getter_defs add_span_ctxs set_dd_origin_ctxs numeral_2_eq_2
        del: run.simps(2))
qed

section \<open>Every trace can be ended\<close>

text \<open>The calls that close the spans of a stack, innermost first.\<close>

definition close_all :: "stack \<Rightarrow> event list" where
  "close_all st = map (\<lambda>s. CloseSpan (Some s)) st"

lemma arun_close_all: "arun par (close_all st) st = Some []"
  by (induction st) (simp_all add: close_all_def)

lemma close_last:
  assumes "stack_rel self [s] h"
  shows "trace_id self (final (close_span self (Some s) h)) = None"
    and "span_id self (final (close_span self (Some s) h)) = None"
  using stack_relD [OF assms]
  by (simp_all add: getter_defs close_span_ctxs Let_def)

lemma close_all_clears_ids:
  assumes "st \<noteq> []" and "stack_rel self st h"
  shows "trace_id self (final (run (step self) (close_all st) h)) = None \<and>
     span_id self (final (run (step self) (close_all st) h)) = None"
  using assms
proof (induction st arbitrary: h rule: list_nonempty_induct)
  case (single s)
  then show ?case by (simp add: close_all_def close_last del: run.simps(2))
next
  case (cons s st)
  from cons.prems have "stack_rel self st (final (close_span self (Some s) h))"
    by (rule pop_simulated)
  from cons.IH [OF this] show ?case by (simp add: close_all_def del: run.simps(2))
qed

text \<open>The loop makes exactly these calls.\<close>

lemma unwind_close_all:
  "stack_rel self st h \<Longrightarrow> unwind self h = Some (final (run (step self) (close_all st) h))"
proof (induction st arbitrary: h)
  case Nil
  from stack_relD(2) [OF this] show ?case
    by (subst unwind_unfold) (simp add: close_all_def getter_defs)
next
  case (Cons s st)
  from Cons.prems have "stack_rel self st (final (close_span self (Some s) h))"
    by (rule pop_simulated)
  from Cons.IH [OF this] stack_relD(2) [OF Cons.prems] show ?case
    by (subst unwind_unfold) (simp add: close_all_def getter_defs del: run.simps(2))
qed

text \<open>
  C38. From every state that stands for a stack of open spans, closing these
  spans, innermost first, returns and ends the trace: the context is left
  without current span and without local root span, and, where a span was
  open, without trace identifier and active span identifier. The loop that
  closes the current span until there is none makes exactly these calls.
\<close>

theorem close_all_ends_trace:
  assumes rel: "stack_rel self st h"
  shows "let r = run (step self) (close_all st) h in
     raised r = None \<and> get_current_span self (final r) = None \<and>
     get_current_root_span self (final r) = None \<and>
     (st \<noteq> [] \<longrightarrow> trace_id self (final r) = None \<and> span_id self (final r) = None) \<and>
     unwind self h = Some (final r)"
proof -
  note after = arun_simulated [OF rel arun_close_all]
  from after stack_relD(2,3) [OF conjunct2 [OF after]] close_all_clears_ids [OF _ rel]
    unwind_close_all [OF rel]
  show ?thesis
    by (simp add: Let_def getter_defs)
qed

theorem close_all_ends_trace_witness:
  "let r = run (step 0) (close_all [1, 0]) ex_open in
     stack_rel 0 [1, 0] ex_open \<and> trace_id 0 ex_open = Some 42 \<and>
     raised r = None \<and> get_current_span 0 (final r) = None \<and>
     get_current_root_span 0 (final r) = None \<and>
     trace_id 0 (final r) = None \<and> span_id 0 (final r) = None"
  using close_all_ends_trace [OF ex_open_stack_rel] ex_open_stack_rel
  by (simp add: Let_def getter_defs)

end
