(* ===== verification/Tag_Types.thy ===== *)
theory Tag_Types
  imports Context_Invariants
begin

text \<open>
  The types of the two dictionaries of a span. The specification gives
  \<open>meta\<close> the type string to string and \<open>metrics\<close> the type string to number;
  the class writes into them whatever value the context holds, and the value
  of the context may be \<open>None\<close>. A store is typed when no key of a dictionary
  holds \<open>None\<close>. \<open>add_span\<close> tests the value before it writes and keeps every
  store typed; a setter does not, and keeps the store typed unless it is
  given \<open>None\<close> while the context has a local root span.
\<close>

section \<open>Typed stores\<close>

definition tags_typed :: "span_store \<Rightarrow> bool" where
  "tags_typed st \<longleftrightarrow>
     (\<forall>r k. sp_meta (st r) k \<noteq> Some None \<and> sp_metrics (st r) k \<noteq> Some None)"

text \<open>The calls that set a value of the context to \<open>None\<close>.\<close>

fun clears :: "event \<Rightarrow> bool" where
  "clears (SetSamplingPriority v) \<longleftrightarrow> v = None"
| "clears (SetOrigin v) \<longleftrightarrow> v = None"
| "clears (AddSpan span) \<longleftrightarrow> False"
| "clears (CloseSpan span) \<longleftrightarrow> False"

lemma tags_typedD:
  assumes "tags_typed st"
  shows "sp_meta (st r) k \<noteq> Some None" and "sp_metrics (st r) k \<noteq> Some None"
  using assms by (simp_all add: tags_typed_def)

lemma set_meta_typed:
  "tags_typed st \<Longrightarrow> tags_typed (set_meta r k v st) \<longleftrightarrow> v \<noteq> None"
  by (auto simp: tags_typed_def set_meta_meta)

lemma set_metric_typed:
  "tags_typed st \<Longrightarrow> tags_typed (set_metric r k v st) \<longleftrightarrow> v \<noteq> None"
  by (auto simp: tags_typed_def set_metric_metrics)

lemma set_context_typed [simp]: "tags_typed (set_context r c st) = tags_typed st"
  by (simp add: tags_typed_def)

section \<open>The methods and the types\<close>

lemma add_span_typed:
  "tags_typed (spans h) \<Longrightarrow> tags_typed (spans (final (add_span self span h)))"
  by (cases span) (auto simp: tags_typed_def add_span_meta add_span_metrics)

lemma close_span_typed:
  "tags_typed (spans (final (close_span self span h))) = tags_typed (spans h)"
  by simp

lemma set_sampling_priority_typed:
  "tags_typed (spans h) \<Longrightarrow>
   tags_typed (spans (set_sampling_priority self v h)) \<longleftrightarrow>
     (v = None \<longrightarrow> c_local_root_span (ctxs h self) = None)"
  by (auto simp: set_sampling_priority_spans set_metric_typed split: option.splits)

lemma set_dd_origin_typed:
  "tags_typed (spans h) \<Longrightarrow>
   tags_typed (spans (set_dd_origin self v h)) \<longleftrightarrow>
     (v = None \<longrightarrow> c_local_root_span (ctxs h self) = None)"
  by (auto simp: set_dd_origin_spans set_meta_typed split: option.splits)

lemmas method_typed =
  add_span_typed close_span_typed set_sampling_priority_typed set_dd_origin_typed

lemma step_typed:
  "tags_typed (spans h) \<Longrightarrow> \<not> clears e \<Longrightarrow> tags_typed (spans (final (step self e h)))"
  by (cases e) (auto simp: method_typed)

text \<open>A run in which no value is set to \<open>None\<close> keeps the store typed.\<close>

lemma run_typed:
  assumes "tags_typed (spans h)" and "list_all (\<lambda>e. \<not> clears e) es"
  shows "tags_typed (spans (final (run (step self) es h)))"
  using assms
proof (induction es arbitrary: h)
  case Nil
  then show ?case by simp
next
  case (Cons e es)
  then have "tags_typed (spans (final (step self e h)))"
    by (simp add: step_typed)
  with Cons show ?case
    by (cases "step self e h") auto
qed

text \<open>
  C34. On a typed store, a call leaves the store typed except in one case:
  a setter that is given \<open>None\<close> while the context has a local root span
  stores \<open>None\<close> under the key of that span. In particular \<open>add_span\<close> and
  \<open>close_span\<close> keep every typed store typed, whatever their argument.
\<close>

theorem step_keeps_typed:
  assumes "tags_typed (spans h)"
  shows "tags_typed (spans (final (step self e h))) \<longleftrightarrow>
     \<not> (clears e \<and> get_current_root_span self h \<noteq> None)"
  using assms by (cases e) (auto simp: method_typed getter_defs)

theorem step_keeps_typed_witness:
  "let h = final (add_span 0 (Some 0) ex_heap) in
     tags_typed (spans h) \<and> get_current_root_span 0 h = Some 0 \<and>
     tags_typed (spans (final (step 0 (SetSamplingPriority (Some 1)) h))) \<and>
     \<not> tags_typed (spans (final (step 0 (SetSamplingPriority None) h)))"
proof -
  let ?h = "final (add_span 0 (Some 0) ex_heap)"
  have "tags_typed (spans ex_heap)"
    by (simp add: tags_typed_def)
  then have typed: "tags_typed (spans ?h)"
    by (rule add_span_typed)
  have root: "get_current_root_span 0 ?h = Some 0"
    by (simp add: getter_defs add_span_ctxs)
  from step_keeps_typed [OF typed, of 0 "SetSamplingPriority (Some 1)"]
    step_keeps_typed [OF typed, of 0 "SetSamplingPriority None"] typed root
  show ?thesis
    by (simp only: Let_def clears.simps simp_thms option.simps)
qed

end
