(* ===== verification/Context_System.thy ===== *)
theory Context_System
  imports Context_Invariants
begin

text \<open>
  Several contexts over one span store: the situation the class is used in,
  where a context is cloned for another thread or task and the spans of one
  trace are reachable from more than one context. A transition of the system
  is one call on one existing context, a \<open>clone\<close> of one, or the creation of a
  new one; which context moves next is not determined, so the transitions are
  a relation, labelled by the call.

  Two of the invariants of a context read only what no call writes (the
  identifiers and parent links of spans) and the context's own attributes;
  they hold of every context in every reachable state, whatever the other
  contexts do. With them holds that the \<open>_context\<close> of a span is a context
  that exists. The other invariants read attributes of the local root span
  that a call on another context can write; they hold of every context where
  no span is added to two contexts (\<open>disciplined\<close>). Last, one attribute
  of the class is never given a value.
\<close>

section \<open>Transitions\<close>

datatype call =
    Call ctx_ref event
  | Clone ctx_ref
  | New "int option" "int option" "int option" "string option"

inductive sys_step :: "heap \<Rightarrow> call \<Rightarrow> heap \<Rightarrow> bool" where
  by_call: "self < next_ctx h \<Longrightarrow> sys_step h (Call self e) (final (step self e h))"
| by_clone: "self < next_ctx h \<Longrightarrow> sys_step h (Clone self) (snd (clone self h))"
| by_new: "sys_step h (New t s p d) (snd (alloc_ctx (init t s p d) h))"

inductive_cases sys_step_CallE [elim!]: "sys_step h (Call self e) h'"
inductive_cases sys_step_CloneE [elim!]: "sys_step h (Clone self) h'"
inductive_cases sys_step_NewE [elim!]: "sys_step h (New t s p d) h'"

definition initial :: "heap \<Rightarrow> bool" where
  "initial h \<longleftrightarrow> next_ctx h = 0 \<and> (\<forall>r. sp_context (spans h r) = None)"

inductive reachable :: "heap \<Rightarrow> bool" where
  at_start: "initial h \<Longrightarrow> reachable h"
| after_step: "reachable h \<Longrightarrow> sys_step h c h' \<Longrightarrow> reachable h'"

text \<open>The relation is a function of the state and the label.\<close>

lemma sys_step_deterministic: "sys_step h c h' \<Longrightarrow> sys_step h c h'' \<Longrightarrow> h'' = h'"
  by (cases c) auto

text \<open>The only guard is that the context called exists.\<close>

lemma sys_step_enabled:
  "(\<exists>h'. sys_step h c h') \<longleftrightarrow>
     (case c of Call self e \<Rightarrow> self < next_ctx h | Clone self \<Rightarrow> self < next_ctx h | New t s p d \<Rightarrow> True)"
  by (cases c) (auto intro: sys_step.intros)

section \<open>What a transition leaves unchanged\<close>

lemma sys_step_shape [frame]: "sys_step h c h' \<Longrightarrow> same_shape (spans h) (spans h')"
  by (induction rule: sys_step.induct) (simp_all add: step_shape)

lemma sys_step_next_ctx: "sys_step h c h' \<Longrightarrow> next_ctx h \<le> next_ctx h'"
  by (induction rule: sys_step.induct) simp_all

lemma sys_step_other_ctx:
  assumes "sys_step h c h'" and "x < next_ctx h"
    and "case c of Call self e \<Rightarrow> x \<noteq> self | _ \<Rightarrow> True"
  shows "ctxs h' x = ctxs h x"
  using assms
  by (induction rule: sys_step.induct) (simp_all add: step_other_ctx clone_ctxs)

section \<open>The system invariant\<close>

definition sys_inv :: "heap \<Rightarrow> bool" where
  "sys_inv h \<longleftrightarrow>
     (\<forall>c<next_ctx h. id_linked c h \<and> root_parentless c h) \<and>
     (\<forall>r c. sp_context (spans h r) = Some c \<longrightarrow> c < next_ctx h)"

lemma sys_invD:
  assumes "sys_inv h"
  shows "c < next_ctx h \<Longrightarrow> id_linked c h"
    and "c < next_ctx h \<Longrightarrow> root_parentless c h"
    and "sp_context (spans h r) = Some c \<Longrightarrow> c < next_ctx h"
  using assms by (auto simp: sys_inv_def)

lemma initial_sys_inv: "initial h \<Longrightarrow> sys_inv h"
  by (simp add: initial_def sys_inv_def)

lemma setters_id_linked:
  assumes "id_linked self h"
  shows "id_linked self (set_sampling_priority self v h)"
    and "id_linked self (set_dd_origin self w h)"
  using assms
  by (simp_all add: id_linked_def set_sampling_priority_ctxs set_dd_origin_ctxs
      split: option.splits)

lemma setters_root_parentless:
  assumes "root_parentless self h"
  shows "root_parentless self (set_sampling_priority self v h)"
    and "root_parentless self (set_dd_origin self w h)"
  using assms
  by (simp_all add: root_parentless_def set_sampling_priority_ctxs set_dd_origin_ctxs
      split: option.splits)

lemma step_id_linked: "id_linked self h \<Longrightarrow> id_linked self (final (step self e h))"
  by (cases e) (simp_all add: add_span_id_linked close_span_id_linked setters_id_linked)

lemma step_root_parentless:
  "root_parentless self h \<Longrightarrow> root_parentless self (final (step self e h))"
  by (cases e)
    (simp_all add: add_span_root_parentless close_span_root_parentless setters_root_parentless)

lemma step_context_owner:
  "sp_context (spans (final (step self e h)) r) = Some c
   \<Longrightarrow> c = self \<or> sp_context (spans h r) = Some c"
proof (cases e)
  case (AddSpan span)
  then show "sp_context (spans (final (step self e h)) r) = Some c
      \<Longrightarrow> c = self \<or> sp_context (spans h r) = Some c"
    by (cases span) (auto simp: add_span_context split: if_splits)
qed (auto simp: set_sampling_priority_spans set_dd_origin_spans split: option.splits)

lemma call_keeps_sys_inv:
  assumes inv: "sys_inv h" and self: "self < next_ctx h"
  shows "sys_inv (final (step self e h))"
proof -
  let ?h' = "final (step self e h)"
  have "id_linked c ?h' \<and> root_parentless c ?h'" if "c < next_ctx h" for c
  proof (cases "c = self")
    case True
    with sys_invD(1,2) [OF inv that] show ?thesis
      by (simp add: step_id_linked step_root_parentless)
  next
    case False
    then have eq: "ctxs ?h' c = ctxs h c" by (rule step_other_ctx)
    from sys_invD(1,2) [OF inv that] show ?thesis
      by (simp only: id_linked_cong [OF eq step_shape] root_parentless_cong [OF eq step_shape])
  qed
  moreover have "c < next_ctx h" if "sp_context (spans ?h' r) = Some c" for r c
    using step_context_owner [OF that] self sys_invD(3) [OF inv, of r c] by blast
  ultimately show ?thesis by (simp add: sys_inv_def)
qed

lemma alloc_keeps_sys_inv:
  assumes inv: "sys_inv h"
    and h': "spans h' = spans h" "next_ctx h' = Suc (next_ctx h)"
      "\<And>c. ctxs h' c = (if c = next_ctx h then init t s p d else ctxs h c)"
  shows "sys_inv h'"
proof -
  have "id_linked c h' \<and> root_parentless c h'" if "c < Suc (next_ctx h)" for c
  proof (cases "c = next_ctx h")
    case True
    with h' show ?thesis by (simp add: id_linked_def root_parentless_def)
  next
    case False
    with that have "c < next_ctx h" by simp
    moreover from False h'(3) have eq: "ctxs h' c = ctxs h c" by simp
    moreover from h'(1) have "same_shape (spans h) (spans h')" by simp
    ultimately show ?thesis
      using sys_invD(1,2) [OF inv, of c] by (simp only: id_linked_cong root_parentless_cong)
  qed
  moreover have "c < Suc (next_ctx h)" if "sp_context (spans h' r) = Some c" for r c
    using that h'(1) sys_invD(3) [OF inv, of r c] by simp
  ultimately show ?thesis by (simp add: sys_inv_def h'(2))
qed

lemma sys_step_keeps_inv: "sys_step h c h' \<Longrightarrow> sys_inv h \<Longrightarrow> sys_inv h'"
proof (induction rule: sys_step.induct)
  case (by_call self h e)
  then show ?case by (simp add: call_keeps_sys_inv)
next
  case (by_clone self h)
  then show ?case by (rule_tac alloc_keeps_sys_inv) (simp_all add: clone_ctxs)
next
  case (by_new h t s p d)
  then show ?case by (rule_tac alloc_keeps_sys_inv) simp_all
qed

lemma reachable_sys_inv: "reachable h \<Longrightarrow> sys_inv h"
  by (induction rule: reachable.induct) (auto intro: initial_sys_inv sys_step_keeps_inv)

section \<open>Transitions, computed\<close>

text \<open>
  The transition relation as a function: \<open>None\<close> where the guard of the
  transition fails. Runs of it give the reachable states used as instances.
\<close>

fun sys_exec :: "call \<Rightarrow> heap \<Rightarrow> heap option" where
  "sys_exec (Call self e) h = (if self < next_ctx h then Some (final (step self e h)) else None)"
| "sys_exec (Clone self) h = (if self < next_ctx h then Some (snd (clone self h)) else None)"
| "sys_exec (New t s p d) h = Some (snd (alloc_ctx (init t s p d) h))"

fun sys_run :: "call list \<Rightarrow> heap \<Rightarrow> heap option" where
  "sys_run [] h = Some h"
| "sys_run (c # cs) h = (case sys_exec c h of None \<Rightarrow> None | Some h' \<Rightarrow> sys_run cs h')"

lemma sys_exec_iff: "sys_exec c h = Some h' \<longleftrightarrow> sys_step h c h'"
  by (cases c) (auto intro: sys_step.intros)

lemma sys_run_reachable: "reachable h \<Longrightarrow> sys_run cs h = Some h' \<Longrightarrow> reachable h'"
proof (induction cs arbitrary: h)
  case Nil
  then show ?case by simp
next
  case (Cons c cs)
  from Cons.prems(2) obtain h1 where "sys_exec c h = Some h1" and rest: "sys_run cs h1 = Some h'"
    by (auto split: option.splits)
  then have "sys_step h c h1" by (simp add: sys_exec_iff)
  with Cons.prems(1) have "reachable h1" by (rule reachable.after_step)
  then show ?case using rest by (rule Cons.IH)
qed

text \<open>
  The state of the instances: from the empty system over the example spans,
  a context is created, the root span is added to it, the context is cloned
  and the first child span is added to the clone.
\<close>

definition ex_empty :: heap where
  "ex_empty = \<lparr>spans = ex_spans, ctxs = (\<lambda>_. init None None None None), next_ctx = 0\<rparr>"

definition ex_calls :: "call list" where
  "ex_calls = [New None None None None, Call 0 (AddSpan (Some 0)), Clone 0,
               Call 1 (AddSpan (Some 1))]"

lemma ex_empty_initial: "initial ex_empty"
  by (simp add: initial_def ex_empty_def)

lemma ex_calls_run: "\<exists>h. sys_run ex_calls ex_empty = Some h"
  by (simp add: ex_calls_def ex_empty_def)

section \<open>Every reachable state is consistent\<close>

text \<open>
  C22. In every state a system of contexts can reach, whatever the order of
  the calls on its contexts, each existing context that has a current span
  reports that span's identifier as \<open>span_id\<close>, its local root span, if any,
  has no parent, and the \<open>_context\<close> of every span is an existing context.
\<close>

theorem reachable_consistent:
  assumes "reachable h" and "c < next_ctx h"
  shows "(case get_current_span c h of
            None \<Rightarrow> True
          | Some s \<Rightarrow> span_id c h = Some (sp_span_id (spans h s))) \<and>
         (case get_current_root_span c h of
            None \<Rightarrow> True
          | Some root \<Rightarrow> sp_parent (spans h root) = None) \<and>
         (case sp_context (spans h r) of None \<Rightarrow> True | Some c' \<Rightarrow> c' < next_ctx h)"
proof -
  from assms(1) have inv: "sys_inv h" by (rule reachable_sys_inv)
  from sys_invD(1,2) [OF inv assms(2)] sys_invD(3) [OF inv, of r] show ?thesis
    by (simp add: id_linked_def root_parentless_def getter_defs split: option.splits)
qed

theorem reachable_consistent_witness:
  "let h = the (sys_run ex_calls ex_empty) in
     reachable h \<and> (1::nat) < next_ctx h \<and>
     get_current_span 1 h = Some 1 \<and> span_id 1 h = Some 2 \<and>
     get_current_root_span 1 h = None \<and> sp_context (spans h 1) = Some 1 \<and>
     get_current_span 0 h = Some 0 \<and> sp_context (spans h 0) = Some 0"
proof -
  let ?h = "the (sys_run ex_calls ex_empty)"
  from ex_calls_run have run: "sys_run ex_calls ex_empty = Some ?h"
    by auto
  have reach: "reachable ?h"
    by (rule sys_run_reachable [OF reachable.at_start run]) (rule ex_empty_initial)
  have ex: "(1::nat) < next_ctx ?h"
    by (simp add: ex_calls_def ex_empty_def)
  from reachable_consistent [OF reach ex, of 1] reach ex show ?thesis
    by (simp add: Let_def ex_calls_def ex_empty_def getter_defs clone_ctxs add_span_ctxs
        add_span_context)
qed

section \<open>One context per span\<close>

text \<open>
  The remaining invariants of a context (its local root span points back to
  it and mirrors its sampling priority and origin) read attributes of a span
  that calls on another context can write. They hold of every context of the
  system where callers keep one discipline: a span is added to a context
  only if the span belongs to no other context yet. \<open>written_span\<close> is the
  span a call may write to, \<open>disciplined\<close> the guard on the calls.
\<close>

fun written_span :: "ctx_ref \<Rightarrow> event \<Rightarrow> heap \<Rightarrow> span_ref option" where
  "written_span self (AddSpan span) h = span"
| "written_span self (CloseSpan span) h = None"
| "written_span self (SetSamplingPriority v) h = c_local_root_span (ctxs h self)"
| "written_span self (SetOrigin v) h = c_local_root_span (ctxs h self)"

definition disciplined :: "heap \<Rightarrow> call \<Rightarrow> bool" where
  "disciplined h c =
     (case c of
        Call self (AddSpan (Some s)) \<Rightarrow> sp_context (spans h s) \<in> {None, Some self}
      | _ \<Rightarrow> True)"

inductive reachable_d :: "heap \<Rightarrow> bool" where
  d_start: "initial h \<Longrightarrow> reachable_d h"
| d_step: "reachable_d h \<Longrightarrow> disciplined h c \<Longrightarrow> sys_step h c h' \<Longrightarrow> reachable_d h'"

definition all_inv :: "heap \<Rightarrow> bool" where
  "all_inv h \<longleftrightarrow> (\<forall>c<next_ctx h. ctx_inv c h)"

fun sys_run_d :: "call list \<Rightarrow> heap \<Rightarrow> heap option" where
  "sys_run_d [] h = Some h"
| "sys_run_d (c # cs) h =
     (if disciplined h c
      then case sys_exec c h of None \<Rightarrow> None | Some h' \<Rightarrow> sys_run_d cs h'
      else None)"

lemma reachable_d_reachable: "reachable_d h \<Longrightarrow> reachable h"
  by (induction rule: reachable_d.induct) (auto intro: reachable.intros)

lemma sys_run_d_reachable: "reachable_d h \<Longrightarrow> sys_run_d cs h = Some h' \<Longrightarrow> reachable_d h'"
proof (induction cs arbitrary: h)
  case Nil
  then show ?case by simp
next
  case (Cons c cs)
  from Cons.prems(2) obtain h1 where d: "disciplined h c"
    and "sys_exec c h = Some h1" and rest: "sys_run_d cs h1 = Some h'"
    by (auto split: option.splits if_splits)
  then have "sys_step h c h1" by (simp add: sys_exec_iff)
  with Cons.prems(1) d have "reachable_d h1" by (rule reachable_d.d_step)
  then show ?case using rest by (rule Cons.IH)
qed

text \<open>A call writes to one span at most.\<close>

lemma step_span_frame [frame]:
  "written_span self e h \<noteq> Some r \<Longrightarrow> spans (final (step self e h)) r = spans h r"
proof (cases e)
  case (AddSpan span)
  then show "written_span self e h \<noteq> Some r \<Longrightarrow> spans (final (step self e h)) r = spans h r"
    by (cases span) (auto simp: add_span_def Let_def heap_defs getter_defs split: option.splits)
qed (auto simp: set_sampling_priority_spans set_dd_origin_spans heap_defs split: option.splits)

text \<open>
  The invariant of a context depends on the context, on its local root span
  and on what no call writes.
\<close>

lemma ctx_inv_cong:
  assumes "ctxs h' c = ctxs h c"
    and "\<And>r. c_local_root_span (ctxs h c) = Some r \<Longrightarrow> spans h' r = spans h r"
    and "same_shape (spans h) (spans h')"
  shows "ctx_inv c h' = ctx_inv c h"
  using assms
  by (auto simp: ctx_inv_def inv_defs same_shapeD split: option.splits)

lemma disciplined_spares_root:
  assumes c: "ctx_inv c h" and self: "ctx_inv self h" and ne: "c \<noteq> self"
    and d: "disciplined h (Call self e)"
    and r: "c_local_root_span (ctxs h c) = Some r"
  shows "written_span self e h \<noteq> Some r"
proof
  assume w: "written_span self e h = Some r"
  from c r have own: "sp_context (spans h r) = Some c"
    by (simp add: ctx_inv_def root_owned_def)
  from w d own ne self show False
    by (cases e) (auto simp: disciplined_def ctx_inv_def root_owned_def)
qed

lemma other_step_keeps_inv:
  assumes c: "ctx_inv c h" and self: "ctx_inv self h" and ne: "c \<noteq> self"
    and d: "disciplined h (Call self e)"
  shows "ctx_inv c (final (step self e h))"
proof -
  have "spans (final (step self e h)) r = spans h r"
    if "c_local_root_span (ctxs h c) = Some r" for r
    by (rule step_span_frame) (rule disciplined_spares_root [OF c self ne d that])
  with c ne show ?thesis
    by (subst ctx_inv_cong [where h = h]) (simp_all add: step_other_ctx step_shape)
qed

lemma disciplined_step_keeps_all_inv:
  assumes "sys_step h c h'" and "disciplined h c" and "all_inv h"
  shows "all_inv h'"
  using assms
proof (induction rule: sys_step.induct)
  case (by_call self h e)
  show ?case unfolding all_inv_def
  proof (intro allI impI)
    fix c assume "c < next_ctx (final (step self e h))"
    then have c: "c < next_ctx h" by simp
    with by_call have "ctx_inv c h" and "ctx_inv self h" by (auto simp: all_inv_def)
    with by_call.prems(1) show "ctx_inv c (final (step self e h))"
      by (cases "c = self") (auto intro: step_inv other_step_keeps_inv)
  qed
next
  case (by_clone self h)
  then show ?case
    by (auto simp: all_inv_def clone_ctxs less_Suc_eq intro: init_inv(1)
        simp: ctx_inv_cong [where h = h and h' = "snd (clone self h)"])
next
  case (by_new h t s p d)
  then show ?case
    by (auto simp: all_inv_def less_Suc_eq intro: init_inv(1)
        simp: ctx_inv_cong [where h = h and h' = "snd (alloc_ctx (init t s p d) h)"])
qed

lemma reachable_d_all_inv: "reachable_d h \<Longrightarrow> all_inv h"
  by (induction rule: reachable_d.induct)
    (auto simp: all_inv_def initial_def
      intro: disciplined_step_keeps_all_inv [unfolded all_inv_def, rule_format])

text \<open>
  C32. Where no span is added to a context while it belongs to another one,
  every context of the system satisfies its whole invariant in every
  reachable state, whatever the order of the calls: a sampling priority or
  origin that is set on a context is on its local root span, and that span
  points back to the context.
\<close>

theorem disciplined_reachable_inv:
  assumes "reachable_d h" and "c < next_ctx h"
  shows "ctx_inv c h"
  using reachable_d_all_inv [OF assms(1)] assms(2) by (simp add: all_inv_def)

theorem disciplined_reachable_inv_witness:
  "let h = the (sys_run_d (ex_calls @ [Call 0 (SetSamplingPriority (Some 2))]) ex_empty) in
     reachable_d h \<and> (0::nat) < next_ctx h \<and> ctx_inv 0 h \<and>
     get_current_root_span 0 h = Some 0 \<and> sampling_priority 0 h = Some 2 \<and>
     sp_metrics (spans h 0) SAMPLING_PRIORITY_KEY = Some (Some 2)"
proof -
  let ?cs = "ex_calls @ [Call 0 (SetSamplingPriority (Some 2))]"
  let ?h = "the (sys_run_d ?cs ex_empty)"
  have "\<exists>h. sys_run_d ?cs ex_empty = Some h"
    by (simp add: ex_calls_def ex_empty_def disciplined_def add_span_context)
  then have run: "sys_run_d ?cs ex_empty = Some ?h"
    by auto
  have reach: "reachable_d ?h"
    by (rule sys_run_d_reachable [OF reachable_d.d_start run]) (rule ex_empty_initial)
  have ex: "(0::nat) < next_ctx ?h"
    by (simp add: ex_calls_def ex_empty_def disciplined_def add_span_context)
  from disciplined_reachable_inv [OF reach ex] reach ex show ?thesis
    by (simp add: Let_def ex_calls_def ex_empty_def disciplined_def getter_defs clone_ctxs
        add_span_ctxs add_span_context set_sampling_priority_ctxs set_sampling_priority_spans
        set_metric_metrics)
qed

section \<open>An attribute that is never set\<close>

text \<open>
  \<^verbatim>\<open>_trace_root_span_id\<close> is assigned \<open>None\<close> by \<^verbatim>\<open>__init__\<close> and by \<^verbatim>\<open>close_span\<close>
  and by nothing else, and no method reads it.
\<close>

lemma step_root_span_id:
  assumes "c_trace_root_span_id (ctxs h c) = None"
  shows "c_trace_root_span_id (ctxs (final (step self e h)) c) = None"
proof (cases e)
  case (AddSpan span)
  with assms show ?thesis
    by (cases span) (auto simp: add_span_ctxs Let_def)
next
  case (CloseSpan span)
  with assms show ?thesis
    by (cases span) (auto simp: close_span_ctxs close_span_None_ctxs Let_def)
qed (use assms in \<open>auto simp: set_sampling_priority_ctxs set_dd_origin_ctxs\<close>)

lemma sys_step_root_span_id:
  assumes "sys_step h c h'" and "\<forall>x<next_ctx h. c_trace_root_span_id (ctxs h x) = None"
  shows "\<forall>x<next_ctx h'. c_trace_root_span_id (ctxs h' x) = None"
  using assms
  by (induction rule: sys_step.induct)
    (auto simp: step_root_span_id clone_ctxs less_Suc_eq init_def)

text \<open>
  C39. In every state a system of contexts can reach, the attribute
  \<^verbatim>\<open>_trace_root_span_id\<close> of every existing context is \<open>None\<close>: the class
  keeps no identifier of a remote root span.
\<close>

theorem root_span_id_never_set:
  assumes "reachable h" and "c < next_ctx h"
  shows "c_trace_root_span_id (ctxs h c) = None"
proof -
  from assms(1) have "\<forall>x<next_ctx h. c_trace_root_span_id (ctxs h x) = None"
    by (induction rule: reachable.induct) (simp_all add: initial_def sys_step_root_span_id)
  with assms(2) show ?thesis by simp
qed

theorem root_span_id_never_set_witness:
  "let h = the (sys_run ex_calls ex_empty) in
     reachable h \<and> (1::nat) < next_ctx h \<and> get_current_span 1 h = Some 1 \<and>
     c_trace_root_span_id (ctxs h 1) = None"
proof -
  let ?h = "the (sys_run ex_calls ex_empty)"
  from ex_calls_run have run: "sys_run ex_calls ex_empty = Some ?h"
    by auto
  have reach: "reachable ?h"
    by (rule sys_run_reachable [OF reachable.at_start run]) (rule ex_empty_initial)
  have ex: "(1::nat) < next_ctx ?h" and cur: "get_current_span 1 ?h = Some 1"
    by (simp_all add: ex_calls_def ex_empty_def getter_defs clone_ctxs add_span_ctxs)
  from root_span_id_never_set [OF reach ex] reach ex cur show ?thesis
    by (simp only: Let_def simp_thms)
qed

end
