(* ===== verification/Noninterference.thy ===== *)
theory Noninterference
  imports Context_System
begin

text \<open>
  What one context can observe of the calls on the others, in a system where
  no span is added to two contexts: nothing. The attributes of a context and
  the spans that belong to it are, after any disciplined sequence of calls,
  what they are when the calls on all other contexts are left out of the
  sequence. Creations and clones stay in the purged sequence, so that both
  runs hand out the same addresses.
\<close>

section \<open>The exact writes of a step\<close>

lemma step_context:
  "sp_context (spans (final (step self e h)) r) =
     (if e = AddSpan (Some r) then Some self else sp_context (spans h r))"
proof (cases e)
  case (AddSpan span)
  then show ?thesis by (cases span) (auto simp: add_span_context)
qed (auto simp: set_sampling_priority_spans set_dd_origin_spans split: option.splits)

text \<open>
  A step of a context is a function of the attributes of the context, of the
  shape of the store and of the span it writes: in two states that agree on
  these it does the same.
\<close>

lemma step_cong:
  assumes ctx: "ctxs h2 self = ctxs h1 self"
    and shape: "same_shape (spans h1) (spans h2)"
  shows "ctxs (final (step self e h2)) self = ctxs (final (step self e h1)) self"
    and "spans h2 r = spans h1 r
      \<Longrightarrow> spans (final (step self e h2)) r = spans (final (step self e h1)) r"
    and "raised (step self e h2) = raised (step self e h1)"
proof -
  note eqs = same_shapeD [OF shape]
  show "ctxs (final (step self e h2)) self = ctxs (final (step self e h1)) self"
    using ctx eqs
    by (cases e rule: carries_span.cases)
      (simp_all add: Let_def add_span_ctxs close_span_ctxs close_span_None_ctxs
        set_sampling_priority_ctxs set_dd_origin_ctxs cong: option.case_cong)
  show "spans (final (step self e h2)) r = spans (final (step self e h1)) r"
    if "spans h2 r = spans h1 r"
    using that ctx eqs
    by (cases e rule: carries_span.cases)
      (auto simp: add_span_def Let_def ctx_defs heap_defs split: option.splits)
  show "raised (step self e h2) = raised (step self e h1)"
    by (cases e rule: carries_span.cases) simp_all
qed

section \<open>The run and the purged run\<close>

text \<open>
  The calls that stay when a sequence is purged for the context \<open>c\<close>: the
  calls on \<open>c\<close>, and every creation and clone.
\<close>

fun kept :: "ctx_ref \<Rightarrow> call \<Rightarrow> bool" where
  "kept c (Call self e) \<longleftrightarrow> self = c"
| "kept c (Clone self) \<longleftrightarrow> True"
| "kept c (New t s p d) \<longleftrightarrow> True"

definition purge :: "ctx_ref \<Rightarrow> call list \<Rightarrow> call list" where
  "purge c = filter (kept c)"

text \<open>
  \<open>purged_rel c h1 h2\<close> relates the state \<open>h1\<close> of the run to the state \<open>h2\<close> of
  the purged run: the context \<open>c\<close> is the same in both, the same addresses
  are in use, and every span that belongs to \<open>c\<close> or to no context in the run
  is the same in both. The spans of the other contexts of the run have not
  been written in the purged run.
\<close>

definition purged_rel :: "ctx_ref \<Rightarrow> heap \<Rightarrow> heap \<Rightarrow> bool" where
  "purged_rel c h1 h2 \<longleftrightarrow>
     ctxs h2 c = ctxs h1 c \<and> next_ctx h2 = next_ctx h1 \<and>
     same_shape (spans h1) (spans h2) \<and>
     (\<forall>r. sp_context (spans h1 r) \<in> {None, Some c} \<longrightarrow> spans h2 r = spans h1 r)"

lemma purged_relD:
  assumes "purged_rel c h1 h2"
  shows "ctxs h2 c = ctxs h1 c" and "next_ctx h2 = next_ctx h1"
    and "same_shape (spans h1) (spans h2)"
    and "sp_context (spans h1 r) = None \<Longrightarrow> spans h2 r = spans h1 r"
    and "sp_context (spans h1 r) = Some c \<Longrightarrow> spans h2 r = spans h1 r"
  using assms by (simp_all add: purged_rel_def)

lemma purged_rel_refl [simp]: "purged_rel c h h"
  by (simp add: purged_rel_def)

text \<open>A disciplined call on another context is not seen (it respects the view).\<close>

lemma other_call_purged:
  assumes rel: "purged_rel c h1 h2" and ne: "self \<noteq> c"
    and inv: "ctx_inv self h1" and d: "disciplined h1 (Call self e)"
  shows "purged_rel c (final (step self e h1)) h2"
proof -
  let ?h1' = "final (step self e h1)"
  have "spans h2 r = spans h1 r \<and> spans ?h1' r = spans h1 r"
    if r: "sp_context (spans ?h1' r) \<in> {None, Some c}" for r
  proof -
    from r ne have e: "e \<noteq> AddSpan (Some r)" and old: "sp_context (spans h1 r) \<in> {None, Some c}"
      by (auto simp: step_context split: if_splits)
    from inv old ne have "c_local_root_span (ctxs h1 self) \<noteq> Some r"
      by (auto simp: ctx_inv_def root_owned_def)
    with e have "written_span self e h1 \<noteq> Some r"
      by (cases e) auto
    then have "spans ?h1' r = spans h1 r" by (rule step_span_frame)
    with old rel show ?thesis by (auto simp: purged_rel_def)
  qed
  moreover have "same_shape (spans ?h1') (spans h2)"
    using same_shape_sym [OF step_shape [of h1 self e]] purged_relD(3) [OF rel]
    by (rule same_shape_trans)
  ultimately show ?thesis
    using rel ne by (simp add: purged_rel_def step_other_ctx)
qed

text \<open>A disciplined call on the context itself does the same in both runs.\<close>

lemma own_call_purged:
  assumes rel: "purged_rel c h1 h2" and d: "disciplined h1 (Call c e)"
  shows "purged_rel c (final (step c e h1)) (final (step c e h2))"
    and "disciplined h2 (Call c e)"
proof -
  note ctx = purged_relD(1) [OF rel] and shape = purged_relD(3) [OF rel]
  have "spans (final (step c e h2)) r = spans (final (step c e h1)) r"
    if "sp_context (spans (final (step c e h1)) r) \<in> {None, Some c}" for r
  proof (rule step_cong(2) [OF ctx shape])
    from that d have "sp_context (spans h1 r) \<in> {None, Some c}"
      by (auto simp: step_context disciplined_def split: if_splits)
    with rel show "spans h2 r = spans h1 r" by (auto simp: purged_rel_def)
  qed
  moreover have "same_shape (spans (final (step c e h1))) (spans (final (step c e h2)))"
    using same_shape_trans [OF same_shape_sym [OF step_shape] same_shape_trans [OF shape step_shape]] .
  ultimately show "purged_rel c (final (step c e h1)) (final (step c e h2))"
    using rel by (simp add: purged_rel_def step_cong(1) [OF ctx shape])
  show "disciplined h2 (Call c e)"
    using d rel by (auto simp: disciplined_def purged_rel_def split: event.splits option.splits)
qed

text \<open>Creations and clones are made in both runs, at the same address.\<close>

lemma alloc_purged:
  assumes rel: "purged_rel c h1 h2" and c: "c < next_ctx h1"
  shows "purged_rel c (snd (clone self h1)) (snd (clone self h2))"
    and "purged_rel c (snd (alloc_ctx x h1)) (snd (alloc_ctx x h2))"
  using assms by (simp_all add: purged_rel_def clone_ctxs)

text \<open>
  One transition of the run: a call that stays is matched by the same call
  in the purged run, a call that is left out by no call.
\<close>

lemma purged_step:
  assumes ex: "sys_exec x h1 = Some h1a" and d: "disciplined h1 x"
    and rel: "purged_rel c h1 h2" and inv: "all_inv h1" and c: "c < next_ctx h1"
  shows "if kept c x
     then \<exists>h2a. disciplined h2 x \<and> sys_exec x h2 = Some h2a \<and> purged_rel c h1a h2a
     else purged_rel c h1a h2"
proof (cases x)
  case (Call self e)
  with ex have self: "self < next_ctx h1" and h1a: "h1a = final (step self e h1)"
    by (simp_all split: if_splits)
  from inv self have "ctx_inv self h1" by (simp add: all_inv_def)
  with own_call_purged [OF rel, of e] other_call_purged [OF rel, of self e]
    d Call self h1a purged_relD(2) [OF rel]
  show ?thesis by auto
next
  case (Clone self)
  with ex alloc_purged(1) [OF rel c, of self] purged_relD(2) [OF rel] show ?thesis
    by (auto simp: disciplined_def split: if_splits)
next
  case (New t s p d)
  with ex alloc_purged(2) [OF rel c, of "init t s p d"] show ?thesis
    by (auto simp: disciplined_def)
qed

lemma purged_run:
  assumes "sys_run_d cs h1 = Some h1'" and "purged_rel c h1 h2"
    and "all_inv h1" and "c < next_ctx h1"
  shows "\<exists>h2'. sys_run_d (purge c cs) h2 = Some h2' \<and> purged_rel c h1' h2'"
  using assms
proof (induction cs arbitrary: h1 h2)
  case Nil
  then show ?case by (simp add: purge_def)
next
  case (Cons x cs)
  from Cons.prems(1) obtain h1a where d: "disciplined h1 x"
    and ex: "sys_exec x h1 = Some h1a" and rest: "sys_run_d cs h1a = Some h1'"
    by (auto split: option.splits if_splits)
  from ex have step: "sys_step h1 x h1a" by (simp add: sys_exec_iff)
  from step d Cons.prems(3) have inv: "all_inv h1a"
    by (rule disciplined_step_keeps_all_inv)
  from sys_step_next_ctx [OF step] Cons.prems(4) have c: "c < next_ctx h1a" by simp
  note IH = Cons.IH [OF rest _ inv c]
  from purged_step [OF ex d Cons.prems(2,3,4)] IH show ?case
    by (cases "kept c x") (auto simp: purge_def)
qed

section \<open>Noninterference\<close>

text \<open>
  C17. In a system where no span is added to two contexts, the calls on the
  other contexts do not interfere with a context: after any disciplined
  sequence of calls from a reachable state, the sequence without the calls on
  the other contexts can be run as well, and it leaves the context and every
  span that belongs to it as the whole sequence does.
\<close>

theorem noninterference:
  assumes "reachable_d h" and "c < next_ctx h" and "sys_run_d cs h = Some h1"
  shows "\<exists>h2. sys_run_d (purge c cs) h = Some h2 \<and> ctxs h2 c = ctxs h1 c \<and>
     (\<forall>r. sp_context (spans h1 r) = Some c \<longrightarrow> spans h2 r = spans h1 r)"
proof -
  from assms(1) have "all_inv h" by (rule reachable_d_all_inv)
  from purged_run [OF assms(3) purged_rel_refl this assms(2)]
  show ?thesis by (auto simp: purged_rel_def)
qed

text \<open>
  The instance: two contexts over the example spans; span 0 is added to the
  first and span 3 to the second, and each context sets its own sampling
  priority. Without the calls on the second context, the first context and
  span 0 are the same; span 3 is not, which then belongs to no context.
\<close>

definition ex_two :: heap where
  "ex_two = the (sys_run_d [New None None None None, New None None None None] ex_empty)"

definition ex_interleaved :: "call list" where
  "ex_interleaved =
     [Call 0 (AddSpan (Some 0)), Call 1 (AddSpan (Some 3)),
      Call 1 (SetSamplingPriority (Some 1)), Call 0 (SetSamplingPriority (Some 2)),
      Call 1 (CloseSpan (Some 3))]"

lemma ex_two_reachable: "reachable_d ex_two"
proof -
  have "sys_run_d [New None None None None, New None None None None] ex_empty = Some ex_two"
    by (simp add: ex_two_def disciplined_def)
  with reachable_d.d_start [OF ex_empty_initial] show ?thesis
    by (rule sys_run_d_reachable)
qed

theorem noninterference_witness:
  "let h1 = the (sys_run_d ex_interleaved ex_two);
       h2 = the (sys_run_d [Call 0 (AddSpan (Some 0)), Call 0 (SetSamplingPriority (Some 2))]
                   ex_two) in
     reachable_d ex_two \<and> (0::nat) < next_ctx ex_two \<and>
     sys_run_d ex_interleaved ex_two = Some h1 \<and>
     purge 0 ex_interleaved = [Call 0 (AddSpan (Some 0)), Call 0 (SetSamplingPriority (Some 2))] \<and>
     ctxs h2 0 = ctxs h1 0 \<and> sp_context (spans h1 0) = Some 0 \<and> spans h2 0 = spans h1 0 \<and>
     sp_context (spans h1 3) = Some 1 \<and> spans h2 3 \<noteq> spans h1 3"
proof -
  let ?own = "[Call 0 (AddSpan (Some 0)), Call 0 (SetSamplingPriority (Some 2))]"
  let ?h1 = "the (sys_run_d ex_interleaved ex_two)"
  let ?h2 = "the (sys_run_d ?own ex_two)"
  note ex_defs = ex_interleaved_def ex_two_def ex_empty_def disciplined_def
  have c: "(0::nat) < next_ctx ex_two"
    by (simp add: ex_defs)
  have "\<exists>h. sys_run_d ex_interleaved ex_two = Some h"
    by (simp add: ex_defs step_context del: step.simps)
  then have run: "sys_run_d ex_interleaved ex_two = Some ?h1"
    by auto
  have purged: "purge 0 ex_interleaved = ?own"
    by (simp add: purge_def ex_interleaved_def)
  have own: "sp_context (spans ?h1 0) = Some 0" and other: "sp_context (spans ?h1 3) = Some 1"
    by (simp_all add: ex_defs step_context del: step.simps)
  have "sp_context (spans ?h2 3) = None"
    by (simp add: ex_defs step_context del: step.simps)
  with other have differ: "spans ?h2 3 \<noteq> spans ?h1 3"
    by (auto simp del: sys_run_d.simps)
  from noninterference [OF ex_two_reachable c run] obtain h2
    where "sys_run_d (purge 0 ex_interleaved) ex_two = Some h2"
      and ctx: "ctxs h2 0 = ctxs ?h1 0"
      and sp: "\<forall>r. sp_context (spans ?h1 r) = Some 0 \<longrightarrow> spans h2 r = spans ?h1 r"
    by blast
  then have "?h2 = h2"
    by (simp only: purged option.sel)
  with ctx sp own have "ctxs ?h2 0 = ctxs ?h1 0" and "spans ?h2 0 = spans ?h1 0"
    by (simp_all del: sys_run_d.simps)
  with ex_two_reachable c run purged own other differ show ?thesis
    by (simp only: Let_def simp_thms)
qed

end
