(* ===== verification/Line_Steps.thy ===== *)
theory Line_Steps
  imports Context_Invariants
begin

text \<open>
  The four methods of \<^verbatim>\<open>src/ddtrace/context.py\<close> that write to the store, one
  source line at a time. The class takes no lock, so a second thread can run
  between two lines of a call; the definitions of \<open>Trace_Context\<close> describe a
  call that runs alone. Here a call in progress is an \<open>activation\<close>: the line
  it stands at, \<open>self\<close>, the arguments, and, inside \<^verbatim>\<open>_set_current_span\<close>, the
  method's own argument and the caller to return to. \<open>line\<close> executes the
  line an activation stands at; \<open>exec\<close> runs it to the end.

  A program point is named after its line: \<open>L94\<close> is line 94,
  \<^verbatim>\<open>if not span._parent:\<close>. Lines that hold a signature, a comment, a
  docstring or \<^verbatim>\<open>else:\<close> are no program points. Every line reads the
  attributes it mentions at the moment it runs: line 33 reads
  \<^verbatim>\<open>self._local_root_span\<close> again after line 32 has tested it, and raises
  \<open>AttributeError\<close> when the attribute has become \<open>None\<close> in between.

  A line is one step. CPython switches threads between bytecode instructions,
  of which a line has several; every interleaving of lines is one of
  instructions, so what two threads can do to each other here they can do in
  CPython.

  The theory shows that an activation run alone is the method of
  \<open>Trace_Context\<close> (C13), and what a line reads and writes: the context
  \<open>self\<close>, the identifiers and parent links of spans, which nothing writes,
  and at most one span, \<open>writes_span\<close>. Two lines of activations on
  different contexts that write different spans commute.
\<close>

section \<open>Program points and activations\<close>

datatype pc =
    L32 | L33 | L34
  | L42 | L43 | L44
  | L84 | L85 | L86 | L87 | L89
  | L94 | L95 | L96 | L97 | L98 | L99 | L100 | L101
  | L104 | L105 | L107 | L108 | L109
  | Returned | Raised

datatype caller = From_add_span | From_close_span

record activation =
  a_pc :: pc
  a_self :: ctx_ref
  a_span :: "span_ref option"
  a_priority :: "int option"
  a_origin :: "string option"
  a_inner :: "span_ref option"
  a_caller :: caller

text \<open>
  \<open>a_span\<close> is the argument \<^verbatim>\<open>span\<close> of \<^verbatim>\<open>add_span\<close> and \<^verbatim>\<open>close_span\<close>,
  \<open>a_priority\<close> and \<open>a_origin\<close> the argument \<^verbatim>\<open>value\<close> of the two setters,
  \<open>a_inner\<close> the argument \<^verbatim>\<open>span\<close> of \<^verbatim>\<open>_set_current_span\<close>. An activation at
  \<open>Returned\<close> or \<open>Raised\<close> has ended.
\<close>

definition goto :: "pc \<Rightarrow> activation \<Rightarrow> activation" where
  "goto l a = a\<lparr>a_pc := l\<rparr>"

definition finished :: "activation \<Rightarrow> bool" where
  "finished a \<longleftrightarrow> a_pc a = Returned \<or> a_pc a = Raised"

fun return_to :: "caller \<Rightarrow> pc" where
  "return_to From_add_span = L101"
| "return_to From_close_span = Returned"

section \<open>The lines of each method\<close>

text \<open>
  One definition per method, one case per line. A line that reads an
  attribute of a variable that holds \<open>None\<close> raises; a line outside the
  method leaves the activation where it is.
\<close>

definition sampling_priority_setter_line :: "activation \<Rightarrow> heap \<Rightarrow> activation \<times> heap" where
  "sampling_priority_setter_line a h =
     (case a_pc a of
        L32 \<Rightarrow> (goto (if c_local_root_span (ctxs h (a_self a)) \<noteq> None then L33 else L34) a, h)
      | L33 \<Rightarrow>
          (case c_local_root_span (ctxs h (a_self a)) of
             None \<Rightarrow> (goto Raised a, h)
           | Some root \<Rightarrow>
               (goto L34 a, upd_spans (set_metric root SAMPLING_PRIORITY_KEY (a_priority a)) h))
      | L34 \<Rightarrow>
          (goto Returned a, upd_ctx (a_self a) (\<lambda>c. c\<lparr>c_sampling_priority := a_priority a\<rparr>) h)
      | _ \<Rightarrow> (a, h))"

definition dd_origin_setter_line :: "activation \<Rightarrow> heap \<Rightarrow> activation \<times> heap" where
  "dd_origin_setter_line a h =
     (case a_pc a of
        L42 \<Rightarrow> (goto (if c_local_root_span (ctxs h (a_self a)) \<noteq> None then L43 else L44) a, h)
      | L43 \<Rightarrow>
          (case c_local_root_span (ctxs h (a_self a)) of
             None \<Rightarrow> (goto Raised a, h)
           | Some root \<Rightarrow> (goto L44 a, upd_spans (set_meta root ORIGIN_KEY (a_origin a)) h))
      | L44 \<Rightarrow> (goto Returned a, upd_ctx (a_self a) (\<lambda>c. c\<lparr>c_dd_origin := a_origin a\<rparr>) h)
      | _ \<Rightarrow> (a, h))"

definition set_current_span_line :: "activation \<Rightarrow> heap \<Rightarrow> activation \<times> heap" where
  "set_current_span_line a h =
     (case a_pc a of
        L84 \<Rightarrow> (goto L85 a, upd_ctx (a_self a) (\<lambda>c. c\<lparr>c_active_span := a_inner a\<rparr>) h)
      | L85 \<Rightarrow> (goto (if a_inner a \<noteq> None then L86 else L89) a, h)
      | L86 \<Rightarrow>
          (case a_inner a of
             None \<Rightarrow> (goto Raised a, h)
           | Some s \<Rightarrow>
               (goto L87 a,
                upd_ctx (a_self a) (\<lambda>c. c\<lparr>c_trace_id := Some (sp_trace_id (spans h s))\<rparr>) h))
      | L87 \<Rightarrow>
          (case a_inner a of
             None \<Rightarrow> (goto Raised a, h)
           | Some s \<Rightarrow>
               (goto (return_to (a_caller a)) a,
                upd_ctx (a_self a) (\<lambda>c. c\<lparr>c_active_span_id := Some (sp_span_id (spans h s))\<rparr>) h))
      | L89 \<Rightarrow>
          (goto (return_to (a_caller a)) a,
           upd_ctx (a_self a) (\<lambda>c. c\<lparr>c_active_span_id := None\<rparr>) h)
      | _ \<Rightarrow> (a, h))"

definition add_span_line :: "activation \<Rightarrow> heap \<Rightarrow> activation \<times> heap" where
  "add_span_line a h =
     (case a_pc a of
        L94 \<Rightarrow>
          (case a_span a of
             None \<Rightarrow> (goto Raised a, h)
           | Some s \<Rightarrow> (goto (if sp_parent (spans h s) = None then L95 else L100) a, h))
      | L95 \<Rightarrow> (goto L96 a, upd_ctx (a_self a) (\<lambda>c. c\<lparr>c_local_root_span := a_span a\<rparr>) h)
      | L96 \<Rightarrow> (goto (if dd_origin (a_self a) h \<noteq> None then L97 else L98) a, h)
      | L97 \<Rightarrow>
          (case a_span a of
             None \<Rightarrow> (goto Raised a, h)
           | Some s \<Rightarrow>
               (goto L98 a, upd_spans (set_meta s ORIGIN_KEY (dd_origin (a_self a) h)) h))
      | L98 \<Rightarrow> (goto (if sampling_priority (a_self a) h \<noteq> None then L99 else L100) a, h)
      | L99 \<Rightarrow>
          (case a_span a of
             None \<Rightarrow> (goto Raised a, h)
           | Some s \<Rightarrow>
               (goto L100 a,
                upd_spans (set_metric s SAMPLING_PRIORITY_KEY (sampling_priority (a_self a) h)) h))
      | L100 \<Rightarrow> (a\<lparr>a_pc := L84, a_inner := a_span a, a_caller := From_add_span\<rparr>, h)
      | L101 \<Rightarrow>
          (case a_span a of
             None \<Rightarrow> (goto Raised a, h)
           | Some s \<Rightarrow> (goto Returned a, upd_spans (set_context s (a_self a)) h))
      | _ \<Rightarrow> (a, h))"

definition close_span_line :: "activation \<Rightarrow> heap \<Rightarrow> activation \<times> heap" where
  "close_span_line a h =
     (case a_pc a of
        L104 \<Rightarrow>
          (goto (if a_span a = c_local_root_span (ctxs h (a_self a)) then L105 else L109) a, h)
      | L105 \<Rightarrow> (goto L107 a, upd_ctx (a_self a) (\<lambda>c. c\<lparr>c_local_root_span := None\<rparr>) h)
      | L107 \<Rightarrow> (goto L108 a, upd_ctx (a_self a) (\<lambda>c. c\<lparr>c_trace_root_span_id := None\<rparr>) h)
      | L108 \<Rightarrow> (goto L109 a, upd_ctx (a_self a) (\<lambda>c. c\<lparr>c_trace_id := None\<rparr>) h)
      | L109 \<Rightarrow>
          (case a_span a of
             None \<Rightarrow> (goto Raised a, h)
           | Some s \<Rightarrow>
               (a\<lparr>a_pc := L84, a_inner := sp_parent (spans h s), a_caller := From_close_span\<rparr>, h))
      | _ \<Rightarrow> (a, h))"

datatype routine =
    Set_sampling_priority | Set_dd_origin | Set_current_span | Add_span | Close_span

fun routine_of :: "pc \<Rightarrow> routine option" where
  "routine_of L32 = Some Set_sampling_priority"
| "routine_of L33 = Some Set_sampling_priority"
| "routine_of L34 = Some Set_sampling_priority"
| "routine_of L42 = Some Set_dd_origin"
| "routine_of L43 = Some Set_dd_origin"
| "routine_of L44 = Some Set_dd_origin"
| "routine_of L84 = Some Set_current_span"
| "routine_of L85 = Some Set_current_span"
| "routine_of L86 = Some Set_current_span"
| "routine_of L87 = Some Set_current_span"
| "routine_of L89 = Some Set_current_span"
| "routine_of L94 = Some Add_span"
| "routine_of L95 = Some Add_span"
| "routine_of L96 = Some Add_span"
| "routine_of L97 = Some Add_span"
| "routine_of L98 = Some Add_span"
| "routine_of L99 = Some Add_span"
| "routine_of L100 = Some Add_span"
| "routine_of L101 = Some Add_span"
| "routine_of L104 = Some Close_span"
| "routine_of L105 = Some Close_span"
| "routine_of L107 = Some Close_span"
| "routine_of L108 = Some Close_span"
| "routine_of L109 = Some Close_span"
| "routine_of Returned = None"
| "routine_of Raised = None"

definition line :: "activation \<Rightarrow> heap \<Rightarrow> activation \<times> heap" where
  "line a h =
     (case routine_of (a_pc a) of
        None \<Rightarrow> (a, h)
      | Some Set_sampling_priority \<Rightarrow> sampling_priority_setter_line a h
      | Some Set_dd_origin \<Rightarrow> dd_origin_setter_line a h
      | Some Set_current_span \<Rightarrow> set_current_span_line a h
      | Some Add_span \<Rightarrow> add_span_line a h
      | Some Close_span \<Rightarrow> close_span_line a h)"

lemmas line_defs = line_def sampling_priority_setter_line_def dd_origin_setter_line_def
  set_current_span_line_def add_span_line_def close_span_line_def goto_def

section \<open>Calls\<close>

text \<open>The activation a call starts with: at the first line of the method.\<close>

fun entry :: "event \<Rightarrow> pc" where
  "entry (AddSpan span) = L94"
| "entry (CloseSpan span) = L104"
| "entry (SetSamplingPriority v) = L32"
| "entry (SetOrigin v) = L42"

definition invoke :: "ctx_ref \<Rightarrow> event \<Rightarrow> activation" where
  "invoke self e =
     \<lparr>a_pc = entry e, a_self = self,
      a_span = (case e of AddSpan span \<Rightarrow> span | CloseSpan span \<Rightarrow> span | _ \<Rightarrow> None),
      a_priority = (case e of SetSamplingPriority v \<Rightarrow> v | _ \<Rightarrow> None),
      a_origin = (case e of SetOrigin v \<Rightarrow> v | _ \<Rightarrow> None),
      a_inner = None, a_caller = From_add_span\<rparr>"

section \<open>Running an activation to its end\<close>

text \<open>
  No method has a loop: \<open>lines_left\<close> bounds the lines an activation still
  runs, and every line lowers it. Twelve lines are the longest call, an
  \<^verbatim>\<open>add_span\<close> of a parentless span on a context with an origin and a
  sampling priority.
\<close>

fun rank :: "pc \<Rightarrow> caller \<Rightarrow> nat" where
  "rank Returned k = 0"
| "rank Raised k = 0"
| "rank L34 k = 1" | "rank L33 k = 2" | "rank L32 k = 3"
| "rank L44 k = 1" | "rank L43 k = 2" | "rank L42 k = 3"
| "rank L101 k = 1"
| "rank L87 From_add_span = 2" | "rank L87 From_close_span = 1"
| "rank L89 From_add_span = 2" | "rank L89 From_close_span = 1"
| "rank L86 From_add_span = 3" | "rank L86 From_close_span = 2"
| "rank L85 From_add_span = 4" | "rank L85 From_close_span = 3"
| "rank L84 From_add_span = 5" | "rank L84 From_close_span = 4"
| "rank L100 k = 6" | "rank L99 k = 7" | "rank L98 k = 8" | "rank L97 k = 9"
| "rank L96 k = 10" | "rank L95 k = 11" | "rank L94 k = 12"
| "rank L109 k = 5" | "rank L108 k = 6" | "rank L107 k = 7" | "rank L105 k = 8"
| "rank L104 k = 9"

definition lines_left :: "activation \<Rightarrow> nat" where
  "lines_left a = rank (a_pc a) (a_caller a)"

lemma lines_left_0: "lines_left a = 0 \<longleftrightarrow> finished a"
  by (cases "a_pc a"; cases "a_caller a") (simp_all add: lines_left_def finished_def)

lemma line_finished: "finished a \<Longrightarrow> line a h = (a, h)"
  by (auto simp: finished_def line_def)

lemma line_decreases: "\<not> finished a \<Longrightarrow> lines_left (fst (line a h)) < lines_left a"
  by (cases "a_pc a"; cases "a_caller a")
    (simp_all add: finished_def lines_left_def line_defs split: option.splits)

function exec :: "activation \<Rightarrow> heap \<Rightarrow> activation \<times> heap" where
  "exec a h = (if finished a then (a, h) else exec (fst (line a h)) (snd (line a h)))"
  by pat_completeness auto
termination
  by (relation "measure (\<lambda>p. lines_left (fst p))") (simp_all add: line_decreases)

declare exec.simps [simp del]

text \<open>The result of a call as \<open>Trace_Context\<close> has it.\<close>

definition outcome :: "activation \<times> heap \<Rightarrow> heap result" where
  "outcome r = (if a_pc (fst r) = Raised then Inl (AttributeError, snd r) else Inr (snd r))"

section \<open>An activation run alone is the method\<close>

lemma exec_finished [simp]: "finished a \<Longrightarrow> exec a h = (a, h)"
  by (simp add: exec.simps)

lemma exec_line: "\<not> finished a \<Longrightarrow> exec a h = exec (fst (line a h)) (snd (line a h))"
  by (subst exec.simps) simp

lemma finished_simps [simp]:
  "finished (a\<lparr>a_pc := l\<rparr>) \<longleftrightarrow> l = Returned \<or> l = Raised"
  "finished (goto l a) \<longleftrightarrow> l = Returned \<or> l = Raised"
  by (simp_all add: finished_def goto_def)

lemma goto_simps [simp]:
  "a_pc (goto l a) = l"
  "a_self (goto l a) = a_self a"
  "a_span (goto l a) = a_span a"
  "a_priority (goto l a) = a_priority a"
  "a_origin (goto l a) = a_origin a"
  "a_inner (goto l a) = a_inner a"
  "a_caller (goto l a) = a_caller a"
  "goto l' (goto l a) = goto l' a"
  by (simp_all add: goto_def)

lemma exec_at:
  assumes "a_pc a = l" and "l \<noteq> Returned" and "l \<noteq> Raised"
  shows "exec a h = exec (fst (line a h)) (snd (line a h))"
  using assms by (intro exec_line) (simp add: finished_def)

lemma exec_set_current_span:
  assumes "a_pc a = L84"
  shows "exec a h =
     exec (goto (return_to (a_caller a)) a) (set_current_span (a_self a) (a_inner a) h)"
  using assms
  by (cases "a_inner a")
    (simp_all add: exec_at [where l = L84] exec_at [where l = L85] exec_at [where l = L86]
      exec_at [where l = L87] exec_at [where l = L89]
      line_def set_current_span_line_def set_current_span_def Let_def comp_assoc)

lemmas exec_lines =
  exec_at [where l = L32] exec_at [where l = L33] exec_at [where l = L34]
  exec_at [where l = L42] exec_at [where l = L43] exec_at [where l = L44]
  exec_at [where l = L94] exec_at [where l = L95] exec_at [where l = L96]
  exec_at [where l = L97] exec_at [where l = L98] exec_at [where l = L99]
  exec_at [where l = L100] exec_at [where l = L101]
  exec_at [where l = L104] exec_at [where l = L105] exec_at [where l = L107]
  exec_at [where l = L108] exec_at [where l = L109]

lemma invoke_simps [simp]:
  "a_pc (invoke self e) = entry e"
  "a_self (invoke self e) = self"
  "a_span (invoke self (AddSpan span)) = span"
  "a_span (invoke self (CloseSpan span)) = span"
  "a_priority (invoke self (SetSamplingPriority p)) = p"
  "a_origin (invoke self (SetOrigin d)) = d"
  by (simp_all add: invoke_def)

lemma exec_set_sampling_priority:
  "outcome (exec (invoke self (SetSamplingPriority v)) h) = Inr (set_sampling_priority self v h)"
  by (simp add: exec_lines line_def sampling_priority_setter_line_def outcome_def
      set_sampling_priority_def Let_def split: option.splits)

lemma exec_set_dd_origin:
  "outcome (exec (invoke self (SetOrigin v)) h) = Inr (set_dd_origin self v h)"
  by (simp add: exec_lines line_def dd_origin_setter_line_def outcome_def
      set_dd_origin_def Let_def split: option.splits)

lemma exec_add_span: "outcome (exec (invoke self (AddSpan span)) h) = add_span self span h"
  by (simp add: exec_lines exec_set_current_span line_def add_span_line_def outcome_def
      add_span_def Let_def getter_defs split: option.splits)

lemma exec_close_span: "outcome (exec (invoke self (CloseSpan span)) h) = close_span self span h"
  by (simp add: exec_lines exec_set_current_span line_def close_span_line_def outcome_def
      close_span_def Let_def comp_assoc split: option.splits)

lemma exec_invoke: "outcome (exec (invoke self e) h) = step self e h"
  by (cases e)
    (simp_all add: exec_set_sampling_priority exec_set_dd_origin exec_add_span exec_close_span)

lemma exec_finishes: "finished (fst (exec a h))"
  by (induction a h rule: exec.induct) (subst exec.simps, simp)

lemma lines_left_le: "lines_left a \<le> 12"
  by (cases "a_pc a"; cases "a_caller a") (simp_all add: lines_left_def)

lemma funpow_line_exec:
  "lines_left a \<le> n \<Longrightarrow> ((\<lambda>(a, h). line a h) ^^ n) (a, h) = exec a h"
proof (induction n arbitrary: a h)
  case 0
  then show ?case by (simp add: lines_left_0)
next
  case (Suc n)
  show ?case
  proof (cases "finished a")
    case True
    with Suc.IH [of a h] show ?thesis
      by (simp add: funpow_swap1 line_finished lines_left_0 [symmetric])
  next
    case False
    with Suc.prems line_decreases [of a h] have "lines_left (fst (line a h)) \<le> n"
      by simp
    from Suc.IH [OF this, of "snd (line a h)"] False show ?thesis
      by (simp add: funpow_swap1 exec_line)
  qed
qed

text \<open>
  C13. A call that runs alone, line by line, is the method of the class: from
  every state, running the lines of a call to the end leaves the state and
  the outcome (returned, or raised \<open>AttributeError\<close>) that the method
  definition gives, and twelve lines reach that end.
\<close>

theorem lines_implement_method:
  "outcome (exec (invoke self e) h) = step self e h \<and>
   finished (fst (exec (invoke self e) h)) \<and>
   ((\<lambda>(a, h). line a h) ^^ 12) (invoke self e, h) = exec (invoke self e) h"
  by (simp add: exec_invoke exec_finishes funpow_line_exec lines_left_le)

section \<open>What a line reads and writes\<close>

text \<open>
  The span a line writes, if it writes one: the root span of \<open>self\<close> in the
  setters, the argument in \<^verbatim>\<open>add_span\<close>. \<^verbatim>\<open>close_span\<close> and
  \<^verbatim>\<open>_set_current_span\<close> write no span.
\<close>

definition writes_span :: "activation \<Rightarrow> heap \<Rightarrow> span_ref option" where
  "writes_span a h =
     (case a_pc a of
        L33 \<Rightarrow> c_local_root_span (ctxs h (a_self a))
      | L43 \<Rightarrow> c_local_root_span (ctxs h (a_self a))
      | L97 \<Rightarrow> a_span a
      | L99 \<Rightarrow> a_span a
      | L101 \<Rightarrow> a_span a
      | _ \<Rightarrow> None)"

lemmas line_simps = line_defs writes_span_def heap_defs getter_defs same_shape_def

lemma line_other_ctx: "c \<noteq> a_self a \<Longrightarrow> ctxs (snd (line a h)) c = ctxs h c"
  by (cases "a_pc a") (simp_all add: line_simps split: option.splits)

lemma line_next_ctx [simp]: "next_ctx (snd (line a h)) = next_ctx h"
  by (cases "a_pc a") (simp_all add: line_simps split: option.splits)

lemma line_shape [frame]: "same_shape (spans h) (spans (snd (line a h)))"
  by (cases "a_pc a") (simp_all add: line_simps split: option.splits)

lemma line_other_span: "writes_span a h \<noteq> Some r \<Longrightarrow> spans (snd (line a h)) r = spans h r"
  by (cases "a_pc a") (auto simp: line_simps split: option.splits)

lemma line_self [simp]: "a_self (fst (line a h)) = a_self a"
  by (cases "a_pc a") (simp_all add: line_simps split: option.splits)

lemma line_span [simp]: "a_span (fst (line a h)) = a_span a"
  by (cases "a_pc a") (simp_all add: line_simps split: option.splits)

text \<open>
  The next program point, the attributes of \<open>self\<close> and the span written
  depend on the attributes of \<open>self\<close>, the shape of the store and the span
  written, and on nothing else.
\<close>

lemma line_local:
  assumes "ctxs h' (a_self a) = ctxs h (a_self a)" and "same_shape (spans h) (spans h')"
  shows "fst (line a h') = fst (line a h)"
    and "ctxs (snd (line a h')) (a_self a) = ctxs (snd (line a h)) (a_self a)"
    and "writes_span a h' = writes_span a h"
    and "spans h' r = spans h r \<Longrightarrow> spans (snd (line a h')) r = spans (snd (line a h)) r"
  using assms by (cases "a_pc a"; simp add: line_simps split: option.splits)+

lemma line_after_other:
  assumes "a_self a \<noteq> a_self b"
  shows "fst (line a (snd (line b h))) = fst (line a h)"
    and "writes_span a (snd (line b h)) = writes_span a h"
    and "ctxs (snd (line a (snd (line b h)))) (a_self a) = ctxs (snd (line a h)) (a_self a)"
    and "writes_span b h \<noteq> Some r \<Longrightarrow>
      spans (snd (line a (snd (line b h)))) r = spans (snd (line a h)) r"
proof -
  from assms have "ctxs (snd (line b h)) (a_self a) = ctxs h (a_self a)"
    by (simp add: line_other_ctx)
  note loc = line_local [OF this line_shape]
  from loc(1) show "fst (line a (snd (line b h))) = fst (line a h)" .
  from loc(3) show "writes_span a (snd (line b h)) = writes_span a h" .
  from loc(2)
  show "ctxs (snd (line a (snd (line b h)))) (a_self a) = ctxs (snd (line a h)) (a_self a)" .
  assume "writes_span b h \<noteq> Some r"
  then have "spans (snd (line b h)) r = spans h r"
    by (rule line_other_span)
  then show "spans (snd (line a (snd (line b h)))) r = spans (snd (line a h)) r"
    by (rule loc(4))
qed

text \<open>Lines on different contexts that do not write the same span commute.\<close>

lemma line_commute:
  assumes selves: "a_self a \<noteq> a_self b"
    and spans: "writes_span a h = None \<or> writes_span a h \<noteq> writes_span b h"
  shows "snd (line a (snd (line b h))) = snd (line b (snd (line a h)))"
proof (rule heap_eqI)
  show "next_ctx (snd (line a (snd (line b h)))) = next_ctx (snd (line b (snd (line a h))))"
    by simp
  show "ctxs (snd (line a (snd (line b h)))) = ctxs (snd (line b (snd (line a h))))"
  proof
    fix c
    consider "c = a_self a" | "c = a_self b" | "c \<noteq> a_self a" "c \<noteq> a_self b"
      by blast
    then show "ctxs (snd (line a (snd (line b h)))) c = ctxs (snd (line b (snd (line a h)))) c"
      using selves by cases (simp_all add: line_after_other line_other_ctx)
  qed
  show "spans (snd (line a (snd (line b h)))) = spans (snd (line b (snd (line a h))))"
  proof
    fix r
    from spans consider "writes_span a h \<noteq> Some r" "writes_span b h \<noteq> Some r"
      | "writes_span a h = Some r" "writes_span b h \<noteq> Some r"
      | "writes_span a h \<noteq> Some r" "writes_span b h = Some r"
      by fastforce
    then show "spans (snd (line a (snd (line b h)))) r = spans (snd (line b (snd (line a h)))) r"
      using selves selves [symmetric]
      by cases (simp_all add: line_after_other line_other_span)
  qed
qed

end
