(* ===== verification/Thread_Interleaving.thy ===== *)
theory Thread_Interleaving
  imports Line_Steps
begin

text \<open>
  Threads that run calls of \<^verbatim>\<open>src/ddtrace/context.py\<close> over one store, a line
  at a time, in any order a scheduler chooses. A thread is the activation it
  is in and the calls it still has to make; a schedule is the list of the
  threads that move, one line each.

  The specification (section 5) lets one execution unit own a context at a
  time. \<open>separated\<close> says so of a system: every context and every span
  handed to a call belongs to one thread, and the root span of a context to
  the owner of the context. Under it the lines of different threads commute,
  so every schedule that lets the threads finish leaves the store that the
  programs leave when they run one after the other, each call as a whole
  (C21). Whatever the others do, a thread that is scheduled thirteen times
  for each call it has to make, and twelve times more, has ended.
\<close>

section \<open>Threads\<close>

record thread =
  t_act :: activation
  t_todo :: "(ctx_ref \<times> event) list"

text \<open>
  A thread between two calls stands at \<open>Returned\<close>; its next step starts the
  next call. A thread whose call has raised stays where it is, as a thread
  with an uncaught exception ends.
\<close>

definition idle :: activation where
  "idle = \<lparr>a_pc = Returned, a_self = 0, a_span = None, a_priority = None, a_origin = None,
     a_inner = None, a_caller = From_add_span\<rparr>"

definition spawn :: "(ctx_ref \<times> event) list \<Rightarrow> thread" where
  "spawn prog = \<lparr>t_act = idle, t_todo = prog\<rparr>"

definition thread_step :: "thread \<Rightarrow> heap \<Rightarrow> thread \<times> heap" where
  "thread_step t h =
     (if a_pc (t_act t) = Returned then
        (case t_todo t of
           [] \<Rightarrow> (t, h)
         | (c, e) # es \<Rightarrow> (\<lparr>t_act = invoke c e, t_todo = es\<rparr>, h))
      else (t\<lparr>t_act := fst (line (t_act t) h)\<rparr>, snd (line (t_act t) h)))"

definition settled :: "thread \<Rightarrow> bool" where
  "settled t \<longleftrightarrow> a_pc (t_act t) = Raised \<or> a_pc (t_act t) = Returned \<and> t_todo t = []"

text \<open>
  \<open>settled\<close>: the thread makes no further step. \<open>budget\<close> bounds the steps
  it still makes: the lines left of its activation, and for each call to come
  one step to start it and twelve lines at most.
\<close>

definition budget :: "thread \<Rightarrow> nat" where
  "budget t = lines_left (t_act t) + 13 * length (t_todo t)"

section \<open>Systems of threads\<close>

type_synonym system = "(nat \<Rightarrow> thread) \<times> heap"

definition sched :: "nat \<Rightarrow> system \<Rightarrow> system" where
  "sched i s =
     (let t = thread_step (fst s i) (snd s) in ((fst s)(i := fst t), snd t))"

definition interleave :: "nat list \<Rightarrow> system \<Rightarrow> system" where
  "interleave sch = fold sched sch"

lemma thread_step_settled: "settled t \<Longrightarrow> thread_step t h = (t, h)"
  by (auto simp: settled_def thread_step_def line_finished finished_def)

lemma lines_left_invoke: "lines_left (invoke c e) \<le> 12"
  by (cases e) (simp_all add: lines_left_def invoke_def)

lemma thread_step_decreases:
  assumes "\<not> settled t"
  shows "budget (fst (thread_step t h)) < budget t"
proof (cases "a_pc (t_act t) = Returned")
  case True
  with assms obtain c e es where "t_todo t = (c, e) # es"
    by (cases "t_todo t") (auto simp: settled_def)
  with True lines_left_invoke [of c e] show ?thesis
    by (simp add: thread_step_def budget_def)
next
  case False
  with assms have "\<not> finished (t_act t)"
    by (simp add: settled_def finished_def)
  from line_decreases [OF this, of h] False show ?thesis
    by (simp add: thread_step_def budget_def)
qed

lemma sched_settled: "settled (fst s i) \<Longrightarrow> sched i s = s"
  by (simp add: sched_def thread_step_settled)

lemma sched_decreases: "\<not> settled (fst s i) \<Longrightarrow> budget (fst (sched i s) i) < budget (fst s i)"
  by (simp add: sched_def Let_def thread_step_decreases)

text \<open>\<open>run_thread i\<close> lets thread \<open>i\<close> alone move until it is settled.\<close>

function run_thread :: "nat \<Rightarrow> system \<Rightarrow> system" where
  "run_thread i s = (if settled (fst s i) then s else run_thread i (sched i s))"
  by pat_completeness auto
termination
  by (relation "measure (\<lambda>p. budget (fst (snd p) (fst p)))") (simp_all add: sched_decreases)

declare run_thread.simps [simp del]

definition serial :: "nat list \<Rightarrow> system \<Rightarrow> system" where
  "serial js = fold run_thread js"

lemma run_thread_settled [simp]: "settled (fst s i) \<Longrightarrow> run_thread i s = s"
  by (simp add: run_thread.simps)

lemma run_thread_sched: "run_thread i (sched i s) = run_thread i s"
  by (cases "settled (fst s i)") (simp_all add: sched_settled run_thread.simps [of i s])

lemma sched_other [simp]: "j \<noteq> i \<Longrightarrow> fst (sched i s) j = fst s j"
  by (simp add: sched_def Let_def)

section \<open>Threads that keep to their own contexts and spans\<close>

text \<open>
  \<open>co\<close> and \<open>so\<close> name the thread that owns a context and a span. A thread
  is at home when the context and the span of its activation and of the calls
  it has to make are its own.
\<close>

fun event_span :: "event \<Rightarrow> span_ref option" where
  "event_span (AddSpan span) = span"
| "event_span (CloseSpan span) = span"
| "event_span (SetSamplingPriority v) = None"
| "event_span (SetOrigin v) = None"

definition owns :: "(span_ref \<Rightarrow> nat) \<Rightarrow> nat \<Rightarrow> span_ref option \<Rightarrow> bool" where
  "owns so i x = (case x of None \<Rightarrow> True | Some s \<Rightarrow> so s = i)"

definition act_home :: "(ctx_ref \<Rightarrow> nat) \<Rightarrow> (span_ref \<Rightarrow> nat) \<Rightarrow> nat \<Rightarrow> activation \<Rightarrow> bool" where
  "act_home co so i a \<longleftrightarrow> finished a \<or> co (a_self a) = i \<and> owns so i (a_span a)"

definition at_home :: "(ctx_ref \<Rightarrow> nat) \<Rightarrow> (span_ref \<Rightarrow> nat) \<Rightarrow> nat \<Rightarrow> thread \<Rightarrow> bool" where
  "at_home co so i t \<longleftrightarrow>
     act_home co so i (t_act t) \<and>
     list_all (\<lambda>(c, e). co c = i \<and> owns so i (event_span e)) (t_todo t)"

definition roots_home :: "(ctx_ref \<Rightarrow> nat) \<Rightarrow> (span_ref \<Rightarrow> nat) \<Rightarrow> heap \<Rightarrow> bool" where
  "roots_home co so h \<longleftrightarrow> (\<forall>c. owns so (co c) (c_local_root_span (ctxs h c)))"

definition separated :: "(ctx_ref \<Rightarrow> nat) \<Rightarrow> (span_ref \<Rightarrow> nat) \<Rightarrow> system \<Rightarrow> bool" where
  "separated co so s \<longleftrightarrow> (\<forall>i. at_home co so i (fst s i)) \<and> roots_home co so (snd s)"

lemma owns_simps [simp]:
  "owns so i None"
  "owns so i (Some s) \<longleftrightarrow> so s = i"
  by (simp_all add: owns_def)

lemma a_span_invoke [simp]: "a_span (invoke c e) = event_span e"
  by (cases e) (simp_all add: invoke_def)

lemma writes_span_home:
  assumes "act_home co so i a" and "roots_home co so h" and "writes_span a h = Some r"
  shows "so r = i"
proof -
  from assms(3) have "\<not> finished a"
    by (auto simp: writes_span_def finished_def)
  with assms(1) have self: "co (a_self a) = i" and span: "owns so i (a_span a)"
    by (simp_all add: act_home_def)
  from assms(2) have "owns so (co (a_self a)) (c_local_root_span (ctxs h (a_self a)))"
    by (simp add: roots_home_def)
  with self span assms(3) show ?thesis
    by (cases "a_pc a") (simp_all add: writes_span_def)
qed

lemma line_act_home: "act_home co so i a \<Longrightarrow> act_home co so i (fst (line a h))"
  by (cases "finished a") (simp_all add: line_finished act_home_def)

lemma line_roots_home:
  assumes "act_home co so i a" and "roots_home co so h"
  shows "roots_home co so (snd (line a h))"
proof (cases "finished a")
  case True
  with assms(2) show ?thesis by (simp add: line_finished)
next
  case False
  with assms(1) have home: "co (a_self a) = i" "owns so i (a_span a)"
    by (simp_all add: act_home_def)
  have "owns so (co c) (c_local_root_span (ctxs (snd (line a h)) c))" for c
  proof -
    have "c_local_root_span (ctxs (snd (line a h)) c) = c_local_root_span (ctxs h c) \<or>
        c_local_root_span (ctxs (snd (line a h)) c) = None \<or>
        c = a_self a \<and> c_local_root_span (ctxs (snd (line a h)) c) = a_span a"
      by (cases "a_pc a") (simp_all add: line_simps split: option.splits)
    moreover from assms(2) have "owns so (co c) (c_local_root_span (ctxs h c))"
      by (simp add: roots_home_def)
    ultimately show ?thesis
      using home by auto
  qed
  then show ?thesis
    by (simp add: roots_home_def)
qed

lemma thread_step_finished:
  assumes "finished (t_act t)"
  shows "snd (thread_step t h) = h" and "fst (thread_step t h) = fst (thread_step t h')"
  using assms
  by (auto simp: thread_step_def line_finished finished_def split: list.splits)

lemma thread_step_line:
  "\<not> finished (t_act t) \<Longrightarrow>
     thread_step t h = (t\<lparr>t_act := fst (line (t_act t) h)\<rparr>, snd (line (t_act t) h))"
  by (simp add: thread_step_def finished_def)

lemma thread_step_home:
  assumes "at_home co so i t"
  shows "at_home co so i (fst (thread_step t h))"
proof (cases "a_pc (t_act t) = Returned")
  case True
  with assms show ?thesis
    by (auto simp: thread_step_def at_home_def act_home_def split: list.splits)
next
  case False
  with assms line_act_home [of co so i "t_act t" h] show ?thesis
    by (simp add: thread_step_def at_home_def)
qed

lemma thread_step_roots:
  assumes "at_home co so i t" and "roots_home co so h"
  shows "roots_home co so (snd (thread_step t h))"
proof (cases "finished (t_act t)")
  case True
  with assms(2) show ?thesis by (simp add: thread_step_finished)
next
  case False
  from assms have "roots_home co so (snd (line (t_act t) h))"
    by (intro line_roots_home [where i = i]) (simp_all add: at_home_def)
  with False show ?thesis by (simp add: thread_step_line)
qed

lemma sched_separated: "separated co so s \<Longrightarrow> separated co so (sched i s)"
  by (auto simp: separated_def sched_def Let_def intro: thread_step_home thread_step_roots)

lemma thread_step_after_other:
  assumes "i \<noteq> j" and "at_home co so i t" and "at_home co so j u" and "roots_home co so h"
  shows "fst (thread_step t (snd (thread_step u h))) = fst (thread_step t h)"
    and "snd (thread_step t (snd (thread_step u h))) = snd (thread_step u (snd (thread_step t h)))"
proof -
  consider "finished (t_act t)" | "finished (t_act u)"
    | "\<not> finished (t_act t)" "\<not> finished (t_act u)"
    by blast
  then have "fst (thread_step t (snd (thread_step u h))) = fst (thread_step t h) \<and>
    snd (thread_step t (snd (thread_step u h))) = snd (thread_step u (snd (thread_step t h)))"
  proof cases
    case 1
    then show ?thesis
      using thread_step_finished(2) [of t] by (simp add: thread_step_finished(1))
  next
    case 2
    then show ?thesis by (simp add: thread_step_finished(1))
  next
    case 3
    with assms(2,3) have home: "act_home co so i (t_act t)" "act_home co so j (t_act u)"
      and selves: "co (a_self (t_act t)) = i" "co (a_self (t_act u)) = j"
      by (simp_all add: at_home_def act_home_def)
    from selves assms(1) have neq: "a_self (t_act t) \<noteq> a_self (t_act u)"
      by auto
    from writes_span_home [OF home(1) assms(4)] writes_span_home [OF home(2) assms(4)] assms(1)
    have "writes_span (t_act t) h = None \<or> writes_span (t_act t) h \<noteq> writes_span (t_act u) h"
      by (cases "writes_span (t_act t) h") auto
    from line_after_other(1) [OF neq] line_commute [OF neq this] 3 show ?thesis
      by (simp add: thread_step_line)
  qed
  then show "fst (thread_step t (snd (thread_step u h))) = fst (thread_step t h)"
    and "snd (thread_step t (snd (thread_step u h))) = snd (thread_step u (snd (thread_step t h)))"
    by simp_all
qed

lemma sched_commute:
  assumes "i \<noteq> j" and "separated co so s"
  shows "sched i (sched j s) = sched j (sched i s)"
proof -
  from assms(2) have home: "at_home co so i (fst s i)" "at_home co so j (fst s j)"
    and roots: "roots_home co so (snd s)"
    by (simp_all add: separated_def)
  note ij = thread_step_after_other [OF assms(1) home roots]
  note ji = thread_step_after_other [OF assms(1) [symmetric] home(2,1) roots]
  from assms(1) ij ji show ?thesis
    by (simp add: sched_def Let_def fun_upd_twist)
qed

section \<open>A thread ends within its budget\<close>

lemma sched_stays_settled: "settled (fst s i) \<Longrightarrow> settled (fst (sched j s) i)"
  by (cases "j = i") (simp_all add: sched_settled)

lemma interleave_stays_settled:
  "settled (fst s i) \<Longrightarrow> settled (fst (interleave sch s) i)"
  by (induction sch arbitrary: s) (simp_all add: interleave_def sched_stays_settled)

lemma budget_0_settled: "budget t = 0 \<Longrightarrow> settled t"
  by (auto simp: budget_def settled_def lines_left_0 finished_def)

lemma interleave_settles:
  assumes "budget (fst s i) \<le> count_list sch i"
  shows "settled (fst (interleave sch s) i)"
  using assms
proof (induction sch arbitrary: s)
  case Nil
  then show ?case by (simp add: interleave_def budget_0_settled)
next
  case (Cons j sch)
  consider "settled (fst s i)" | "j \<noteq> i" | "j = i" "\<not> settled (fst s i)"
    by blast
  then have "settled (fst (interleave sch (sched j s)) i)"
  proof cases
    case 1
    then show ?thesis by (intro interleave_stays_settled sched_stays_settled)
  next
    case 2
    with Cons.prems show ?thesis by (intro Cons.IH) simp
  next
    case 3
    with Cons.prems sched_decreases [of s i] show ?thesis by (intro Cons.IH) simp
  qed
  then show ?case by (simp add: interleave_def)
qed

section \<open>Every interleaving is a serial run\<close>

lemma run_thread_separated: "separated co so s \<Longrightarrow> separated co so (run_thread i s)"
  by (induction i s rule: run_thread.induct)
    (subst run_thread.simps, simp add: sched_separated)

lemma run_thread_other: "j \<noteq> i \<Longrightarrow> fst (run_thread i s) j = fst s j"
  by (induction i s rule: run_thread.induct) (subst run_thread.simps, simp)

lemma run_thread_commute:
  assumes "i \<noteq> j" and "separated co so s"
  shows "run_thread j (sched i s) = sched i (run_thread j s)"
  using assms
proof (induction j s rule: run_thread.induct)
  case (1 j s)
  from "1.prems"(1) have ji: "j \<noteq> i" by simp
  show ?case
  proof (cases "settled (fst s j)")
    case True
    with ji show ?thesis by simp
  next
    case False
    with ji have "run_thread j (sched i s) = run_thread j (sched j (sched i s))"
      by (subst run_thread.simps) simp
    also from "1.prems" have "sched j (sched i s) = sched i (sched j s)"
      by (intro sched_commute) auto
    also from False "1.prems"
    have "run_thread j (sched i (sched j s)) = sched i (run_thread j (sched j s))"
      by (intro "1.IH" sched_separated)
    finally show ?thesis
      by (simp add: run_thread_sched)
  qed
qed

lemma serial_sched:
  assumes "i \<in> set js" and "separated co so s"
  shows "serial js (sched i s) = serial js s"
  using assms
proof (induction js arbitrary: s)
  case Nil
  then show ?case by simp
next
  case (Cons j js)
  show ?case
  proof (cases "j = i")
    case True
    then show ?thesis by (simp add: serial_def run_thread_sched)
  next
    case False
    with Cons.prems have "i \<in> set js" and "run_thread j (sched i s) = sched i (run_thread j s)"
      by (simp_all add: run_thread_commute)
    with Cons.IH [of "run_thread j s"] Cons.prems(2) show ?thesis
      by (simp add: serial_def run_thread_separated)
  qed
qed

lemma interleave_separated: "separated co so s \<Longrightarrow> separated co so (interleave sch s)"
  by (induction sch arbitrary: s) (simp_all add: interleave_def sched_separated)

lemma serial_interleave:
  assumes "set sch \<subseteq> set js" and "separated co so s"
  shows "serial js (interleave sch s) = serial js s"
  using assms
proof (induction sch arbitrary: s)
  case Nil
  then show ?case by (simp add: interleave_def)
next
  case (Cons i sch)
  from Cons.prems have "serial js (interleave sch (sched i s)) = serial js (sched i s)"
    by (intro Cons.IH sched_separated) auto
  with Cons.prems show ?case
    by (simp add: interleave_def serial_sched)
qed

lemma serial_settled: "\<forall>j\<in>set js. settled (fst s j) \<Longrightarrow> serial js s = s"
  by (induction js) (simp_all add: serial_def)

lemma interleave_is_serial:
  assumes "separated co so s" and "set sch \<subseteq> set js"
    and "\<forall>j\<in>set js. settled (fst (interleave sch s) j)"
  shows "interleave sch s = serial js s"
  using serial_interleave [OF assms(2,1)] serial_settled [OF assms(3)] by simp

section \<open>A serial run is a run of whole calls\<close>

text \<open>
  \<open>programs ts js\<close> runs the calls of the threads \<open>js\<close>, thread after
  thread, each call by the method definition of \<open>Trace_Context\<close>; a thread
  ends at the first call that raises.
\<close>

definition pstep :: "ctx_ref \<times> event \<Rightarrow> heap \<Rightarrow> heap result" where
  "pstep = (\<lambda>(c, e). step c e)"

lemma run_thread_exec:
  assumes "t_act (ts i) = a"
  shows "run_thread i (ts, h) =
     run_thread i (ts(i := (ts i)\<lparr>t_act := fst (exec a h)\<rparr>), snd (exec a h))"
  using assms
proof (induction a h arbitrary: ts rule: exec.induct)
  case (1 a h)
  show ?case
  proof (cases "finished a")
    case True
    with "1.prems" [symmetric] show ?thesis by simp
  next
    case False
    let ?ts = "ts(i := (ts i)\<lparr>t_act := fst (line a h)\<rparr>)"
    from False "1.prems" have "\<not> settled (ts i)" and "sched i (ts, h) = (?ts, snd (line a h))"
      by (auto simp: settled_def finished_def sched_def thread_step_def)
    then have "run_thread i (ts, h) = run_thread i (?ts, snd (line a h))"
      by (subst run_thread.simps) simp
    also from False have "\<dots> = run_thread i
        (?ts(i := (?ts i)\<lparr>t_act := fst (exec (fst (line a h)) (snd (line a h)))\<rparr>),
         snd (exec (fst (line a h)) (snd (line a h))))"
      by (intro "1.IH") simp_all
    also from False have "exec (fst (line a h)) (snd (line a h)) = exec a h"
      by (simp add: exec_line)
    also have "?ts(i := (?ts i)\<lparr>t_act := fst (exec a h)\<rparr>) =
        ts(i := (ts i)\<lparr>t_act := fst (exec a h)\<rparr>)"
      by simp
    finally show ?thesis .
  qed
qed

lemma run_thread_prog:
  assumes "a_pc (t_act (ts i)) = Returned"
  shows "snd (run_thread i (ts, h)) = final (run pstep (t_todo (ts i)) h)"
  using assms
proof (induction "t_todo (ts i)" arbitrary: ts h)
  case Nil
  then show ?case by (simp add: settled_def)
next
  case (Cons ce es)
  obtain c e where ce: "ce = (c, e)" by (cases ce)
  let ?a = "invoke c e"
  let ?ts = "ts(i := \<lparr>t_act = ?a, t_todo = es\<rparr>)"
  let ?ts' = "?ts(i := \<lparr>t_act = fst (exec ?a h), t_todo = es\<rparr>)"
  from Cons.hyps(2) ce have todo: "t_todo (ts i) = (c, e) # es"
    by simp
  with Cons.prems have "\<not> settled (fst (ts, h) i)" and "sched i (ts, h) = (?ts, h)"
    by (simp_all add: settled_def sched_def thread_step_def)
  then have "run_thread i (ts, h) = run_thread i (?ts, h)"
    by (subst run_thread.simps) simp
  also have "\<dots> = run_thread i (?ts', snd (exec ?a h))"
    by (subst run_thread_exec [where a = ?a]) simp_all
  finally have run: "run_thread i (ts, h) = run_thread i (?ts', snd (exec ?a h))" .
  have out: "step c e h = outcome (exec ?a h)"
    by (simp add: exec_invoke)
  show ?case
  proof (cases "a_pc (fst (exec ?a h)) = Raised")
    case True
    then show ?thesis
      by (simp add: run todo out settled_def pstep_def outcome_def)
  next
    case False
    with exec_finishes [of ?a h] have ret: "a_pc (fst (exec ?a h)) = Returned"
      by (simp add: finished_def)
    with Cons.hyps(1) [of ?ts' "snd (exec ?a h)"]
    have "snd (run_thread i (?ts', snd (exec ?a h))) = final (run pstep es (snd (exec ?a h)))"
      by simp
    with False show ?thesis
      by (simp add: run todo out pstep_def outcome_def)
  qed
qed

lemma run_pstep_single [simp]: "final (run pstep [(c, e)] h) = final (step c e h)"
  by (simp add: pstep_def split: sum.splits)

definition programs :: "(nat \<Rightarrow> thread) \<Rightarrow> nat list \<Rightarrow> heap \<Rightarrow> heap" where
  "programs ts js = fold (\<lambda>j h. final (run pstep (t_todo (ts j)) h)) js"

lemma serial_programs:
  assumes "distinct js" and "\<forall>j\<in>set js. a_pc (t_act (ts j)) = Returned"
  shows "snd (serial js (ts, h)) = programs ts js h"
  using assms
proof (induction js arbitrary: ts h)
  case Nil
  then show ?case by (simp add: serial_def programs_def)
next
  case (Cons j js)
  obtain ts' h' where run: "run_thread j (ts, h) = (ts', h')"
    by (cases "run_thread j (ts, h)")
  from Cons.prems(1) have "k \<noteq> j" if "k \<in> set js" for k
    using that by auto
  with run_thread_other [of _ j "(ts, h)"] run have other: "\<forall>k\<in>set js. ts' k = ts k"
    by simp
  with Cons.prems have "snd (serial js (ts', h')) = programs ts' js h'"
    by (intro Cons.IH) simp_all
  also from other have "programs ts' js = programs ts js"
    by (auto simp: programs_def fun_eq_iff intro!: fold_cong)
  finally have "snd (serial js (ts', h')) = programs ts js h'" .
  moreover from run run_thread_prog [of ts j h] Cons.prems(2)
  have "h' = final (run pstep (t_todo (ts j)) h)"
    by simp
  ultimately show ?case
    by (simp add: serial_def programs_def run)
qed

section \<open>Two threads\<close>

definition two_threads ::
  "(ctx_ref \<times> event) list \<Rightarrow> (ctx_ref \<times> event) list \<Rightarrow> nat \<Rightarrow> thread" where
  "two_threads p q = (\<lambda>i. spawn [])(0 := spawn p, 1 := spawn q)"

lemmas eval_defs = interleave_def sched_def thread_step_def spawn_def idle_def invoke_def
  two_threads_def line_defs Let_def settled_def

text \<open>
  The example: thread \<open>0\<close> adds the parentless span \<open>0\<close> to context \<open>0\<close> and
  sets the sampling priority, thread \<open>1\<close> adds span \<open>5\<close> to context \<open>1\<close> and
  sets the origin; the scheduler lets them move in turn, twenty-six times
  each.
\<close>

definition ex_p :: "(ctx_ref \<times> event) list" where
  "ex_p = [(0, AddSpan (Some 0)), (0, SetSamplingPriority (Some 2))]"

definition ex_q :: "(ctx_ref \<times> event) list" where
  "ex_q = [(1, AddSpan (Some 5)), (1, SetOrigin (Some ''web''))]"

definition alternating :: "nat list" where
  "alternating = concat (replicate 26 [0, 1])"

definition ex_span_owner :: "span_ref \<Rightarrow> nat" where
  "ex_span_owner r = (if r < 3 then 0 else 1)"

lemma ex_separated: "separated (\<lambda>c. c) ex_span_owner (two_threads ex_p ex_q, ex_heap)"
  by (simp add: separated_def at_home_def act_home_def roots_home_def two_threads_def spawn_def
      idle_def finished_def ex_p_def ex_q_def ex_span_owner_def)

lemma ex_alternating:
  "set alternating \<subseteq> set [0, 1]"
  "\<forall>j\<in>set [0, 1]. 13 * length (t_todo (two_threads ex_p ex_q j)) \<le> count_list alternating j"
  by (simp_all add: alternating_def two_threads_def spawn_def ex_p_def ex_q_def numeral_eq_Suc)

lemma ex_programs:
  "sampling_priority 0 (programs (two_threads ex_p ex_q) [0, 1] ex_heap) = Some 2"
  "dd_origin 1 (programs (two_threads ex_p ex_q) [0, 1] ex_heap) = Some ''web''"
  "get_current_span 1 (programs (two_threads ex_p ex_q) [0, 1] ex_heap) = Some 5"
  by (simp_all add: programs_def pstep_def two_threads_def spawn_def ex_p_def ex_q_def
      Let_def ctx_defs heap_defs)

section \<open>The theorem\<close>

lemma scheduled_thread_settles:
  assumes "13 * length (t_todo (ts i)) + 12 \<le> count_list sch i"
  shows "settled (fst (interleave sch (ts, h)) i)"
proof -
  from assms lines_left_le [of "t_act (ts i)"] have "budget (fst (ts, h) i) \<le> count_list sch i"
    by (simp add: budget_def)
  then show ?thesis by (rule interleave_settles)
qed

lemma idle_thread_settles:
  assumes "a_pc (t_act (ts i)) = Returned" and "13 * length (t_todo (ts i)) \<le> count_list sch i"
  shows "settled (fst (interleave sch (ts, h)) i)"
  using assms by (intro interleave_settles) (simp add: budget_def lines_left_def)

text \<open>
  C21. Threads that keep to their own contexts and spans cannot tell that
  they are interleaved. From a state in which the threads \<open>js\<close> stand between
  calls, a schedule of these threads, line by line, that gives each thread
  thirteen steps for every call it has to make lets them all end; and every
  schedule after which they have all ended leaves the store that their
  programs leave when they run one after the other in the order \<open>js\<close>, each
  call as a whole.
\<close>

theorem interleaving_serialisable:
  assumes "separated co so (ts, h)"
    and "distinct js" and "\<forall>j\<in>set js. a_pc (t_act (ts j)) = Returned"
    and "set sch \<subseteq> set js"
  shows "((\<forall>j\<in>set js. 13 * length (t_todo (ts j)) \<le> count_list sch j) \<longrightarrow>
          (\<forall>j\<in>set js. settled (fst (interleave sch (ts, h)) j))) \<and>
     ((\<forall>j\<in>set js. settled (fst (interleave sch (ts, h)) j)) \<longrightarrow>
          snd (interleave sch (ts, h)) = programs ts js h)"
proof (intro conjI impI)
  assume "\<forall>j\<in>set js. 13 * length (t_todo (ts j)) \<le> count_list sch j"
  with assms(3) show "\<forall>j\<in>set js. settled (fst (interleave sch (ts, h)) j)"
    by (auto intro: idle_thread_settles)
next
  assume "\<forall>j\<in>set js. settled (fst (interleave sch (ts, h)) j)"
  from interleave_is_serial [OF assms(1,4) this] serial_programs [OF assms(2,3), of h]
  show "snd (interleave sch (ts, h)) = programs ts js h"
    by simp
qed

theorem interleaving_serialisable_witness:
  "let ts = two_threads ex_p ex_q; s = interleave alternating (ts, ex_heap) in
     separated (\<lambda>c. c) ex_span_owner (ts, ex_heap) \<and>
     (\<forall>j\<in>set [0, 1]. 13 * length (t_todo (ts j)) \<le> count_list alternating j) \<and>
     settled (fst s 0) \<and> settled (fst s 1) \<and> snd s = programs ts [0, 1] ex_heap \<and>
     sampling_priority 0 (snd s) = Some 2 \<and> dd_origin 1 (snd s) = Some ''web'' \<and>
     get_current_span 1 (snd s) = Some 5"
proof -
  have "distinct [0::nat, 1]"
    and "\<forall>j\<in>set [0, 1]. a_pc (t_act (two_threads ex_p ex_q j)) = Returned"
    by (simp_all add: two_threads_def spawn_def idle_def)
  from interleaving_serialisable [OF ex_separated this ex_alternating(1)] ex_alternating(2)
  have "settled (fst (interleave alternating (two_threads ex_p ex_q, ex_heap)) 0)"
    and "settled (fst (interleave alternating (two_threads ex_p ex_q, ex_heap)) 1)"
    and "snd (interleave alternating (two_threads ex_p ex_q, ex_heap)) =
      programs (two_threads ex_p ex_q) [0, 1] ex_heap"
    by simp_all
  with ex_separated ex_alternating(2) ex_programs show ?thesis
    by (simp only: Let_def simp_thms)
qed

end
