(* ===== verification/Shared_Context.thy ===== *)
theory Shared_Context
  imports Thread_Interleaving
begin

text \<open>
  Two threads on one context. The class has no lock, and the specification
  (section 5) leaves it to the caller that a context is used by one thread at
  a time. What happens otherwise: two calls of \<^verbatim>\<open>add_span\<close> can leave the
  context with one span as current span and the identifier of the other
  (C24), and a property setter can raise \<open>AttributeError\<close> when the root span
  is closed between its test and its write (C26). Neither outcome is left by
  the two calls in either order when each runs as a whole.
\<close>

section \<open>A lost update in \<open>_set_current_span\<close>\<close>

text \<open>
  Thread \<open>0\<close> runs \<^verbatim>\<open>add_span(a)\<close> up to and including line 84, thread \<open>1\<close>
  runs \<^verbatim>\<open>add_span(b)\<close> from start to end, thread \<open>0\<close> runs the rest.
\<close>

definition lost_update :: "nat list" where
  "lost_update = replicate 4 0 @ replicate 8 1 @ replicate 4 0"

lemma add_span_links_id: "id_linked c (final (add_span c (Some s) h))"
  by (simp add: id_linked_def add_span_ctxs)

lemma add_spans_id_linked:
  "id_linked c (programs (two_threads [(c, AddSpan (Some a))] [(c, AddSpan (Some b))]) [0, 1] h)"
  "id_linked c (programs (two_threads [(c, AddSpan (Some a))] [(c, AddSpan (Some b))]) [1, 0] h)"
  by (simp_all add: programs_def two_threads_def spawn_def add_span_links_id del: run.simps(2))

text \<open>
  C24. A context shared by two threads loses an update: when two threads add
  spans \<open>a\<close> and \<open>b\<close>, both with a parent and with different identifiers, to
  the same context, there is a schedule after which both calls have returned,
  \<open>get_current_span\<close> is \<open>b\<close> and \<open>span_id\<close> is the identifier of \<open>a\<close>. The
  two calls in either order, each as a whole, leave the identifier of the
  current span.
\<close>

theorem shared_context_lost_update:
  assumes "sp_parent (spans h a) = Some pa" and "sp_parent (spans h b) = Some pb"
    and "sp_span_id (spans h a) \<noteq> sp_span_id (spans h b)"
  shows "let ts = two_threads [(c, AddSpan (Some a))] [(c, AddSpan (Some b))];
             s = interleave lost_update (ts, h) in
     a_pc (t_act (fst s 0)) = Returned \<and> a_pc (t_act (fst s 1)) = Returned \<and>
     get_current_span c (snd s) = Some b \<and>
     span_id c (snd s) = Some (sp_span_id (spans h a)) \<and> \<not> id_linked c (snd s) \<and>
     id_linked c (programs ts [0, 1] h) \<and> id_linked c (programs ts [1, 0] h)"
proof -
  let ?ts = "two_threads [(c, AddSpan (Some a))] [(c, AddSpan (Some b))]"
  from assms have "let s = interleave lost_update (?ts, h) in
     a_pc (t_act (fst s 0)) = Returned \<and> a_pc (t_act (fst s 1)) = Returned \<and>
     get_current_span c (snd s) = Some b \<and>
     span_id c (snd s) = Some (sp_span_id (spans h a)) \<and> \<not> id_linked c (snd s)"
    by (simp add: lost_update_def eval_defs getter_defs id_linked_def numeral_eq_Suc)
  with add_spans_id_linked [of c a b h] show ?thesis
    by (simp add: Let_def)
qed

theorem shared_context_lost_update_witness:
  "let ts = two_threads [(0, AddSpan (Some 1))] [(0, AddSpan (Some 2))];
       s = interleave lost_update (ts, ex_heap) in
     sp_parent (spans ex_heap 1) = Some 0 \<and> sp_parent (spans ex_heap 2) = Some 1 \<and>
     sp_span_id (spans ex_heap 1) \<noteq> sp_span_id (spans ex_heap 2) \<and>
     get_current_span 0 (snd s) = Some 2 \<and> span_id 0 (snd s) = Some 2 \<and>
     \<not> id_linked 0 (snd s) \<and> id_linked 0 (programs ts [0, 1] ex_heap)"
proof -
  have "sp_parent (spans ex_heap 1) = Some 0" and "sp_parent (spans ex_heap 2) = Some 1"
    and "sp_span_id (spans ex_heap 1) \<noteq> sp_span_id (spans ex_heap 2)"
    by (simp_all add: numeral_2_eq_2)
  from shared_context_lost_update [OF this, of 0] this show ?thesis
    by (simp add: Let_def)
qed

section \<open>A setter that raises\<close>

text \<open>
  Thread \<open>0\<close> starts the setter and runs line 32, which finds a root span;
  thread \<open>1\<close> starts \<^verbatim>\<open>close_span\<close> of the root span and runs lines 104 and
  105; thread \<open>0\<close> runs line 33.
\<close>

definition stale_root :: "nat list" where
  "stale_root = [0, 0, 1, 1, 1, 0]"

text \<open>
  C26. A property setter can raise on a shared context: when a thread sets
  the sampling priority of a context while another closes its root span,
  there is a schedule after which the setter has raised \<open>AttributeError\<close> at
  line 33, having found the root span at line 32, and the context has not
  received the value. As a whole call the setter returns from every state.
\<close>

theorem setter_raises_under_close:
  assumes "c_local_root_span (ctxs h c) = Some r"
  shows "let ts = two_threads [(c, SetSamplingPriority v)] [(c, CloseSpan (Some r))];
             s = interleave stale_root (ts, h) in
     a_pc (t_act (fst s 0)) = Raised \<and> settled (fst s 0) \<and>
     sampling_priority c (snd s) = sampling_priority c h \<and>
     get_current_root_span c (snd s) = None \<and>
     raised (run pstep (t_todo (ts 0)) h') = None"
proof -
  from assms have "let s = interleave stale_root
         (two_threads [(c, SetSamplingPriority v)] [(c, CloseSpan (Some r))], h) in
     a_pc (t_act (fst s 0)) = Raised \<and> settled (fst s 0) \<and>
     sampling_priority c (snd s) = sampling_priority c h \<and>
     get_current_root_span c (snd s) = None"
    by (simp add: stale_root_def eval_defs getter_defs)
  moreover have "raised (run pstep
      (t_todo (two_threads [(c, SetSamplingPriority v)] [(c, CloseSpan (Some r))] 0)) h') = None"
    by (simp add: two_threads_def spawn_def pstep_def)
  ultimately show ?thesis
    unfolding Let_def by blast
qed

theorem setter_raises_under_close_witness:
  "let h = final (add_span 0 (Some 0) ex_heap);
       ts = two_threads [(0, SetSamplingPriority (Some 2))] [(0, CloseSpan (Some 0))];
       s = interleave stale_root (ts, h) in
     c_local_root_span (ctxs h 0) = Some 0 \<and>
     a_pc (t_act (fst s 0)) = Raised \<and> sampling_priority 0 (snd s) = None \<and>
     sampling_priority 0 (final (run pstep (t_todo (ts 0)) h)) = Some 2"
proof -
  let ?h = "final (add_span 0 (Some 0) ex_heap)"
  have root: "c_local_root_span (ctxs ?h 0) = Some 0"
    by (simp add: add_span_ctxs)
  have "sampling_priority 0 ?h = None"
    by (simp add: getter_defs add_span_ctxs)
  moreover have "sampling_priority 0
      (final (run pstep (t_todo (two_threads [(0, SetSamplingPriority (Some 2))]
         [(0, CloseSpan (Some 0))] 0)) ?h)) = Some 2"
    by (simp add: two_threads_def spawn_def getter_defs set_sampling_priority_ctxs
        del: run.simps(2))
  ultimately show ?thesis
    using setter_raises_under_close [OF root, of "Some 2"] root
    by (simp add: Let_def)
qed

end
